(* ===== verification/Prelude.thy ===== *)
theory Prelude
  imports Main "HOL-Library.Word" "HOL-Library.Char_ord"
begin

text \<open>
  Shared vocabulary of the development: the machine integers of the agent by their C++ names,
  the reading of a \<^theory_text>\<open>std::string\<close> as a list of bytes (Isabelle's \<open>char\<close> is an 8-bit
  value, so \<open>string\<close> is exactly a byte string), the byte order of \<^theory_text>\<open>std::string\<close>
  comparison, and lemmas about lists that several components use.
\<close>

section \<open>Machine integers\<close>

type_synonym byte = "8 word"
type_synonym u16 = "16 word"
type_synonym u32 = "32 word"
type_synonym u64 = "64 word"

text \<open>
  \<^theory_text>\<open>int64_t\<close> and \<^theory_text>\<open>int\<close> have the same bits as the unsigned type of the same
  width and are read with \<open>sint\<close>; a cast between the two is the identity on the word.
\<close>

type_synonym i64 = "64 word"
type_synonym i32 = "32 word"

unbundle bit_operations_syntax

text \<open>A conversion to \<^theory_text>\<open>int\<close> keeps the low 32 bits.\<close>

definition to_i32 :: "i64 \<Rightarrow> i32" where
  "to_i32 x = ucast x"

text \<open>Promotion of a signed 32-bit value back to 64 bits.\<close>

definition of_i32 :: "i32 \<Rightarrow> i64" where
  "of_i32 x = scast x"

lemma sint_of_i32 [simp]: "sint (of_i32 x) = sint x"
  by (simp add: of_i32_def sint_up_scast is_up)

lemma uint_of_sint: "0 \<le> sint w \<Longrightarrow> uint w = sint w"
proof -
  assume "0 \<le> sint w"
  moreover have "sint w < 2 ^ LENGTH('a)" for w :: "'a::len word"
    using sint_lt [of w] by (rule order_less_le_trans) simp
  ultimately show ?thesis by (simp add: uint_sint take_bit_int_eq_self)
qed

lemma unat_of_sint: "0 \<le> sint w \<Longrightarrow> unat w = nat (sint w)"
  by (simp add: uint_of_sint unat_eq_nat_uint)

section \<open>Bytes and characters\<close>

abbreviation code :: "char \<Rightarrow> nat" where
  "code c \<equiv> of_char c"

definition byte_of :: "char \<Rightarrow> byte" where
  "byte_of c = word_of_nat (code c)"

definition chr_of :: "byte \<Rightarrow> char" where
  "chr_of b = char_of (unat b)"

abbreviation bytes_of :: "string \<Rightarrow> byte list" where
  "bytes_of s \<equiv> map byte_of s"

abbreviation string_of_bytes :: "byte list \<Rightarrow> string" where
  "string_of_bytes bs \<equiv> map chr_of bs"

lemma code_less_256 [simp]: "code c < 256"
proof -
  have "code c \<in> {0..<256}" by (simp add: range_nat_of_char [symmetric])
  then show ?thesis by simp
qed

lemma chr_of_byte_of [simp]: "chr_of (byte_of c) = c"
  by (simp add: chr_of_def byte_of_def unat_of_nat take_bit_eq_mod)

lemma string_of_bytes_of [simp]: "string_of_bytes (bytes_of s) = s"
  by (simp add: comp_def)

lemma byte_of_chr_of [simp]: "byte_of (chr_of b) = b"
proof -
  have "unat b < 256" using unsigned_less [of b, where 'a = nat] by simp
  then show ?thesis by (simp add: chr_of_def byte_of_def)
qed

text \<open>Two characters of the agent's messages that are not ASCII, as the UTF-8 bytes they are.\<close>

definition em_dash :: string where
  "em_dash = [CHR 0xE2, CHR 0x80, CHR 0x94]"

definition e_grave :: string where
  "e_grave = [CHR 0xC3, CHR 0xA8]"

section \<open>The order of std::string\<close>

text \<open>
  \<^theory_text>\<open>std::map<std::string, _>\<close> orders its keys with \<^theory_text>\<open>std::string::operator<\<close>,
  which compares byte by byte as unsigned values, a proper prefix being smaller.
\<close>

fun str_less :: "string \<Rightarrow> string \<Rightarrow> bool" where
  "str_less _ [] = False"
| "str_less [] (_ # _) = True"
| "str_less (a # s) (b # t) = (code a < code b \<or> (a = b \<and> str_less s t))"

lemma str_less_irrefl [simp]: "\<not> str_less s s"
  by (induction s) auto

lemma str_less_Nil [simp]: "str_less [] t \<longleftrightarrow> t \<noteq> []"
  by (cases t) auto

lemma str_less_trans: "str_less a b \<Longrightarrow> str_less b c \<Longrightarrow> str_less a c"
proof (induction a b arbitrary: c rule: str_less.induct)
  case (3 x s y t)
  then show ?case by (cases c) auto
next
  case (2 y t)
  then show ?case by (cases c) auto
qed simp

lemma str_less_linear: "str_less a b \<or> a = b \<or> str_less b a"
proof (induction a b rule: str_less.induct)
  case (3 a s b t)
  have "code a = code b \<longleftrightarrow> a = b" by simp
  with 3 show ?case by auto
qed auto

lemma str_less_asym: "str_less a b \<Longrightarrow> \<not> str_less b a"
  using str_less_trans str_less_irrefl by blast

section \<open>Ordered maps keyed by strings\<close>

text \<open>
  A \<^theory_text>\<open>std::map\<close> is kept as its in-order traversal: an association list whose keys are
  strictly increasing. \<open>smap_put\<close> is \<^theory_text>\<open>m[k] = v\<close>; lookup is \<open>map_of\<close>.
\<close>

type_synonym 'v smap = "(string \<times> 'v) list"

fun smap_put :: "string \<Rightarrow> 'v \<Rightarrow> 'v smap \<Rightarrow> 'v smap" where
  "smap_put k v [] = [(k, v)]"
| "smap_put k v ((k', v') # m) =
     (if str_less k k' then (k, v) # (k', v') # m
      else if k = k' then (k, v) # m
      else (k', v') # smap_put k v m)"

fun smap_sorted :: "'v smap \<Rightarrow> bool" where
  "smap_sorted [] = True"
| "smap_sorted ((k, v) # m) = ((\<forall>k' \<in> set (map fst m). str_less k k') \<and> smap_sorted m)"

lemma smap_put_keys: "set (map fst (smap_put k v m)) = insert k (set (map fst m))"
  by (induction m rule: smap_sorted.induct) auto

lemma smap_sorted_put [intro]: "smap_sorted m \<Longrightarrow> smap_sorted (smap_put k v m)"
proof (induction m rule: smap_sorted.induct)
  case (2 k' v' m)
  consider "str_less k k'" | "k = k'" | "str_less k' k" using str_less_linear by blast
  then show ?case
  proof cases
    case 3
    then have "\<not> str_less k k'" "k \<noteq> k'" using str_less_asym by auto
    with 2 3 smap_put_keys [of k v m] show ?thesis by auto
  qed (use 2 in \<open>auto dest: str_less_trans\<close>)
qed simp

lemma map_of_smap_put: "smap_sorted m \<Longrightarrow> map_of (smap_put k v m) = (map_of m)(k \<mapsto> v)"
proof (induction m rule: smap_sorted.induct)
  case (2 k' v' m)
  then show ?case by (auto simp: fun_upd_twist)
qed simp

lemma smap_put_last:
  "\<forall>k' \<in> set (map fst m). str_less k' k \<Longrightarrow> smap_put k v m = m @ [(k, v)]"
  by (induction m rule: smap_sorted.induct) (auto dest: str_less_asym)

lemma smap_sorted_append:
  "smap_sorted (m @ n) \<longleftrightarrow> smap_sorted m \<and> smap_sorted n \<and>
     (\<forall>k \<in> set (map fst m). \<forall>k' \<in> set (map fst n). str_less k k')"
  by (induction m rule: smap_sorted.induct) auto

lemma smap_put_set: "set (smap_put k v m) \<subseteq> insert (k, v) (set m)"
  by (induction m rule: smap_sorted.induct) auto

lemma smap_put_mem: "(k, v) \<in> set (smap_put k v m)"
  by (induction m rule: smap_sorted.induct) auto

text \<open>Two ordered maps with the same lookups are the same list: lookup determines the map.\<close>

lemma smap_sorted_distinct: "smap_sorted m \<Longrightarrow> distinct (map fst m)"
  by (induction m rule: smap_sorted.induct) auto

section \<open>Lists\<close>

lemma takeWhile_append_stop:
  "\<forall>x \<in> set xs. P x \<Longrightarrow> (ys = [] \<or> \<not> P (hd ys)) \<Longrightarrow> takeWhile P (xs @ ys) = xs"
  by (cases ys) (auto simp: takeWhile_append)

lemma dropWhile_append_stop:
  "\<forall>x \<in> set xs. P x \<Longrightarrow> (ys = [] \<or> \<not> P (hd ys)) \<Longrightarrow> dropWhile P (xs @ ys) = ys"
  by (cases ys) (auto simp: dropWhile_append)

end
