(* ===== verification/Libc.thy ===== *)
theory Libc
  imports Prelude
begin

text \<open>
  The parts of the C and C++ standard library the agent computes with: decimal and hexadecimal
  rendering (the \<^verbatim>\<open>printf\<close> conversions of the source), the \<^verbatim>\<open>strto*\<close> family,
  substring search and case folding. These are the language's own functions, so they are
  modelled and not left as parameters; the lemmas are the facts the JSON codec, the config
  loader and the handlers need of them.
\<close>

section \<open>Digits\<close>

definition digit_char :: "nat \<Rightarrow> char" where
  "digit_char d = char_of (48 + d)"

definition hex_char :: "nat \<Rightarrow> char" where
  "hex_char d = (if d < 10 then char_of (48 + d) else char_of (87 + d))"

definition is_digit :: "char \<Rightarrow> bool" where
  "is_digit c \<longleftrightarrow> 48 \<le> code c \<and> code c \<le> 57"

lemma code_digit_char [simp]: "d < 10 \<Longrightarrow> code (digit_char d) = 48 + d"
  by (simp add: digit_char_def)

lemma is_digit_digit_char [simp]: "d < 10 \<Longrightarrow> is_digit (digit_char d)"
  by (simp add: is_digit_def)

lemma code_hex_char: "d < 16 \<Longrightarrow> code (hex_char d) = (if d < 10 then 48 + d else 87 + d)"
  by (simp add: hex_char_def)

text \<open>The value of a digit in a base up to 16, as the \<^verbatim>\<open>strto*\<close> functions read it.\<close>

definition digit_val :: "char \<Rightarrow> nat option" where
  "digit_val c =
     (let n = code c in
      if 48 \<le> n \<and> n \<le> 57 then Some (n - 48)
      else if 97 \<le> n \<and> n \<le> 102 then Some (n - 87)
      else if 65 \<le> n \<and> n \<le> 70 then Some (n - 55)
      else None)"

definition digit_in :: "nat \<Rightarrow> char \<Rightarrow> nat option" where
  "digit_in base c =
     (case digit_val c of None \<Rightarrow> None | Some d \<Rightarrow> if d < base then Some d else None)"

lemma digit_val_hex_char [simp]: "d < 16 \<Longrightarrow> digit_val (hex_char d) = Some d"
  by (simp add: digit_val_def code_hex_char Let_def)

lemma digit_val_digit_char [simp]: "d < 10 \<Longrightarrow> digit_val (digit_char d) = Some d"
  by (simp add: digit_val_def Let_def)

lemma digit_in_digit_char [simp]: "d < 10 \<Longrightarrow> digit_in 10 (digit_char d) = Some d"
  by (simp add: digit_in_def)

lemma digit_in_hex_char [simp]: "d < 16 \<Longrightarrow> digit_in 16 (hex_char d) = Some d"
  by (simp add: digit_in_def)

section \<open>Rendering numbers\<close>

text \<open>\<^verbatim>\<open>%u\<close>, \<^verbatim>\<open>%llu\<close>, \<^verbatim>\<open>std::to_string\<close> of an unsigned value.\<close>

fun dec_nat :: "nat \<Rightarrow> string" where
  "dec_nat n = (if n < 10 then [digit_char n] else dec_nat (n div 10) @ [digit_char (n mod 10)])"

declare dec_nat.simps [simp del]

text \<open>\<^verbatim>\<open>%d\<close> and \<^verbatim>\<open>%lld\<close>.\<close>

definition dec_int :: "int \<Rightarrow> string" where
  "dec_int i = (if i < 0 then CHR ''-'' # dec_nat (nat (- i)) else dec_nat (nat i))"

text \<open>\<^verbatim>\<open>%lx\<close>.\<close>

fun hex_nat :: "nat \<Rightarrow> string" where
  "hex_nat n = (if n < 16 then [hex_char n] else hex_nat (n div 16) @ [hex_char (n mod 16)])"

declare hex_nat.simps [simp del]

definition pad_left :: "nat \<Rightarrow> char \<Rightarrow> string \<Rightarrow> string" where
  "pad_left w c s = replicate (w - length s) c @ s"

definition pad_right :: "nat \<Rightarrow> string \<Rightarrow> string" where
  "pad_right w s = s @ replicate (w - length s) (CHR '' '')"

text \<open>\<^verbatim>\<open>%02x\<close> of a byte, \<^verbatim>\<open>%04x\<close> of a character code, \<^verbatim>\<open>%016lx\<close>, \<^verbatim>\<open>%08x\<close> and
  \<^verbatim>\<open>0x%lx\<close>.\<close>

definition fmt_02x :: "byte \<Rightarrow> string" where
  "fmt_02x b = pad_left 2 (CHR ''0'') (hex_nat (unat b))"

definition fmt_04x :: "nat \<Rightarrow> string" where
  "fmt_04x n = pad_left 4 (CHR ''0'') (hex_nat n)"

definition fmt_016lx :: "u64 \<Rightarrow> string" where
  "fmt_016lx w = pad_left 16 (CHR ''0'') (hex_nat (unat w))"

definition fmt_08x :: "u32 \<Rightarrow> string" where
  "fmt_08x w = pad_left 8 (CHR ''0'') (hex_nat (unat w))"

definition fmt_0xlx :: "u64 \<Rightarrow> string" where
  "fmt_0xlx w = ''0x'' @ hex_nat (unat w)"

text \<open>The loop that renders a digest: \<^verbatim>\<open>snprintf(hex + i * 2, 3, "%02x", b[i])\<close>.\<close>

definition hex_bytes :: "byte list \<Rightarrow> string" where
  "hex_bytes bs = concat (map fmt_02x bs)"

lemma dec_nat_nonempty [simp]: "dec_nat n \<noteq> []"
  by (subst dec_nat.simps) simp

lemma dec_nat_digits: "c \<in> set (dec_nat n) \<Longrightarrow> is_digit c"
proof (induction n rule: dec_nat.induct)
  case (1 n)
  then show ?case by (subst (asm) (2) dec_nat.simps) (auto split: if_splits)
qed

lemma hex_nat_nonempty [simp]: "hex_nat n \<noteq> []"
  by (subst hex_nat.simps) simp

lemma hex_nat_length: "n < 16 ^ k \<Longrightarrow> 0 < k \<Longrightarrow> length (hex_nat n) \<le> k"
proof (induction n arbitrary: k rule: hex_nat.induct)
  case (1 n)
  show ?case
  proof (cases "n < 16")
    case True
    with "1.prems" show ?thesis by (subst hex_nat.simps) simp
  next
    case False
    obtain j where kj: "k = Suc j" using "1.prems" by (cases k) auto
    with False "1.prems" have "0 < j" by (cases j) auto
    note k = kj this
    then have "n div 16 < 16 ^ j" using "1.prems" by (simp add: less_mult_imp_div_less mult.commute)
    then have "length (hex_nat (n div 16)) \<le> j" using "1.IH" False k by blast
    with False k show ?thesis by (subst hex_nat.simps) simp
  qed
qed

lemma dec_nat_length: "n < 10 ^ k \<Longrightarrow> 0 < k \<Longrightarrow> length (dec_nat n) \<le> k"
proof (induction n arbitrary: k rule: dec_nat.induct)
  case (1 n)
  show ?case
  proof (cases "n < 10")
    case True
    with "1.prems" show ?thesis by (subst dec_nat.simps) simp
  next
    case False
    obtain j where k: "k = Suc j" "0 < j"
    proof (cases k)
      case (Suc i)
      then show ?thesis using that False "1.prems" by (cases i) auto
    qed (use "1.prems" in simp)
    then have "n div 10 < 10 ^ j" using "1.prems" by (simp add: less_mult_imp_div_less mult.commute)
    then have "length (dec_nat (n div 10)) \<le> j" using "1.IH" False k by blast
    with False k show ?thesis by (subst dec_nat.simps) simp
  qed
qed

lemma hex_nat_chars: "c \<in> set (hex_nat n) \<Longrightarrow> digit_val c \<noteq> None"
proof (induction n rule: hex_nat.induct)
  case (1 n)
  then show ?case by (subst (asm) (2) hex_nat.simps) (auto split: if_splits)
qed

text \<open>The buffers \<^verbatim>\<open>char hx[19]\<close> and \<^verbatim>\<open>char tid[17]\<close> of the handlers never truncate.\<close>

lemma fmt_0xlx_length: "length (fmt_0xlx w) < 19"
proof -
  have "unat w < 16 ^ 16" using unsigned_less [of w, where 'a = nat] by simp
  then have "length (hex_nat (unat w)) \<le> 16" by (rule hex_nat_length) simp
  then show ?thesis by (simp add: fmt_0xlx_def)
qed

lemma fmt_016lx_length: "length (fmt_016lx w) = 16"
proof -
  have "unat w < 16 ^ 16" using unsigned_less [of w, where 'a = nat] by simp
  then have "length (hex_nat (unat w)) \<le> 16" by (rule hex_nat_length) simp
  then show ?thesis by (simp add: fmt_016lx_def pad_left_def)
qed

lemma fmt_02x_length: "length (fmt_02x b) = 2"
proof -
  have "unat b < 16 ^ 2" using unsigned_less [of b, where 'a = nat] by simp
  then have "length (hex_nat (unat b)) \<le> 2" by (rule hex_nat_length) simp
  then show ?thesis by (simp add: fmt_02x_def pad_left_def)
qed

lemma hex_bytes_length: "length (hex_bytes bs) = 2 * length bs"
  by (induction bs) (simp_all add: hex_bytes_def fmt_02x_length)

section \<open>The strto* family\<close>

definition is_space :: "char \<Rightarrow> bool" where
  "is_space c \<longleftrightarrow> code c = 32 \<or> (9 \<le> code c \<and> code c \<le> 13)"

text \<open>The longest run of digits of the base, from an accumulator; what follows is left.\<close>

fun read_digits :: "nat \<Rightarrow> nat \<Rightarrow> string \<Rightarrow> nat \<times> string" where
  "read_digits base acc [] = (acc, [])"
| "read_digits base acc (c # s) =
     (case digit_in base c of
        None \<Rightarrow> (acc, c # s)
      | Some d \<Rightarrow> read_digits base (acc * base + d) s)"

definition read_sign :: "string \<Rightarrow> bool \<times> string" where
  "read_sign s = (case s of
       [] \<Rightarrow> (False, [])
     | c # t \<Rightarrow> if c = CHR ''-'' then (True, t)
               else if c = CHR ''+'' then (False, t) else (False, s))"

text \<open>\<^verbatim>\<open>strtoll(s, nullptr, 10)\<close>: saturates at the ends of the range; 0 where there is no digit.\<close>

definition strtoll10 :: "string \<Rightarrow> i64" where
  "strtoll10 s =
     (let (neg, t) = read_sign (dropWhile is_space s);
          v = fst (read_digits 10 0 t)
      in if neg then (if v > 2 ^ 63 then word_of_int (- (2 ^ 63)) else word_of_int (- int v))
         else (if v \<ge> 2 ^ 63 then word_of_int (2 ^ 63 - 1) else word_of_int (int v)))"

text \<open>\<^verbatim>\<open>strtoul\<close> and \<^verbatim>\<open>strtoull\<close>: a leading minus negates modulo the word; overflow gives the
  largest value. Base 16 accepts a \<^verbatim>\<open>0x\<close> prefix that a hex digit follows.\<close>

definition strtoull_digits :: "nat \<Rightarrow> bool \<Rightarrow> string \<Rightarrow> u64" where
  "strtoull_digits base neg t =
     (let v = fst (read_digits base 0 t)
      in if v \<ge> 2 ^ 64 then - 1 else if neg then - word_of_nat v else word_of_nat v)"

definition skip_0x :: "string \<Rightarrow> string" where
  "skip_0x s = (case s of
       z # x # d # t \<Rightarrow>
         if z = CHR ''0'' \<and> (x = CHR ''x'' \<or> x = CHR ''X'') \<and> digit_val d \<noteq> None
         then d # t else s
     | _ \<Rightarrow> s)"

definition strtoull16 :: "string \<Rightarrow> u64" where
  "strtoull16 s =
     (let (neg, t) = read_sign (dropWhile is_space s) in strtoull_digits 16 neg (skip_0x t))"

definition strtoul10 :: "string \<Rightarrow> u64" where
  "strtoul10 s =
     (let (neg, t) = read_sign (dropWhile is_space s) in strtoull_digits 10 neg t)"

text \<open>\<^verbatim>\<open>(int)strtol(s, nullptr, 10)\<close> and \<^verbatim>\<open>atoi\<close>: \<^verbatim>\<open>long\<close> is 64 bits on this target.\<close>

definition strtol_int :: "string \<Rightarrow> i32" where
  "strtol_int s = to_i32 (strtoll10 s)"

lemma digit_in_10_is_digit: "digit_in 10 c = Some d \<Longrightarrow> is_digit c"
  by (auto simp: digit_in_def digit_val_def is_digit_def Let_def split: if_splits)

lemma digit_in_10_None: "\<not> is_digit c \<Longrightarrow> digit_in 10 c = None"
  using digit_in_10_is_digit by (cases "digit_in 10 c") auto

lemma read_digits_append:
  "\<forall>c \<in> set s. digit_in b c \<noteq> None \<Longrightarrow>
   read_digits b acc (s @ t) = read_digits b (fst (read_digits b acc s)) t"
  by (induction s arbitrary: acc) auto

lemma read_digits_dec_nat: "fst (read_digits 10 acc (dec_nat n)) = acc * 10 ^ length (dec_nat n) + n"
proof (induction n arbitrary: acc rule: dec_nat.induct)
  case (1 n)
  show ?case
  proof (cases "n < 10")
    case True
    then show ?thesis by (simp add: dec_nat.simps [of n])
  next
    case False
    have digs: "\<forall>c \<in> set (dec_nat (n div 10)). digit_in 10 c \<noteq> None"
    proof
      fix c assume "c \<in> set (dec_nat (n div 10))"
      then have "is_digit c" by (rule dec_nat_digits)
      then show "digit_in 10 c \<noteq> None"
        by (auto simp: digit_in_def digit_val_def is_digit_def Let_def)
    qed
    have "fst (read_digits 10 acc (dec_nat n)) =
        (acc * 10 ^ length (dec_nat (n div 10)) + n div 10) * 10 + n mod 10"
      using False by (subst dec_nat.simps)
        (simp add: read_digits_append [OF digs] "1.IH" [OF False])
    also have "\<dots> = acc * 10 ^ length (dec_nat n) + n"
      using False by (subst (2) dec_nat.simps) (simp add: algebra_simps)
    finally show ?thesis .
  qed
qed

text \<open>Printing a 64-bit integer and reading it back is the identity.\<close>

lemma dec_nat_no_sign: "read_sign (dec_nat n) = (False, dec_nat n)"
proof (cases "dec_nat n")
  case (Cons c t)
  then have "is_digit c" using dec_nat_digits [of c n] by simp
  then have "c \<noteq> CHR ''-''" "c \<noteq> CHR ''+''" by (auto simp: is_digit_def)
  with Cons show ?thesis by (simp add: read_sign_def)
qed simp

lemma dec_nat_no_space: "dropWhile is_space (dec_nat n) = dec_nat n"
proof (cases "dec_nat n")
  case (Cons c t)
  then have "is_digit c" using dec_nat_digits [of c n] by simp
  then have "\<not> is_space c" by (auto simp: is_digit_def is_space_def)
  with Cons show ?thesis by simp
qed simp

lemma strtoll10_dec_int: "strtoll10 (dec_int (sint w)) = w"
proof (cases "sint w < 0")
  case True
  have "- (2 ^ 63) \<le> sint w" using sint_ge [of w] by simp
  with True have "nat (- sint w) \<le> 2 ^ 63" by (simp add: nat_le_iff)
  with True show ?thesis
    by (simp add: strtoll10_def dec_int_def read_sign_def is_space_def read_digits_dec_nat)
next
  case False
  have "sint w < 2 ^ 63" using sint_lt [of w] by simp
  with False have "nat (sint w) < 2 ^ 63" by (simp add: nat_less_iff)
  with False show ?thesis
    by (simp add: strtoll10_def dec_int_def dec_nat_no_sign dec_nat_no_space read_digits_dec_nat)
qed

lemma strtoul10_dec_nat: "n < 2 ^ 64 \<Longrightarrow> strtoul10 (dec_nat n) = word_of_nat n"
  by (simp add: strtoul10_def strtoull_digits_def dec_nat_no_sign dec_nat_no_space read_digits_dec_nat)

section \<open>Searching strings\<close>

text \<open>\<^verbatim>\<open>hay.find(needle) != npos\<close>.\<close>

fun starts_with :: "string \<Rightarrow> string \<Rightarrow> bool" where
  "starts_with [] _ = True"
| "starts_with (_ # _) [] = False"
| "starts_with (a # p) (c # s) = (a = c \<and> starts_with p s)"

fun contains :: "string \<Rightarrow> string \<Rightarrow> bool" where
  "contains needle [] = (needle = [])"
| "contains needle (c # s) = (starts_with needle (c # s) \<or> contains needle s)"

lemma starts_with_iff: "starts_with p s \<longleftrightarrow> (\<exists>t. s = p @ t)"
  by (induction p s rule: starts_with.induct) auto

lemma contains_iff: "contains p s \<longleftrightarrow> (\<exists>a b. s = a @ p @ b)"
proof (induction s)
  case (Cons c s)
  have "contains p (c # s) \<longleftrightarrow> (\<exists>t. c # s = p @ t) \<or> (\<exists>a b. s = a @ p @ b)"
    by (simp add: starts_with_iff Cons.IH)
  also have "\<dots> \<longleftrightarrow> (\<exists>a b. c # s = a @ p @ b)"
    by (metis append_Cons append_Nil list.inject neq_Nil_conv)
  finally show ?case .
qed simp

text \<open>\<^verbatim>\<open>if (c >= 'A' && c <= 'Z') c += 32\<close>.\<close>

definition lower_char :: "char \<Rightarrow> char" where
  "lower_char c = (if 65 \<le> code c \<and> code c \<le> 90 then char_of (code c + 32) else c)"

text \<open>The prefix of a string up to its first NUL, which is what \<^verbatim>\<open>c_str()\<close> hands to C code.\<close>

definition c_str :: "string \<Rightarrow> string" where
  "c_str s = takeWhile (\<lambda>c. code c \<noteq> 0) s"

lemma c_str_simps [simp]:
  "c_str [] = []" "c_str (c # s) = (if code c = 0 then [] else c # c_str s)"
  by (simp_all add: c_str_def)

lemma c_str_id: "\<forall>c \<in> set s. code c \<noteq> 0 \<Longrightarrow> c_str s = s"
  by (simp add: c_str_def)

end
