(* ===== verification/Interfaces.thy ===== *)
theory Interfaces
  imports Libc
begin

text \<open>
  The interfaces between the components, as locales: what a client of the component calls and the
  laws the component promises. Each is interpreted on the model's own definitions in the theory of
  the component that provides it; the clients' lemmas are proved once, inside the locale.
\<close>

section \<open>A text codec\<close>

text \<open>
  What the frame layer needs of the JSON component: \<open>dec\<close> reads back what \<open>enc\<close> prints, for
  the values \<open>ok\<close> singles out, and printing never gives the empty text (a frame of length 0 is
  refused).
\<close>

locale text_codec =
  fixes enc :: "'v \<Rightarrow> string"
    and dec :: "string \<Rightarrow> 'v option"
    and ok :: "'v \<Rightarrow> bool"
  assumes dec_enc: "ok v \<Longrightarrow> dec (enc v) = Some v"
    and enc_nonempty: "enc v \<noteq> []"

section \<open>A finite map\<close>

text \<open>
  What the JSON object builder and the command table need of \<^verbatim>\<open>std::map\<close>.
\<close>

locale finite_map =
  fixes put :: "'k \<Rightarrow> 'v \<Rightarrow> 'm \<Rightarrow> 'm"
    and get :: "'m \<Rightarrow> 'k \<Rightarrow> 'v option"
    and inv :: "'m \<Rightarrow> bool"
    and empty :: "'m"
  assumes get_put: "inv m \<Longrightarrow> get (put k v m) = (get m)(k \<mapsto> v)"
    and inv_put: "inv m \<Longrightarrow> inv (put k v m)"
    and get_empty: "get empty = Map.empty"
    and inv_empty: "inv empty"
begin

definition put_all :: "('k \<times> 'v) list \<Rightarrow> 'm \<Rightarrow> 'm" where
  "put_all kvs m = fold (\<lambda>(k, v). put k v) kvs m"

lemma inv_put_all: "inv m \<Longrightarrow> inv (put_all kvs m)"
  unfolding put_all_def by (induction kvs arbitrary: m) (auto simp: inv_put)

lemma get_put_all: "inv m \<Longrightarrow> get (put_all kvs m) = get m ++ map_of (rev kvs)"
  unfolding put_all_def
proof (induction kvs arbitrary: m)
  case (Cons kv kvs)
  then show ?case
    by (cases kv) (auto simp: inv_put get_put map_add_def fun_eq_iff split: option.split)
qed simp

end

text \<open>\<^verbatim>\<open>std::map<std::string, V>\<close> as the ordered association list of the prelude.\<close>

interpretation str_map: finite_map smap_put map_of smap_sorted "[]"
  by unfold_locales (auto simp: map_of_smap_put)

section \<open>A path policy\<close>

text \<open>
  What every filesystem handler relies on: a path the policy resolves stays \<open>inside\<close>, also as the
  C string that \<^verbatim>\<open>c_str()\<close> hands to the file system. A handler that touches the file system only
  behind the policy cannot tell two file systems apart that agree inside.
\<close>

locale path_policy =
  fixes resolve :: "string \<Rightarrow> string option"
    and inside :: "string \<Rightarrow> bool"
  assumes resolve_inside: "resolve s = Some d \<Longrightarrow> inside (c_str d)"
begin

lemma guarded_cong:
  assumes "\<And>d. inside d \<Longrightarrow> f d = g d"
  shows "(case resolve s of None \<Rightarrow> e | Some d \<Rightarrow> f (c_str d)) =
         (case resolve s of None \<Rightarrow> e | Some d \<Rightarrow> g (c_str d))"
  using assms resolve_inside by (auto split: option.split)

lemma guarded_inside:
  "(\<And>d. inside d \<Longrightarrow> P (f d)) \<Longrightarrow> P e \<Longrightarrow>
   P (case resolve s of None \<Rightarrow> e | Some d \<Rightarrow> f (c_str d))"
  using resolve_inside by (auto split: option.split)

end

end
