(* ===== verification/Doubles.thy ===== *)
theory Doubles
  imports Libc
begin

text \<open>
  The C++ \<^verbatim>\<open>double\<close> by its 64 bits, as IEEE 754 binary64 lays them out, and the operations the
  JSON codec performs on it: \<^verbatim>\<open>std::isfinite\<close>, \<^verbatim>\<open>strtod\<close> (correctly rounded),
  \<^verbatim>\<open>printf("%.10g")\<close> (exact decimal expansion, ties to even) and the conversions to and from
  \<^verbatim>\<open>int64_t\<close>. Out of range the C++ conversion to an integer is undefined; the agent runs on
  AArch64 only, whose conversion saturates (and sends NaN to 0), and that is what \<open>d2i\<close> does.
\<close>

section \<open>Layout\<close>

type_synonym dbl = u64

definition dbl_neg :: "dbl \<Rightarrow> bool" where
  "dbl_neg d \<longleftrightarrow> 2 ^ 63 \<le> unat d"

definition dbl_exp :: "dbl \<Rightarrow> nat" where
  "dbl_exp d = unat d div 2 ^ 52 mod 2048"

definition dbl_frac :: "dbl \<Rightarrow> nat" where
  "dbl_frac d = unat d mod 2 ^ 52"

definition dbl_finite :: "dbl \<Rightarrow> bool" where
  "dbl_finite d \<longleftrightarrow> dbl_exp d \<noteq> 2047"

text \<open>A finite double is \<open>mant d * 2 ^ (scale d - 1074)\<close>, up to its sign.\<close>

definition dbl_mant :: "dbl \<Rightarrow> nat" where
  "dbl_mant d = (if dbl_exp d = 0 then dbl_frac d else 2 ^ 52 + dbl_frac d)"

definition dbl_scale :: "dbl \<Rightarrow> nat" where
  "dbl_scale d = (if dbl_exp d = 0 then 0 else dbl_exp d - 1)"

text \<open>Its magnitude as a fraction of two natural numbers.\<close>

definition dbl_num :: "dbl \<Rightarrow> nat" where
  "dbl_num d = dbl_mant d * 2 ^ (dbl_scale d - 1074)"

definition dbl_den :: "dbl \<Rightarrow> nat" where
  "dbl_den d = 2 ^ (1074 - dbl_scale d)"

section \<open>Rounding\<close>

text \<open>Division rounded to the nearest integer, ties to even.\<close>

definition round_div :: "nat \<Rightarrow> nat \<Rightarrow> nat" where
  "round_div n d =
     (let q = n div d; r = n mod d
      in if 2 * r > d \<or> (2 * r = d \<and> odd q) then q + 1 else q)"

lemma round_div_exact: "0 < d \<Longrightarrow> round_div (q * d) d = q"
  by (simp add: round_div_def)

fun bit_len :: "nat \<Rightarrow> nat" where
  "bit_len n = (if n = 0 then 0 else Suc (bit_len (n div 2)))"

declare bit_len.simps [simp del]

text \<open>
  The double nearest to \<open>n / d\<close>. With \<open>k\<close> the exponent of its last bit, counted from
  \<open>-1074\<close>, the bits of a finite result are \<open>k * 2 ^ 52\<close> plus the rounded significand, for
  normal and subnormal numbers alike; a carry out of the significand moves to the next exponent
  by itself.
\<close>

definition scale_for :: "nat \<Rightarrow> nat \<Rightarrow> nat" where
  "scale_for n d =
     (let l = int (bit_len n) - int (bit_len d);
          e = (if l \<ge> 0 then (if n \<ge> d * 2 ^ nat l then l else l - 1)
               else (if n * 2 ^ nat (- l) \<ge> d then l else l - 1))
      in nat (e - 52 + 1074))"

definition dbl_of_frac :: "bool \<Rightarrow> nat \<Rightarrow> nat \<Rightarrow> dbl" where
  "dbl_of_frac neg n d =
     (let s = (if neg then 2 ^ 63 else 0)
      in if n = 0 then word_of_nat s
         else let k = scale_for n d;
                  q = round_div (n * 2 ^ (1074 - k)) (d * 2 ^ (k - 1074));
                  bits = k * 2 ^ 52 + q
              in if bits \<ge> 2047 * 2 ^ 52 then word_of_nat (s + 2047 * 2 ^ 52)
                 else word_of_nat (s + bits))"

section \<open>Conversions to and from int64_t\<close>

definition d2i :: "dbl \<Rightarrow> i64" where
  "d2i d =
     (if \<not> dbl_finite d then
        (if dbl_frac d \<noteq> 0 then 0
         else if dbl_neg d then word_of_int (- (2 ^ 63)) else word_of_int (2 ^ 63 - 1))
      else let m = dbl_num d div dbl_den d
           in if dbl_neg d
              then (if m \<ge> 2 ^ 63 then word_of_int (- (2 ^ 63)) else word_of_int (- int m))
              else (if m \<ge> 2 ^ 63 then word_of_int (2 ^ 63 - 1) else word_of_int (int m)))"

definition i2d :: "i64 \<Rightarrow> dbl" where
  "i2d w = dbl_of_frac (sint w < 0) (nat \<bar>sint w\<bar>) 1"

section \<open>strtod\<close>

text \<open>
  The longest prefix of the form \<open>[sign] digits [. digits] [e [sign] digits]\<close> with a digit in the
  significand; 0 where there is none. The text the parser hands over holds digits, signs, dots and
  \<open>e\<close> only, so no hexadecimal, infinity or NaN spelling can occur in it.
\<close>

definition strtod :: "string \<Rightarrow> dbl" where
  "strtod s =
     (let (neg, t) = read_sign (dropWhile is_space s);
          ip = takeWhile is_digit t; t1 = dropWhile is_digit t;
          (fp, t2) = (case t1 of
              c # u \<Rightarrow> if c = CHR ''.'' then (takeWhile is_digit u, dropWhile is_digit u)
                      else ([], t1)
            | [] \<Rightarrow> ([], []));
          m = fst (read_digits 10 0 (ip @ fp));
          e = (case t2 of
              c # u \<Rightarrow> if c = CHR ''e'' \<or> c = CHR ''E''
                      then let (eneg, v) = read_sign u; x = int (fst (read_digits 10 0 v))
                           in if eneg then - x else x
                      else 0
            | [] \<Rightarrow> 0);
          x = e - int (length fp)
      in if ip = [] \<and> fp = [] then 0
         else dbl_of_frac neg (m * 10 ^ nat x) (10 ^ nat (- x)))"

section \<open>printf("%.10g")\<close>

text \<open>
  The decimal exponent of \<open>n / d\<close>: the digits of the integer part, or for a fraction below one the
  number of times it has to be multiplied by ten to reach one.
\<close>

function tens_needed :: "nat \<Rightarrow> nat \<Rightarrow> nat" where
  "tens_needed n d = (if n = 0 \<or> d \<le> n then 0 else Suc (tens_needed (10 * n) d))"
  by pat_completeness auto
termination
  by (relation "measure (\<lambda>(n, d). d - n)") auto

declare tens_needed.simps [simp del]

definition dec_exp :: "nat \<Rightarrow> nat \<Rightarrow> int" where
  "dec_exp n d = (if d \<le> n then int (length (dec_nat (n div d))) - 1 else - int (tens_needed n d))"

text \<open>Ten significant digits and the exponent they belong to.\<close>

definition ten_digits :: "nat \<Rightarrow> nat \<Rightarrow> nat \<times> int" where
  "ten_digits n d =
     (let x = dec_exp n d;
          q = round_div (n * 10 ^ nat (9 - x)) (d * 10 ^ nat (x - 9))
      in if q \<ge> 10 ^ 10 then (q div 10, x + 1) else (q, x))"

definition strip_zeros :: "string \<Rightarrow> string" where
  "strip_zeros s = rev (dropWhile (\<lambda>c. c = CHR ''0'') (rev s))"

definition with_frac :: "string \<Rightarrow> string \<Rightarrow> string" where
  "with_frac ip fp = (let f = strip_zeros fp in if f = [] then ip else ip @ CHR ''.'' # f)"

definition fmt_exp :: "int \<Rightarrow> string" where
  "fmt_exp x = CHR ''e'' # (if x < 0 then CHR ''-'' else CHR ''+'') #
               pad_left 2 (CHR ''0'') (dec_nat (nat \<bar>x\<bar>))"

definition fmt_g10_pos :: "nat \<Rightarrow> nat \<Rightarrow> string" where
  "fmt_g10_pos n d =
     (let (q, x) = ten_digits n d; ds = dec_nat q
      in if x < -4 \<or> x \<ge> 10 then with_frac (take 1 ds) (drop 1 ds) @ fmt_exp x
         else if x < 0 then with_frac ''0'' (replicate (nat (- x) - 1) (CHR ''0'') @ ds)
         else with_frac (take (nat x + 1) ds) (drop (nat x + 1) ds))"

definition fmt_g10 :: "dbl \<Rightarrow> string" where
  "fmt_g10 d =
     (let sg = (if dbl_neg d then ''-'' else '''')
      in if dbl_num d = 0 then sg @ ''0'' else sg @ fmt_g10_pos (dbl_num d) (dbl_den d))"

section \<open>What the renderer can produce\<close>

text \<open>The characters of the number scanner: digits, signs, dot and exponent mark.\<close>

definition num_char :: "char \<Rightarrow> bool" where
  "num_char c \<longleftrightarrow> is_digit c \<or> c = CHR ''.'' \<or> c = CHR ''e'' \<or> c = CHR ''E'' \<or> c = CHR ''+'' \<or>
                  c = CHR ''-''"

lemma num_char_digit [simp]: "is_digit c \<Longrightarrow> num_char c"
  by (simp add: num_char_def)

lemma num_char_consts [simp]:
  "num_char (CHR ''0'')" "num_char (CHR ''-'')" "num_char (CHR ''+'')" "num_char (CHR ''.'')"
  "num_char (CHR ''e'')"
  by (simp_all add: num_char_def is_digit_def)

lemma dec_nat_num [simp]: "c \<in> set (dec_nat n) \<Longrightarrow> num_char c"
  using dec_nat_digits by simp

definition all_num :: "string \<Rightarrow> bool" where
  "all_num s \<longleftrightarrow> (\<forall>c \<in> set s. num_char c)"

lemma all_num_append [simp]: "all_num (s @ t) \<longleftrightarrow> all_num s \<and> all_num t"
  by (auto simp: all_num_def)

lemma all_num_Cons [simp]: "all_num (c # t) \<longleftrightarrow> num_char c \<and> all_num t"
  by (auto simp: all_num_def)

lemma all_num_basic [simp]: "all_num []" "all_num (dec_nat n)" "num_char c \<Longrightarrow> all_num (replicate k c)"
  by (auto simp: all_num_def)

lemma all_num_take_drop [simp]: "all_num s \<Longrightarrow> all_num (take k s)" "all_num s \<Longrightarrow> all_num (drop k s)"
  by (auto simp: all_num_def dest: in_set_takeD in_set_dropD)

lemma all_num_with_frac [simp]: "all_num ip \<Longrightarrow> all_num fp \<Longrightarrow> all_num (with_frac ip fp)"
proof -
  assume ip: "all_num ip" and "all_num fp"
  then have "all_num (strip_zeros fp)"
    using set_dropWhileD by (fastforce simp: all_num_def strip_zeros_def)
  with ip show ?thesis by (simp add: with_frac_def Let_def)
qed

lemma with_frac_nonempty: "ip \<noteq> [] \<Longrightarrow> with_frac ip fp \<noteq> []"
  by (simp add: with_frac_def Let_def)

lemma all_num_fmt_exp [simp]: "all_num (fmt_exp x)"
  by (simp add: fmt_exp_def pad_left_def)

lemma all_num_fmt_g10_pos [simp]: "all_num (fmt_g10_pos n m)"
proof (cases "ten_digits n m")
  case (Pair q x)
  then show ?thesis by (simp add: fmt_g10_pos_def Let_def)
qed

lemma fmt_g10_num: "all_num (fmt_g10 d)"
  by (simp add: fmt_g10_def)

lemma fmt_g10_nonempty: "fmt_g10 d \<noteq> []"
  by (auto simp: fmt_g10_def fmt_g10_pos_def Let_def with_frac_nonempty split: prod.splits if_splits)

end
