(* ===== verification/Json.thy ===== *)
theory Json
  imports Interfaces Doubles
begin

text \<open>
  The JSON component (\<^verbatim>\<open>json.hpp\<close>, \<^verbatim>\<open>json.cpp\<close>): the tagged value, its accessors that never fail,
  the object and array builders, the printer and the recursive-descent parser that every inbound
  frame passes through before authentication.
\<close>

section \<open>Values\<close>

text \<open>
  \<^verbatim>\<open>json::Value\<close>: the C++ class keeps one field per case next to a tag; only the field the tag
  names is ever read, so the value is the tagged union. Objects are \<^verbatim>\<open>std::map\<close>s, kept ordered.
\<close>

datatype json =
    JNull
  | JBool bool
  | JInt i64
  | JDouble dbl
  | JStr string
  | JArr "json list"
  | JObj "(string \<times> json) list"

definition is_object :: "json \<Rightarrow> bool" where
  "is_object v = (case v of JObj _ \<Rightarrow> True | _ \<Rightarrow> False)"

definition is_array :: "json \<Rightarrow> bool" where
  "is_array v = (case v of JArr _ \<Rightarrow> True | _ \<Rightarrow> False)"

definition is_string :: "json \<Rightarrow> bool" where
  "is_string v = (case v of JStr _ \<Rightarrow> True | _ \<Rightarrow> False)"

definition is_number :: "json \<Rightarrow> bool" where
  "is_number v = (case v of JInt _ \<Rightarrow> True | JDouble _ \<Rightarrow> True | _ \<Rightarrow> False)"

text \<open>Typed accessors with defaults.\<close>

definition as_bool :: "bool \<Rightarrow> json \<Rightarrow> bool" where
  "as_bool d v = (case v of JBool b \<Rightarrow> b | _ \<Rightarrow> d)"

definition as_int :: "i64 \<Rightarrow> json \<Rightarrow> i64" where
  "as_int d v = (case v of JInt i \<Rightarrow> i | JDouble x \<Rightarrow> d2i x | _ \<Rightarrow> d)"

definition as_double :: "dbl \<Rightarrow> json \<Rightarrow> dbl" where
  "as_double d v = (case v of JDouble x \<Rightarrow> x | JInt i \<Rightarrow> i2d i | _ \<Rightarrow> d)"

definition as_string :: "string \<Rightarrow> json \<Rightarrow> string" where
  "as_string d v = (case v of JStr s \<Rightarrow> s | _ \<Rightarrow> d)"

definition as_array :: "json \<Rightarrow> json list" where
  "as_array v = (case v of JArr a \<Rightarrow> a | _ \<Rightarrow> [])"

definition as_object :: "json \<Rightarrow> json smap" where
  "as_object v = (case v of JObj m \<Rightarrow> m | _ \<Rightarrow> [])"

text \<open>\<^verbatim>\<open>operator[]\<close>: the null value where the key is absent or the value is no object.\<close>

definition idx :: "json \<Rightarrow> string \<Rightarrow> json" where
  "idx v k = (case v of
       JObj m \<Rightarrow> (case map_of m k of None \<Rightarrow> JNull | Some x \<Rightarrow> x)
     | _ \<Rightarrow> JNull)"

definition has :: "json \<Rightarrow> string \<Rightarrow> bool" where
  "has v k = (case v of JObj m \<Rightarrow> map_of m k \<noteq> None | _ \<Rightarrow> False)"

text \<open>The builders: a value of another type becomes an empty object or array first.\<close>

definition set_field :: "string \<Rightarrow> json \<Rightarrow> json \<Rightarrow> json" where
  "set_field k x v = JObj (smap_put k x (as_object v))"

definition push :: "json \<Rightarrow> json \<Rightarrow> json" where
  "push x v = JArr (as_array v @ [x])"

abbreviation empty_object :: json where "empty_object \<equiv> JObj []"

abbreviation empty_array :: json where "empty_array \<equiv> JArr []"

text \<open>Well-formed values: every object has strictly increasing keys, at every depth.\<close>

fun json_wf :: "json \<Rightarrow> bool" where
  "json_wf (JArr vs) = (\<forall>v \<in> set vs. json_wf v)"
| "json_wf (JObj m) = (smap_sorted m \<and> (\<forall>kv \<in> set m. json_wf (snd kv)))"
| "json_wf _ = True"

section \<open>Printing\<close>

definition esc_char :: "char \<Rightarrow> string" where
  "esc_char c =
     (if c = CHR 0x22 then [CHR 0x5C, CHR 0x22]
      else if c = CHR 0x5C then [CHR 0x5C, CHR 0x5C]
      else if c = CHR 0x0A then [CHR 0x5C, CHR ''n'']
      else if c = CHR 0x0D then [CHR 0x5C, CHR ''r'']
      else if c = CHR 0x09 then [CHR 0x5C, CHR ''t'']
      else if c = CHR 0x08 then [CHR 0x5C, CHR ''b'']
      else if c = CHR 0x0C then [CHR 0x5C, CHR ''f'']
      else if code c < 0x20 then CHR 0x5C # CHR ''u'' # fmt_04x (code c)
      else [c])"

definition write_string :: "string \<Rightarrow> string" where
  "write_string s = CHR 0x22 # concat (map esc_char s) @ [CHR 0x22]"

text \<open>The elements of an array or object, separated by commas.\<close>

fun commas :: "string list \<Rightarrow> string" where
  "commas [] = []"
| "commas [s] = s"
| "commas (s # t # ss) = s @ CHR '','' # commas (t # ss)"

fun write_value :: "json \<Rightarrow> string" where
  "write_value JNull = ''null''"
| "write_value (JBool b) = (if b then ''true'' else ''false'')"
| "write_value (JInt i) = dec_int (sint i)"
| "write_value (JDouble d) = (if dbl_finite d then fmt_g10 d else ''null'')"
| "write_value (JStr s) = write_string s"
| "write_value (JArr vs) = CHR ''['' # commas (map write_value vs) @ '']''"
| "write_value (JObj m) =
     CHR ''{'' # commas (map (\<lambda>(k, v). write_string k @ CHR '':'' # write_value v) m) @ ''}''"

definition dump :: "json \<Rightarrow> string" where
  "dump v = write_value v"

section \<open>Parsing\<close>

text \<open>
  The parser's state is the text from \<^verbatim>\<open>p\<close> to \<^verbatim>\<open>end\<close>; a step that fails returns \<open>None\<close>.
\<close>

definition is_ws :: "char \<Rightarrow> bool" where
  "is_ws c \<longleftrightarrow> c = CHR '' '' \<or> c = CHR 0x09 \<or> c = CHR 0x0A \<or> c = CHR 0x0D"

definition skip_ws :: "string \<Rightarrow> string" where
  "skip_ws s = dropWhile is_ws s"

text \<open>The four digits of a \<^verbatim>\<open>\u\<close> escape, shifted into an \<^verbatim>\<open>unsigned\<close>.\<close>

fun hex_shift :: "u32 \<Rightarrow> string \<Rightarrow> u32 option" where
  "hex_shift cp [] = Some cp"
| "hex_shift cp (h # s) =
     (case digit_val h of
        None \<Rightarrow> None
      | Some d \<Rightarrow> hex_shift (push_bit 4 cp OR word_of_nat d) s)"

definition low_char :: "u32 \<Rightarrow> char" where
  "low_char w = char_of (unat w)"

definition utf8 :: "u32 \<Rightarrow> string" where
  "utf8 cp =
     (if cp < 0x80 then [low_char cp]
      else if cp < 0x800 then
        [low_char (0xC0 OR drop_bit 6 cp), low_char (0x80 OR (cp AND 0x3F))]
      else
        [low_char (0xE0 OR drop_bit 12 cp), low_char (0x80 OR (drop_bit 6 cp AND 0x3F)),
         low_char (0x80 OR (cp AND 0x3F))])"

definition simple_escape :: "char \<Rightarrow> char option" where
  "simple_escape e =
     (if e = CHR 0x22 then Some (CHR 0x22)
      else if e = CHR 0x5C then Some (CHR 0x5C)
      else if e = CHR ''/'' then Some (CHR ''/'')
      else if e = CHR ''n'' then Some (CHR 0x0A)
      else if e = CHR ''r'' then Some (CHR 0x0D)
      else if e = CHR ''t'' then Some (CHR 0x09)
      else if e = CHR ''b'' then Some (CHR 0x08)
      else if e = CHR ''f'' then Some (CHR 0x0C)
      else None)"

text \<open>The loop of \<^verbatim>\<open>parse_string\<close> after the opening quote; \<open>out\<close> is what it has collected.\<close>

function parse_chars :: "string \<Rightarrow> string \<Rightarrow> (string \<times> string) option" where
  "parse_chars out [] = None"
| "parse_chars out (c # s) =
     (if c = CHR 0x22 then Some (out, s)
      else if c = CHR 0x5C then
        (case s of
           [] \<Rightarrow> None
         | e # t \<Rightarrow>
             (case simple_escape e of
                Some x \<Rightarrow> parse_chars (out @ [x]) t
              | None \<Rightarrow>
                  if e = CHR ''u'' then
                    (if length t < 4 then None
                     else (case hex_shift 0 (take 4 t) of
                             None \<Rightarrow> None
                           | Some cp \<Rightarrow> parse_chars (out @ utf8 cp) (drop 4 t)))
                  else None))
      else parse_chars (out @ [c]) s)"
  by pat_completeness auto
termination
  by (relation "measure (\<lambda>(out, s). length s)") auto

definition parse_string :: "string \<Rightarrow> (string \<times> string) option" where
  "parse_string s = (case s of
       [] \<Rightarrow> None
     | c # t \<Rightarrow> if c = CHR 0x22 then parse_chars [] t else None)"

text \<open>The scanner of \<^verbatim>\<open>parse_number\<close>: its loop takes every digit, sign, dot and exponent mark.\<close>

definition num_sign :: "string \<Rightarrow> string" where
  "num_sign s = (case s of
       c # t \<Rightarrow> if c = CHR ''-'' \<or> c = CHR ''+'' then [c] else []
     | [] \<Rightarrow> [])"

definition parse_number :: "string \<Rightarrow> (json \<times> string) option" where
  "parse_number s =
     (let sg = num_sign s;
          body = takeWhile num_char (drop (length sg) s);
          rest = dropWhile num_char (drop (length sg) s);
          is_double = (\<exists>c \<in> set body. \<not> is_digit c);
          num = sg @ body
      in if num = [] then None
         else Some (if is_double then JDouble (strtod num) else JInt (strtoll10 num), rest))"

text \<open>
  The cases of the \<^verbatim>\<open>switch\<close> in \<^verbatim>\<open>parse_value\<close> that do not recurse: strings, the three
  literals (\<^verbatim>\<open>end - p >= 4 && memcmp(p, "true", 4) == 0\<close>) and, by default, numbers.
\<close>

definition parse_scalar :: "string \<Rightarrow> (json \<times> string) option" where
  "parse_scalar s =
     (if starts_with [CHR 0x22] s then
        (case parse_string s of None \<Rightarrow> None | Some (x, u) \<Rightarrow> Some (JStr x, u))
      else if starts_with ''t'' s then
        (if starts_with ''true'' s then Some (JBool True, drop 4 s) else None)
      else if starts_with ''f'' s then
        (if starts_with ''false'' s then Some (JBool False, drop 5 s) else None)
      else if starts_with ''n'' s then
        (if starts_with ''null'' s then Some (JNull, drop 4 s) else None)
      else parse_number s)"

text \<open>\<^verbatim>\<open>p < end && *p == c\<close>.\<close>

definition at_char :: "char \<Rightarrow> string \<Rightarrow> bool" where
  "at_char c s = (case s of [] \<Rightarrow> False | d # _ \<Rightarrow> d = c)"

text \<open>
  \<open>parse_elems\<close> and \<open>parse_members\<close> are the \<^verbatim>\<open>while (true)\<close> loops of \<^verbatim>\<open>parse_array\<close> and
  \<^verbatim>\<open>parse_object\<close>; \<open>out\<close> is the value they have built so far.
\<close>

function parse_value :: "string \<Rightarrow> (json \<times> string) option"
  and parse_elems :: "json \<Rightarrow> string \<Rightarrow> (json \<times> string) option"
  and parse_members :: "json \<Rightarrow> string \<Rightarrow> (json \<times> string) option"
where
  "parse_value s =
     (case skip_ws s of
        [] \<Rightarrow> None
      | c # t \<Rightarrow>
          if c = CHR ''{'' then
            (if at_char (CHR ''}'') (skip_ws t) then Some (empty_object, tl (skip_ws t))
             else parse_members empty_object (skip_ws t))
          else if c = CHR ''['' then
            (if at_char (CHR '']'') (skip_ws t) then Some (empty_array, tl (skip_ws t))
             else parse_elems empty_array (skip_ws t))
          else parse_scalar (c # t))"
| "parse_elems out s =
     (case parse_value s of
        None \<Rightarrow> None
      | Some (v, t) \<Rightarrow>
          (case skip_ws t of
             [] \<Rightarrow> None
           | c # u \<Rightarrow>
               if c = CHR '','' then parse_elems (push v out) u
               else if c = CHR '']'' then Some (push v out, u)
               else None))"
| "parse_members out s =
     (case parse_string (skip_ws s) of
        None \<Rightarrow> None
      | Some (key, t) \<Rightarrow>
          (case skip_ws t of
             [] \<Rightarrow> None
           | c # u \<Rightarrow>
               if c \<noteq> CHR '':'' then None
               else
                 (case parse_value u of
                    None \<Rightarrow> None
                  | Some (v, t2) \<Rightarrow>
                      (case skip_ws t2 of
                         [] \<Rightarrow> None
                       | d # u2 \<Rightarrow>
                           if d = CHR '','' then parse_members (set_field key v out) u2
                           else if d = CHR ''}'' then Some (set_field key v out, u2)
                           else None))))"
  by pat_completeness auto

text \<open>Progress of the pieces, needed for the termination of the whole.\<close>

lemma skip_ws_le: "length (skip_ws s) \<le> length s"
  by (simp add: skip_ws_def length_dropWhile_le)

lemma parse_chars_shorter: "parse_chars out s = Some (x, t) \<Longrightarrow> length t < length s"
proof (induction out s arbitrary: x t rule: parse_chars.induct)
  case (2 out c s)
  then show ?case by (force split: if_splits list.splits option.splits)
qed simp

lemma parse_string_shorter: "parse_string s = Some (x, t) \<Longrightarrow> length t < length s"
  by (auto simp: parse_string_def dest: parse_chars_shorter split: list.splits if_splits)

lemma parse_number_shorter: "parse_number s = Some (v, t) \<Longrightarrow> length t < length s"
proof -
  assume a: "parse_number s = Some (v, t)"
  let ?sg = "num_sign s"
  have sg: "length ?sg \<le> length s"
    by (simp add: num_sign_def split: list.split)
  have split: "drop (length ?sg) s = takeWhile num_char (drop (length ?sg) s) @ t"
    using a by (auto simp: parse_number_def Let_def split: if_splits)
  have "?sg \<noteq> [] \<or> takeWhile num_char (drop (length ?sg) s) \<noteq> []"
    using a by (auto simp: parse_number_def Let_def split: if_splits)
  then have "0 < length ?sg + length (takeWhile num_char (drop (length ?sg) s))" by auto
  moreover have "length s - length ?sg = length (takeWhile num_char (drop (length ?sg) s)) + length t"
    using arg_cong [OF split, of length] by simp
  ultimately show ?thesis using sg by linarith
qed

lemma starts_with_drop: "starts_with p s \<Longrightarrow> p \<noteq> [] \<Longrightarrow> length (drop (length p) s) < length s"
  by (auto simp: starts_with_iff)

lemma parse_scalar_shorter: "parse_scalar s = Some (v, t) \<Longrightarrow> length t < length s"
  using starts_with_drop [of "''true''" s] starts_with_drop [of "''false''" s]
    starts_with_drop [of "''null''" s]
  by (auto simp: parse_scalar_def dest: parse_string_shorter parse_number_shorter
      split: if_splits option.splits)

lemma skip_ws_Cons: "skip_ws s = c # t \<Longrightarrow> length t < length s"
  using skip_ws_le [of s] by simp

lemma at_char_tl: "at_char c s \<Longrightarrow> length (tl s) < length s"
  by (auto simp: at_char_def split: list.splits)

lemma parse_shorter_dom:
  "parse_value_parse_elems_parse_members_dom (Inl s) \<Longrightarrow>
     (\<forall>v t. parse_value s = Some (v, t) \<longrightarrow> length t < length s)"
  "parse_value_parse_elems_parse_members_dom (Inr (Inl (out, s))) \<Longrightarrow>
     (\<forall>v t. parse_elems out s = Some (v, t) \<longrightarrow> length t < length s)"
  "parse_value_parse_elems_parse_members_dom (Inr (Inr (out, s))) \<Longrightarrow>
     (\<forall>v t. parse_members out s = Some (v, t) \<longrightarrow> length t < length s)"
proof (induction rule: parse_value_parse_elems_parse_members.pinduct)
  case (1 s)
  show ?case
  proof (cases "skip_ws s")
    case Nil
    then show ?thesis using 1 by (simp add: parse_value.psimps)
  next
    case (Cons c t)
    note lt = skip_ws_Cons [OF Cons] skip_ws_le [of t] skip_ws_le [of s]
    note unf = parse_value.psimps [OF "1.hyps"]
    from 1 Cons lt show ?thesis
      by (fastforce simp: unf dest!: parse_scalar_shorter split: if_splits dest: at_char_tl)
  qed
next
  case (2 out s)
  show ?case
  proof (cases "parse_value s")
    case None
    then show ?thesis using 2 by (simp add: parse_elems.psimps)
  next
    case (Some vt)
    then obtain v t where vt: "parse_value s = Some (v, t)" by (cases vt) auto
    with 2 have "length t < length s" by blast
    then show ?thesis
      using 2 vt skip_ws_Cons [of t]
      by (fastforce simp: parse_elems.psimps split: list.splits if_splits)
  qed
next
  case (3 out s)
  show ?case
  proof (cases "parse_string (skip_ws s)")
    case None
    then show ?thesis using 3 by (simp add: parse_members.psimps)
  next
    case (Some kt)
    then obtain k t where kt: "parse_string (skip_ws s) = Some (k, t)" by (cases kt) auto
    then have lt: "length t < length s" using parse_string_shorter skip_ws_le [of s] by fastforce
    show ?thesis
    proof (cases "skip_ws t")
      case Nil
      then show ?thesis using 3 kt by (simp add: parse_members.psimps)
    next
      case (Cons c u)
      note lu = skip_ws_Cons [OF Cons]
      show ?thesis
      proof (cases "parse_value u")
        case None
        then show ?thesis using 3 kt Cons by (simp add: parse_members.psimps)
      next
        case (Some vt)
        then obtain v t2 where vt: "parse_value u = Some (v, t2)" by (cases vt) auto
        show ?thesis
          using 3 vt kt Cons lt lu skip_ws_Cons [of t2]
          by (fastforce simp: parse_members.psimps split: list.splits if_splits)
      qed
    qed
  qed
qed

lemma skip_ws_skip: "skip_ws s = c # t \<Longrightarrow> length (skip_ws t) < length s"
  using skip_ws_Cons [of s c t] skip_ws_le [of t] by simp

lemma parse_string_skip:
  "parse_string (skip_ws s) = Some (k, t) \<Longrightarrow> skip_ws t = c # u \<Longrightarrow> length u + 2 \<le> length s"
  using parse_string_shorter [of "skip_ws s" k t] skip_ws_le [of s] skip_ws_Cons [of t c u] by simp

lemma parse_terminates: "All parse_value_parse_elems_parse_members_dom"
proof (relation "measure (\<lambda>x. case x of
       Inl s \<Rightarrow> 2 * length s
     | Inr (Inl (_, s)) \<Rightarrow> 2 * length s + 1
     | Inr (Inr (_, s)) \<Rightarrow> 2 * length s + 1)", goal_cases)
  case (5 out s vt v t c u)
  then show ?case using parse_shorter_dom(1) [of s] skip_ws_Cons [of t c u] by fastforce
next
  case (7 out s kt k t c u vt v t2 d u2)
  then show ?case
    using parse_shorter_dom(1) [of u] skip_ws_Cons [of t2 d u2] parse_string_skip [of s k t c u]
    by fastforce
qed (auto dest: skip_ws_skip parse_string_skip)

termination parse_value
  by (rule parse_terminates)

declare parse_value.simps [simp del] parse_elems.simps [simp del] parse_members.simps [simp del]

text \<open>\<^verbatim>\<open>Value::parse\<close>: what follows the value is tolerated.\<close>

definition json_parse :: "string \<Rightarrow> json option" where
  "json_parse text = (case parse_value text of None \<Rightarrow> None | Some (v, _) \<Rightarrow> Some v)"

lemma parse_shorter: "parse_value s = Some (v, t) \<Longrightarrow> length t < length s"
  using parse_shorter_dom(1) [OF parse_terminates [THEN spec], of s] by blast

section \<open>Accessors and builders\<close>

lemma is_object_simps [simp]:
  "is_object (JObj m)" "\<not> is_object JNull" "\<not> is_object (JBool b)" "\<not> is_object (JInt i)"
  "\<not> is_object (JDouble d)" "\<not> is_object (JStr s)" "\<not> is_object (JArr vs)"
  by (simp_all add: is_object_def)

lemma as_simps [simp]:
  "as_bool d (JBool b) = b" "as_bool d JNull = d" "as_bool d (JInt i) = d" "as_bool d (JStr s) = d"
  "as_int e (JInt i) = i" "as_int e JNull = e" "as_int e (JBool b) = e" "as_int e (JStr s) = e"
  "as_int e (JArr vs) = e" "as_int e (JObj m) = e"
  "as_string f (JStr s) = s" "as_string f JNull = f" "as_string f (JInt i) = f"
  "as_array (JArr vs) = vs" "as_array JNull = []"
  "as_object (JObj m) = m" "as_object JNull = []"
  by (simp_all add: as_bool_def as_int_def as_string_def as_array_def as_object_def)

lemma as_int_neq: "(\<nexists>i. v = JInt i) \<Longrightarrow> (\<nexists>x. v = JDouble x) \<Longrightarrow> as_int d v = d"
  by (cases v) (simp_all add: as_int_def)

lemma is_object_set_field [simp]: "is_object (set_field k x v)"
  by (simp add: set_field_def)

lemma json_wf_as_object [simp]: "json_wf v \<Longrightarrow> smap_sorted (as_object v)"
  by (cases v) (simp_all add: as_object_def)

lemma json_wf_set_field [intro]: "json_wf v \<Longrightarrow> json_wf x \<Longrightarrow> json_wf (set_field k x v)"
  using smap_put_set [of k x "as_object v"]
  by (cases v) (fastforce simp: set_field_def as_object_def)+

lemma json_wf_push [intro]: "json_wf v \<Longrightarrow> json_wf x \<Longrightarrow> json_wf (push x v)"
  by (cases v) (auto simp: push_def as_array_def)

lemma map_of_as_object: "is_object v \<Longrightarrow> idx v k = (case map_of (as_object v) k of None \<Rightarrow> JNull | Some x \<Rightarrow> x)"
  by (cases v) (simp_all add: idx_def as_object_def)

text \<open>
  A field reads back what was last stored in it and leaves the others alone; this holds for any
  list of bindings, so the lemmas need no well-formedness of the value.
\<close>

lemma map_of_smap_put_any:
  "map_of (smap_put k x m) k' = (if k = k' then Some x else map_of m k')"
  by (induction k x m rule: smap_put.induct) auto

lemma idx_set_field [simp]:
  "idx (set_field k x v) k' = (if k = k' then x else if is_object v then idx v k' else JNull)"
  by (cases v) (simp_all add: idx_def set_field_def as_object_def map_of_smap_put_any)

lemma has_set_field [simp]:
  "has (set_field k x v) k' \<longleftrightarrow> k = k' \<or> has v k'"
  by (cases v) (simp_all add: has_def set_field_def as_object_def map_of_smap_put_any)

lemma idx_absent: "\<not> has v k \<Longrightarrow> idx v k = JNull"
  by (cases v) (auto simp: has_def idx_def)

lemma idx_empty [simp]: "idx empty_object k = JNull" "\<not> has empty_object k"
  by (simp_all add: idx_def has_def)

section \<open>Strings survive escaping\<close>

lemma char_of_48: "char_of (48::nat) = CHR ''0''"
proof -
  have "code (char_of (48::nat)) = code (CHR ''0'')" by simp
  then show ?thesis by (simp only: of_char_eq_iff)
qed

lemma small_hex:
  "\<forall>n \<in> set [0..<32]. fmt_04x n = [CHR ''0'', CHR ''0'', hex_char (n div 16), hex_char (n mod 16)]"
  by (simp add: fmt_04x_def pad_left_def hex_nat.simps hex_char_def upt_rec)
    (simp add: char_of_48 numeral_3_eq_3 numeral_2_eq_2)

lemma small_shift:
  "\<forall>n \<in> set [0..<32]. push_bit 4 (word_of_nat (n div 16)) OR word_of_nat (n mod 16) = (word_of_nat n :: u32)"
  by (simp add: upt_rec)

lemma parse_chars_ctrl:
  assumes "code c < 32"
  shows "parse_chars out (CHR 0x5C # CHR ''u'' # fmt_04x (code c) @ s) = parse_chars (out @ [c]) s"
proof -
  let ?n = "code c"
  have n: "?n \<in> set [0..<32]" using assms by simp
  have hex: "fmt_04x ?n = [CHR ''0'', CHR ''0'', hex_char (?n div 16), hex_char (?n mod 16)]"
    using small_hex n by blast
  have dv: "digit_val (CHR ''0'') = Some 0" by (simp add: digit_val_def)
  have shift: "hex_shift 0 (fmt_04x ?n) = Some (word_of_nat ?n)"
    using small_shift n assms unfolding hex by (simp add: dv)
  have "unat (word_of_nat ?n :: u32) = ?n"
    using assms by (simp add: unat_of_nat take_bit_eq_mod)
  then have utf: "utf8 (word_of_nat ?n) = [c]"
    using assms by (simp add: utf8_def low_char_def word_less_nat_alt)
  have "simple_escape (CHR ''u'') = None" by (simp add: simple_escape_def)
  with shift utf show ?thesis by (simp add: hex)
qed

lemma parse_chars_esc: "parse_chars out (esc_char c @ s) = parse_chars (out @ [c]) s"
proof -
  let ?special = "{CHR 0x22, CHR 0x5C, CHR 0x0A, CHR 0x0D, CHR 0x09, CHR 0x08, CHR 0x0C}"
  consider "c \<in> ?special" | "c \<notin> ?special" "code c < 32" | "c \<notin> ?special" "\<not> code c < 32"
    by blast
  then show ?thesis
  proof cases
    case 1
    then show ?thesis by (auto simp: esc_char_def simple_escape_def)
  next
    case 2
    then have "esc_char c = CHR 0x5C # CHR ''u'' # fmt_04x (code c)" by (simp add: esc_char_def)
    with parse_chars_ctrl [OF 2(2)] show ?thesis by simp
  next
    case 3
    then have "esc_char c = [c]" by (simp add: esc_char_def)
    with 3 show ?thesis by simp
  qed
qed

lemma parse_chars_escaped:
  "parse_chars out (concat (map esc_char s) @ CHR 0x22 # rest) = Some (out @ s, rest)"
  by (induction s arbitrary: out) (simp_all add: parse_chars_esc)

lemma parse_string_write: "parse_string (write_string s @ rest) = Some (s, rest)"
  by (simp add: parse_string_def write_string_def parse_chars_escaped)

section \<open>Numbers survive printing\<close>

definition stops :: "string \<Rightarrow> bool" where
  "stops rest \<longleftrightarrow> rest = [] \<or> \<not> num_char (hd rest)"

text \<open>The value \<^verbatim>\<open>parse_number\<close> gives to a text that is all number.\<close>

definition num_value :: "string \<Rightarrow> json" where
  "num_value s =
     (if \<exists>c \<in> set (drop (length (num_sign s)) s). \<not> is_digit c
      then JDouble (strtod s) else JInt (strtoll10 s))"

lemma num_sign_append: "s \<noteq> [] \<Longrightarrow> num_sign (s @ t) = num_sign s"
  by (cases s) (simp_all add: num_sign_def)

lemma num_sign_drop: "num_sign s @ drop (length (num_sign s)) s = s"
  by (simp add: num_sign_def split: list.split)

lemma parse_number_all_num:
  assumes "all_num s" "s \<noteq> []" "stops rest"
  shows "parse_number (s @ rest) = Some (num_value s, rest)"
proof -
  let ?b = "drop (length (num_sign s)) s"
  have b: "all_num ?b" using assms(1) by simp
  have "length (num_sign s) \<le> length s" using assms(2) by (cases s) (simp_all add: num_sign_def)
  then have d: "drop (length (num_sign (s @ rest))) (s @ rest) = ?b @ rest"
    using assms(2) by (simp add: num_sign_append)
  have tw: "takeWhile num_char (?b @ rest) = ?b" "dropWhile num_char (?b @ rest) = rest"
    using b assms(3) unfolding all_num_def stops_def
    by (blast intro: takeWhile_append_stop dropWhile_append_stop)+
  show ?thesis
    using assms(2) unfolding parse_number_def Let_def d tw num_value_def
    by (simp add: num_sign_append num_sign_drop)
qed

lemma dec_int_num: "all_num (dec_int i)" "dec_int i \<noteq> []"
  by (simp_all add: dec_int_def)

lemma num_value_dec_int: "num_value (dec_int (sint w)) = JInt w"
proof -
  have "drop (length (num_sign (dec_nat n))) (dec_nat n) = dec_nat n" for n
  proof (cases "dec_nat n")
    case (Cons c t)
    then have "is_digit c" using dec_nat_digits [of c n] by simp
    then have "c \<noteq> CHR ''-''" "c \<noteq> CHR ''+''" by (auto simp: is_digit_def)
    with Cons show ?thesis by (simp add: num_sign_def)
  qed simp
  then have "\<forall>c \<in> set (drop (length (num_sign (dec_int (sint w)))) (dec_int (sint w))). is_digit c"
    by (auto simp: dec_int_def num_sign_def [of "_ # _"] dest: dec_nat_digits)
  then show ?thesis by (simp add: num_value_def strtoll10_dec_int)
qed

end
