(* ===== verification/JsonCodec.thy ===== *)
theory JsonCodec
  imports Json
begin

text \<open>
  The JSON component as a codec: printing and parsing again gives the value back, for every value,
  up to what \<^verbatim>\<open>%.10g\<close> does to a double; the printed text holds no control character; parsing
  yields well-formed values only. The codec interface of the frame layer is interpreted here.
\<close>

section \<open>Reading back what was printed\<close>

text \<open>
  The value that comes back: a double returns as the number its ten digits spell (an integer when
  they have neither a dot nor an exponent), and as null when it is not finite.
\<close>

fun reread :: "json \<Rightarrow> json" where
  "reread (JDouble d) = (if dbl_finite d then num_value (fmt_g10 d) else JNull)"
| "reread (JArr vs) = JArr (map reread vs)"
| "reread (JObj m) = JObj (map (\<lambda>(k, v). (k, reread v)) m)"
| "reread v = v"

fun no_double :: "json \<Rightarrow> bool" where
  "no_double (JDouble d) = False"
| "no_double (JArr vs) = (\<forall>v \<in> set vs. no_double v)"
| "no_double (JObj m) = (\<forall>kv \<in> set m. no_double (snd kv))"
| "no_double _ = True"

lemma reread_no_double: "no_double v \<Longrightarrow> reread v = v"
proof (induction v rule: reread.induct)
  case (2 vs)
  then show ?case by (simp add: map_idI)
next
  case (3 m)
  have "\<forall>kv \<in> set m. (\<lambda>(k, v). (k, reread v)) kv = kv"
    using 3 by (fastforce split: prod.splits)
  then show ?case by (simp add: map_idI)
qed simp_all

text \<open>The first character of a printed value decides the branch the parser takes.\<close>

definition opener :: "char \<Rightarrow> bool" where
  "opener c \<longleftrightarrow> c = CHR ''{'' \<or> c = CHR ''[''"

lemma num_char_plain:
  assumes "num_char c"
  shows "\<not> is_ws c" "c \<noteq> CHR ''{''" "c \<noteq> CHR ''[''" "c \<noteq> CHR 0x22" "c \<noteq> CHR ''t''"
    "c \<noteq> CHR ''f''" "c \<noteq> CHR ''n''"
  using assms by (auto simp: num_char_def is_ws_def is_digit_def)

lemma parse_value_number:
  assumes "all_num s" "s \<noteq> []" "stops rest"
  shows "parse_value (s @ rest) = Some (num_value s, rest)"
proof -
  obtain c t where s: "s = c # t" using assms(2) by (cases s) auto
  then have c: "num_char c" using assms(1) by simp
  note plain = num_char_plain [OF c]
  have "parse_scalar (s @ rest) = parse_number (s @ rest)"
    unfolding s using plain by (auto simp: parse_scalar_def)
  moreover have "skip_ws (s @ rest) = s @ rest"
    unfolding s using plain by (simp add: skip_ws_def)
  ultimately show ?thesis
    using plain parse_number_all_num [OF assms] unfolding s
    by (simp add: parse_value.simps)
qed

lemma parse_value_literal:
  "parse_value (''null'' @ rest) = Some (JNull, rest)"
  "parse_value (''true'' @ rest) = Some (JBool True, rest)"
  "parse_value (''false'' @ rest) = Some (JBool False, rest)"
  by (simp_all add: parse_value.simps parse_scalar_def skip_ws_def is_ws_def)

lemmas parse_value_literals = parse_value_literal parse_value_literal [simplified]

lemma skip_ws_write_string: "skip_ws (write_string s @ rest) = write_string s @ rest"
  by (simp add: skip_ws_def write_string_def is_ws_def)

lemma parse_value_string: "parse_value (write_string s @ rest) = Some (JStr s, rest)"
proof -
  have "parse_scalar (write_string s @ rest) = Some (JStr s, rest)"
    by (simp add: parse_scalar_def parse_string_write) (simp add: write_string_def)
  then show ?thesis
    by (simp add: parse_value.simps skip_ws_write_string) (simp add: write_string_def)
qed

lemma skip_ws_punct [simp]:
  "skip_ws (CHR '','' # s) = CHR '','' # s" "skip_ws (CHR '']'' # s) = CHR '']'' # s"
  "skip_ws (CHR ''}'' # s) = CHR ''}'' # s" "skip_ws (CHR '':'' # s) = CHR '':'' # s"
  by (simp_all add: skip_ws_def is_ws_def)

lemma stops_punct [simp]:
  "stops (CHR '','' # s)" "stops (CHR '']'' # s)" "stops (CHR ''}'' # s)" "stops []"
  by (simp_all add: stops_def num_char_def is_digit_def)

text \<open>What the induction says of a value, and its consequences for the two loops.\<close>

definition reads_back :: "json \<Rightarrow> bool" where
  "reads_back v \<longleftrightarrow>
     (\<forall>rest. stops rest \<longrightarrow> parse_value (write_value v @ rest) = Some (reread v, rest))"

lemma parse_elems_commas:
  assumes "\<forall>v \<in> set vs. reads_back v" "vs \<noteq> []"
  shows "parse_elems (JArr acc) (commas (map write_value vs) @ CHR '']'' # rest) =
           Some (JArr (acc @ map reread vs), rest)"
  using assms
proof (induction vs arbitrary: acc rule: induct_list012)
  case (2 v)
  then show ?case
    by (subst parse_elems.simps) (simp add: reads_back_def push_def as_array_def)
next
  case (3 v w vs)
  then show ?case
    by (subst parse_elems.simps) (simp add: reads_back_def push_def as_array_def)
qed simp

lemma parse_members_commas:
  assumes "\<forall>kv \<in> set m. reads_back (snd kv)" "m \<noteq> []" "smap_sorted (acc @ m)"
  shows "parse_members (JObj (map (\<lambda>(k, v). (k, reread v)) acc))
           (commas (map (\<lambda>(k, v). write_string k @ CHR '':'' # write_value v) m) @ CHR ''}'' # rest) =
           Some (JObj (map (\<lambda>(k, v). (k, reread v)) (acc @ m)), rest)"
  using assms
proof (induction m arbitrary: acc rule: induct_list012)
  case (2 kv)
  obtain k v where kv: "kv = (k, v)" by (cases kv)
  have keys: "\<forall>k' \<in> set (map fst (map (\<lambda>(k, v). (k, reread v)) acc)). str_less k' k"
    using 2 by (auto simp: kv smap_sorted_append)
  show ?case
    using 2 by (subst parse_members.simps)
      (simp add: kv skip_ws_write_string parse_string_write reads_back_def set_field_def
        smap_put_last [OF keys])
next
  case (3 kv kv' m)
  obtain k v where kv: "kv = (k, v)" by (cases kv)
  have keys: "\<forall>k' \<in> set (map fst (map (\<lambda>(k, v). (k, reread v)) acc)). str_less k' k"
    using 3 by (auto simp: kv smap_sorted_append)
  have IH: "parse_members (JObj (map (\<lambda>(k, v). (k, reread v)) (acc @ [kv])))
      (commas (map (\<lambda>(k, v). write_string k @ CHR '':'' # write_value v) (kv' # m)) @ CHR ''}'' # rest) =
      Some (JObj (map (\<lambda>(k, v). (k, reread v)) ((acc @ [kv]) @ kv' # m)), rest)"
    using 3 by (intro "3.IH"(2)) simp_all
  show ?case
    using 3 IH by (subst parse_members.simps)
      (simp add: kv skip_ws_write_string parse_string_write reads_back_def set_field_def
        smap_put_last [OF keys])
qed simp

lemma all_num_head: "all_num s \<Longrightarrow> s \<noteq> [] \<Longrightarrow> \<exists>c t. s = c # t \<and> \<not> is_ws c \<and> c \<noteq> CHR '']''"
  by (cases s) (auto simp: num_char_def is_ws_def is_digit_def)

lemma write_value_head: "\<exists>c t. write_value v = c # t \<and> \<not> is_ws c \<and> c \<noteq> CHR '']''"
proof (cases v)
  case (JInt i)
  then show ?thesis using all_num_head [OF dec_int_num] by simp
next
  case (JDouble d)
  then show ?thesis
    using all_num_head [OF fmt_g10_num fmt_g10_nonempty] by (simp add: is_ws_def)
qed (simp_all add: write_string_def is_ws_def)

lemma commas_head:
  "commas (s # ss) = s \<or> (\<exists>t. commas (s # ss) = s @ t)"
  by (cases ss) auto

lemma reads_back_array:
  assumes "\<forall>v \<in> set vs. reads_back v"
  shows "reads_back (JArr vs)"
proof (cases vs)
  case Nil
  then show ?thesis
    by (simp add: reads_back_def parse_value.simps skip_ws_def is_ws_def at_char_def)
next
  case (Cons v us)
  obtain c t where head: "write_value v = c # t" "\<not> is_ws c" "c \<noteq> CHR '']''"
    using write_value_head by blast
  have ne: "vs \<noteq> []" using Cons by simp
  let ?body = "commas (map write_value vs)"
  obtain t' where body: "?body = c # t'"
    using commas_head [of "write_value v" "map write_value us"] head(1) Cons by auto
  have opn: "skip_ws (CHR ''['' # s) = CHR ''['' # s" for s by (simp add: skip_ws_def is_ws_def)
  have skip: "skip_ws (?body @ s) = ?body @ s" for s
    using head by (simp add: body skip_ws_def)
  have "\<not> at_char (CHR '']'') (?body @ s)" for s
    using head by (simp add: body at_char_def)
  then show ?thesis
    using parse_elems_commas [OF assms ne, of "[]"]
    by (simp add: reads_back_def parse_value.simps opn skip)
qed

lemma reads_back_object:
  assumes "\<forall>kv \<in> set m. reads_back (snd kv)" "smap_sorted m"
  shows "reads_back (JObj m)"
proof (cases m)
  case Nil
  then show ?thesis
    by (simp add: reads_back_def parse_value.simps skip_ws_def is_ws_def at_char_def)
next
  case (Cons kv ms)
  let ?pr = "\<lambda>(k, v). write_string k @ CHR '':'' # write_value v"
  let ?body = "commas (map ?pr m)"
  from Cons have ne: "m \<noteq> []" by simp
  obtain t' where body: "?body = CHR 0x22 # t'"
    using commas_head [of "?pr kv" "map ?pr ms"] Cons
    by (cases kv) (auto simp: write_string_def)
  have opn: "skip_ws (CHR ''{'' # s) = CHR ''{'' # s" for s by (simp add: skip_ws_def is_ws_def)
  have skip: "skip_ws (?body @ s) = ?body @ s" for s by (simp add: body skip_ws_def is_ws_def)
  have "\<not> at_char (CHR ''}'') (?body @ s)" for s by (simp add: body at_char_def)
  then show ?thesis
    using parse_members_commas [of m "[]"] assms ne
    by (simp add: reads_back_def parse_value.simps opn skip)
qed

lemma reads_back_wf: "json_wf v \<Longrightarrow> reads_back v"
proof (induction v rule: json_wf.induct [case_names Arr Obj Null Bool Int Double Str])
  case (Arr vs)
  then show ?case by (intro reads_back_array) auto
next
  case (Obj m)
  then show ?case by (intro reads_back_object) auto
next
  case Null
  then show ?case by (simp add: reads_back_def parse_value_literals)
next
  case (Bool b)
  then show ?case by (cases b) (simp_all add: reads_back_def parse_value_literals)
next
  case (Int i)
  then show ?case
    by (simp add: reads_back_def parse_value_number dec_int_num num_value_dec_int)
next
  case (Double d)
  then show ?case
    by (simp add: reads_back_def parse_value_number fmt_g10_num fmt_g10_nonempty parse_value_literals)
next
  case (Str s)
  then show ?case by (simp add: reads_back_def parse_value_string)
qed

lemma parse_dump: "json_wf v \<Longrightarrow> json_parse (dump v) = Some (reread v)"
proof -
  assume "json_wf v"
  then have "parse_value (write_value v @ []) = Some (reread v, [])"
    using reads_back_wf stops_punct(4) unfolding reads_back_def by blast
  then show ?thesis by (simp add: json_parse_def dump_def)
qed

definition exact :: "json \<Rightarrow> bool" where
  "exact v \<longleftrightarrow> json_wf v \<and> no_double v"

lemma dump_nonempty: "dump v \<noteq> []"
  using write_value_head [of v] by (auto simp: dump_def)

interpretation codec: text_codec dump json_parse exact
  by unfold_locales (auto simp: exact_def parse_dump reread_no_double dump_nonempty)

section \<open>Well-formedness\<close>

lemma parse_scalar_wf: "parse_scalar s = Some (v, t) \<Longrightarrow> json_wf v"
  by (auto simp: parse_scalar_def parse_number_def Let_def split: if_splits option.splits)

lemma parse_wf:
  "\<forall>v t. parse_value s = Some (v, t) \<longrightarrow> json_wf v"
  "\<forall>v t. json_wf out \<and> parse_elems out s' = Some (v, t) \<longrightarrow> json_wf v"
  "\<forall>v t. json_wf out' \<and> parse_members out' s'' = Some (v, t) \<longrightarrow> json_wf v"
proof (induction s and out s' and out' s'' rule: parse_value_parse_elems_parse_members.induct)
  case (1 s)
  show ?case
  proof (cases "skip_ws s")
    case Nil
    then show ?thesis by (simp add: parse_value.simps)
  next
    case (Cons c t)
    then show ?thesis
      using "1.IH"(1) [OF Cons] "1.IH"(2) [OF Cons]
      by (fastforce simp: parse_value.simps [of s] dest: parse_scalar_wf split: if_splits)
  qed
next
  case (2 out s)
  show ?case
  proof (cases "parse_value s")
    case None
    then show ?thesis by (simp add: parse_elems.simps)
  next
    case (Some vt)
    obtain v t where vt: "vt = (v, t)" by (cases vt)
    have v: "json_wf v" using "2.IH"(1) Some vt by blast
    note IH = "2.IH"(2) [OF Some, unfolded vt, OF refl]
    show ?thesis
    proof (cases "skip_ws t")
      case (Cons c u)
      show ?thesis
        using IH [OF Cons] v Some vt Cons
        by (auto simp: parse_elems.simps [of out s] split: if_splits)
    qed (simp add: parse_elems.simps Some vt)
  qed
next
  case (3 out s)
  show ?case
  proof (cases "parse_string (skip_ws s)")
    case None
    then show ?thesis by (simp add: parse_members.simps)
  next
    case (Some kt)
    obtain k t where kt: "kt = (k, t)" by (cases kt)
    show ?thesis
    proof (cases "skip_ws t")
      case Nil
      then show ?thesis by (simp add: parse_members.simps Some kt)
    next
      case (Cons c u)
      show ?thesis
      proof (cases "parse_value u")
        case None
        then show ?thesis by (simp add: parse_members.simps Some kt Cons)
      next
        case Pv: (Some vt)
        obtain v t2 where vt: "vt = (v, t2)" by (cases vt)
        note IHv = "3.IH"(1) [OF Some, unfolded kt, OF refl Cons]
        note IHm = "3.IH"(2) [OF Some, unfolded kt, OF refl Cons _ Pv, unfolded vt, OF _ refl]
        show ?thesis
        proof (cases "skip_ws t2")
          case Cons2: (Cons d u2)
          show ?thesis
            using IHv IHm [OF _ Cons2] Some kt Cons Pv vt Cons2
            by (auto simp: parse_members.simps [of out s] split: if_splits)
        qed (simp add: parse_members.simps Some kt Cons Pv vt)
      qed
    qed
  qed
qed

lemma json_parse_wf: "json_parse text = Some v \<Longrightarrow> json_wf v"
  using parse_wf(1) by (auto simp: json_parse_def split: option.splits)

section \<open>The characters of printed text\<close>

lemma commas_chars: "c \<in> set (commas ss) \<Longrightarrow> c = CHR '','' \<or> (\<exists>s \<in> set ss. c \<in> set s)"
  by (induction ss rule: commas.induct) auto

lemma num_char_printable: "num_char c \<Longrightarrow> 32 \<le> code c"
  by (auto simp: num_char_def is_digit_def)

lemma digit_val_printable: "digit_val c \<noteq> None \<Longrightarrow> 32 \<le> code c"
  by (auto simp: digit_val_def Let_def split: if_splits)

lemma pad_left_chars: "c \<in> set (pad_left w d s) \<Longrightarrow> c = d \<or> c \<in> set s"
  by (auto simp: pad_left_def)

lemma esc_char_printable: "d \<in> set (esc_char c) \<Longrightarrow> 32 \<le> code d"
proof -
  have "32 \<le> code d" if "d \<in> set (fmt_04x n)" for n
    using pad_left_chars [OF that [unfolded fmt_04x_def]] hex_nat_chars digit_val_printable by fastforce
  then show "d \<in> set (esc_char c) \<Longrightarrow> 32 \<le> code d"
    by (auto simp: esc_char_def split: if_splits)
qed

lemma write_string_printable: "c \<in> set (write_string s) \<Longrightarrow> 32 \<le> code c"
  by (auto simp: write_string_def dest: esc_char_printable)

lemma all_num_printable: "all_num s \<Longrightarrow> c \<in> set s \<Longrightarrow> 32 \<le> code c"
  using num_char_printable by (auto simp: all_num_def list_all_iff)

lemma write_value_printable: "c \<in> set (write_value v) \<Longrightarrow> 32 \<le> code c"
proof (induction v arbitrary: c rule: write_value.induct)
  case (6 vs)
  then show ?case using commas_chars [of c "map write_value vs"] by auto
next
  case (7 m)
  then show ?case
    using commas_chars [of c "map (\<lambda>(k, v). write_string k @ CHR '':'' # write_value v) m"]
    by (fastforce dest: write_string_printable)
qed (auto simp: write_string_printable dec_int_num all_num_printable fmt_g10_num split: if_splits
      dest: all_num_printable [OF dec_int_num(1)] all_num_printable [OF fmt_g10_num])

section \<open>Nesting\<close>

fun json_depth :: "json \<Rightarrow> nat" where
  "json_depth (JArr vs) = Suc (Max (insert 0 (set (map json_depth vs))))"
| "json_depth (JObj m) = Suc (Max (insert 0 (set (map (\<lambda>kv. json_depth (snd kv)) m))))"
| "json_depth _ = 0"

fun nest :: "nat \<Rightarrow> json" where
  "nest 0 = JArr []"
| "nest (Suc n) = JArr [nest n]"

lemma nest_text: "write_value (nest n) = replicate (Suc n) (CHR ''['') @ replicate (Suc n) (CHR '']'')"
  by (induction n) (simp_all add: replicate_append_same)

lemma nest_depth: "json_depth (nest n) = Suc n"
  by (induction n) simp_all

lemma nest_exact: "json_wf (nest n) \<and> no_double (nest n)"
  by (induction n) simp_all

section \<open>Properties\<close>

text \<open>
  C17. Printing and parsing: every well-formed value that is printed parses back, and exactly where
  it holds no double; a finite double comes back as what its ten significant digits denote (an
  integer where they show no fraction), a non-finite one as null.
\<close>

theorem json_round_trip:
  assumes "json_wf v"
  shows "json_parse (dump v) = Some (reread v) \<and> (no_double v \<longrightarrow> reread v = v)"
  using parse_dump [OF assms] reread_no_double [of v] by simp

theorem json_round_trip_witness:
  "json_parse (dump (JObj [(''a'', JArr [JInt (- 5), JStr [CHR 0x22, CHR 0x0A]]), (''b'', JNull)])) =
     Some (JObj [(''a'', JArr [JInt (- 5), JStr [CHR 0x22, CHR 0x0A]]), (''b'', JNull)])"
proof -
  let ?v = "JObj [(''a'', JArr [JInt (- 5), JStr [CHR 0x22, CHR 0x0A]]), (''b'', JNull)]"
  have "json_wf ?v" "no_double ?v" by simp_all
  with json_round_trip [OF this(1)] show ?thesis by simp
qed



text \<open>
  Nesting is bounded by nothing but the frame: for every depth up to half the frame limit there
  is a text that fits a frame and parses to a value of that depth, and the recursive parser is
  that deep in its calls. With the 64 KiB limit this is 32768 levels, before authentication.
\<close>

theorem nesting_unbounded:
  "json_parse (replicate (Suc n) (CHR ''['') @ replicate (Suc n) (CHR '']'')) = Some (nest n) \<and>
   json_depth (nest n) = Suc n \<and>
   length (replicate (Suc n) (CHR ''['') @ replicate (Suc n) (CHR '']'')) = 2 * json_depth (nest n)"
  using parse_dump [of "nest n"] reread_no_double [of "nest n"] nest_exact [of n]
  by (simp only: nest_depth) (simp add: dump_def nest_text)

end
