(* ===== verification/Wire.thy ===== *)
theory Wire
  imports JsonCodec Interfaces
begin

text \<open>
  The frame layer of \<^verbatim>\<open>server.cpp\<close> (lines 146--283): exact reads and writes over a socket that
  delivers bytes in any chunks, and the frame codec on top of them. The kernel's side of the
  socket is a script of events: what each \<^verbatim>\<open>recv\<close> and \<^verbatim>\<open>send\<close> finds. The specification of the
  codec is a function on whole byte strings; the operations are proved to implement it whatever
  the chunking.
\<close>

section \<open>Little-endian integers\<close>

text \<open>The length prefixes are read into and written from integers in memory; the console is
  little-endian.\<close>

fun le_val :: "byte list \<Rightarrow> nat" where
  "le_val [] = 0"
| "le_val (b # bs) = unat b + 256 * le_val bs"

fun le_bytes :: "nat \<Rightarrow> nat \<Rightarrow> byte list" where
  "le_bytes 0 n = []"
| "le_bytes (Suc k) n = word_of_nat (n mod 256) # le_bytes k (n div 256)"

lemma le_bytes_length [simp]: "length (le_bytes k n) = k"
  by (induction k arbitrary: n) simp_all

lemma unat_byte_mod: "unat (word_of_nat (n mod 256) :: byte) = n mod 256"
  by (simp add: unat_of_nat)

lemma le_val_bytes: "n < 256 ^ k \<Longrightarrow> le_val (le_bytes k n) = n"
proof (induction k arbitrary: n)
  case (Suc k)
  then have "n div 256 < 256 ^ k" by (simp add: less_mult_imp_div_less mult.commute)
  with Suc.IH show ?case by (simp add: unat_byte_mod)
qed simp

section \<open>The socket\<close>

text \<open>
  What one \<^verbatim>\<open>recv\<close> finds: bytes that have arrived (a call takes as many as it has room for and
  leaves the rest), an interrupt, an expired receive timeout, or another error. The end of the
  script is the peer's orderly shutdown. \<^verbatim>\<open>send\<close> accepts some bytes, is interrupted or fails; past
  the end of its script it accepts everything.
\<close>

datatype rx_event = RxData "byte list" | RxEintr | RxAgain | RxErr

datatype tx_event = TxSent nat | TxEintr | TxFail

record conn =
  rx :: "rx_event list"
  tx :: "tx_event list"
  sent :: "byte list"
  rcv_timeout :: nat

definition kIdleTimeoutSec :: nat where "kIdleTimeoutSec = 30"
definition kIoTimeoutSec :: nat where "kIoTimeoutSec = 15"
definition kMaxJson :: nat where "kMaxJson = 64 * 1024"
definition kMaxBinary :: nat where "kMaxBinary = 2 ^ 20"

definition SetRecvTimeout :: "nat \<Rightarrow> conn \<Rightarrow> conn" where
  "SetRecvTimeout seconds c = c\<lparr>rcv_timeout := seconds\<rparr>"

text \<open>The timeouts \<^verbatim>\<open>ConfigureConnSocket\<close> leaves on an accepted connection.\<close>

definition ConfigureConnSocket :: "conn \<Rightarrow> conn" where
  "ConfigureConnSocket c = SetRecvTimeout kIdleTimeoutSec c"

section \<open>Exact reads and writes\<close>

datatype io_result = Ok | Timeout | Closed

fun event_size :: "rx_event \<Rightarrow> nat" where
  "event_size (RxData bs) = Suc (length bs)"
| "event_size _ = 1"

text \<open>\<open>buf\<close> holds the \<^verbatim>\<open>got\<close> bytes read so far.\<close>

function ReadExactEx :: "nat \<Rightarrow> byte list \<Rightarrow> rx_event list \<Rightarrow> io_result \<times> byte list \<times> rx_event list" where
  "ReadExactEx n buf es =
     (if n \<le> length buf then (Ok, buf, es)
      else case es of
             [] \<Rightarrow> (Closed, buf, [])
           | RxEintr # es' \<Rightarrow> ReadExactEx n buf es'
           | RxAgain # es' \<Rightarrow> (if buf = [] then Timeout else Closed, buf, es')
           | RxErr # es' \<Rightarrow> (Closed, buf, es')
           | RxData bs # es' \<Rightarrow>
               if bs = [] then (Closed, buf, es')
               else let k = min (n - length buf) (length bs)
                    in ReadExactEx n (buf @ take k bs)
                         (if k = length bs then es' else RxData (drop k bs) # es'))"
  by pat_completeness auto
termination
  by (relation "measure (\<lambda>(n, buf, es). sum_list (map event_size es))") auto

declare ReadExactEx.simps [simp del]

definition ReadExact :: "nat \<Rightarrow> rx_event list \<Rightarrow> (byte list \<times> rx_event list) option" where
  "ReadExact n es =
     (case ReadExactEx n [] es of (Ok, buf, es') \<Rightarrow> Some (buf, es') | _ \<Rightarrow> None)"

text \<open>\<^verbatim>\<open>WriteAll\<close>: the success flag, what was accepted, and the rest of the script.\<close>

function WriteAll :: "byte list \<Rightarrow> tx_event list \<Rightarrow> bool \<times> byte list \<times> tx_event list" where
  "WriteAll bs ts =
     (if bs = [] then (True, [], ts)
      else case ts of
             [] \<Rightarrow> (True, bs, [])
           | TxEintr # ts' \<Rightarrow> WriteAll bs ts'
           | TxFail # ts' \<Rightarrow> (False, [], ts')
           | TxSent k # ts' \<Rightarrow>
               if k = 0 then (False, [], ts')
               else let (r, out, ts'') = WriteAll (drop k bs) ts' in (r, take k bs @ out, ts''))"
  by pat_completeness auto
termination
  by (relation "measure (\<lambda>(bs, ts). length ts)") auto

declare WriteAll.simps [simp del]

section \<open>Frames\<close>

datatype frame_result = FrameOk json "byte list" | FrameTimeout | FrameClosed

text \<open>\<^verbatim>\<open>ReadFrame\<close> after its length prefix: the JSON text and the optional binary trailer.\<close>

definition read_body :: "u32 \<Rightarrow> rx_event list \<Rightarrow> ((json \<times> byte list) \<times> rx_event list) option" where
  "read_body jlen es =
     (if jlen = 0 \<or> unat jlen > kMaxJson then None
      else case ReadExact (unat jlen) es of
        None \<Rightarrow> None
      | Some (txt, es) \<Rightarrow>
          (case json_parse (string_of_bytes txt) of
             None \<Rightarrow> None
           | Some msg \<Rightarrow>
               if has msg ''bin'' then
                 let blen = as_int (- 1) (idx msg ''bin'')
                 in if blen <s 0 \<or> unat blen > kMaxBinary then None
                    else case ReadExact 8 es of
                      None \<Rightarrow> None
                    | Some (w, es) \<Rightarrow>
                        let wire_len = (word_of_nat (le_val w) :: u64)
                        in if wire_len \<noteq> blen \<or> unat wire_len > kMaxBinary then None
                           else if wire_len = 0 then Some ((msg, []), es)
                           else (case ReadExact (unat wire_len) es of
                                   None \<Rightarrow> None
                                 | Some (payload, es) \<Rightarrow> Some ((msg, payload), es))
               else Some ((msg, []), es)))"

text \<open>
  The first read runs under the timeout the caller set; once the prefix is in, the shorter one
  applies, and \<^verbatim>\<open>RestoreIdle\<close> resets the idle one on every way out. After a failure the caller
  closes the socket, so what is left of the script there is not kept.
\<close>

definition ReadFrame :: "conn \<Rightarrow> frame_result \<times> conn" where
  "ReadFrame c =
     (case ReadExactEx 4 [] (rx c) of
        (Timeout, _, es) \<Rightarrow> (FrameTimeout, c\<lparr>rx := es\<rparr>)
      | (Closed, _, es) \<Rightarrow> (FrameClosed, c\<lparr>rx := es\<rparr>)
      | (Ok, hdr, es) \<Rightarrow>
          let c = SetRecvTimeout kIoTimeoutSec c
          in case read_body (word_of_nat (le_val hdr)) es of
               None \<Rightarrow> (FrameClosed, SetRecvTimeout kIdleTimeoutSec (c\<lparr>rx := []\<rparr>))
             | Some ((msg, payload), es) \<Rightarrow>
                 (FrameOk msg payload, SetRecvTimeout kIdleTimeoutSec (c\<lparr>rx := es\<rparr>)))"

definition send_bytes :: "byte list \<Rightarrow> conn \<Rightarrow> bool \<times> conn" where
  "send_bytes bs c =
     (let (r, out, ts) = WriteAll bs (tx c) in (r, c\<lparr>sent := sent c @ out, tx := ts\<rparr>))"

fun send_all :: "byte list list \<Rightarrow> conn \<Rightarrow> bool \<times> conn" where
  "send_all [] c = (True, c)"
| "send_all (bs # bss) c = (let (r, c) = send_bytes bs c in if r then send_all bss c else (False, c))"

definition WriteFrame :: "json \<Rightarrow> byte list \<Rightarrow> conn \<Rightarrow> bool \<times> conn" where
  "WriteFrame msg payload c =
     (let text = dump msg
      in send_all
           ([le_bytes 4 (unat (word_of_nat (length text) :: u32)), bytes_of text] @
            (if payload \<noteq> [] then [le_bytes 8 (length payload), payload] else [])) c)"

section \<open>The specification on byte strings\<close>

definition split_at :: "nat \<Rightarrow> byte list \<Rightarrow> (byte list \<times> byte list) option" where
  "split_at n bs = (if n \<le> length bs then Some (take n bs, drop n bs) else None)"

text \<open>A length-prefixed text, for any codec of the texts.\<close>

definition text_frame :: "('v \<Rightarrow> string) \<Rightarrow> 'v \<Rightarrow> byte list" where
  "text_frame enc v = le_bytes 4 (length (enc v)) @ bytes_of (enc v)"

definition text_unframe :: "(string \<Rightarrow> 'v option) \<Rightarrow> byte list \<Rightarrow> ('v \<times> byte list) option" where
  "text_unframe dec bs =
     (case split_at 4 bs of
        None \<Rightarrow> None
      | Some (hdr, bs) \<Rightarrow>
          let n = le_val hdr
          in if n = 0 \<or> n > kMaxJson then None
             else case split_at n bs of
                    None \<Rightarrow> None
                  | Some (txt, bs) \<Rightarrow>
                      (case dec (string_of_bytes txt) of None \<Rightarrow> None | Some v \<Rightarrow> Some (v, bs)))"

text \<open>A binary trailer, announced by \<open>n\<close> bytes.\<close>

definition blob :: "byte list \<Rightarrow> byte list" where
  "blob p = le_bytes 8 (length p) @ p"

definition unblob :: "nat \<Rightarrow> byte list \<Rightarrow> (byte list \<times> byte list) option" where
  "unblob n bs =
     (if n > kMaxBinary then None
      else case split_at 8 bs of
        None \<Rightarrow> None
      | Some (w, bs) \<Rightarrow> if le_val w \<noteq> n then None else split_at n bs)"

text \<open>The length a message announces for its binary trailer.\<close>

definition bin_len :: "json \<Rightarrow> int option" where
  "bin_len msg = (if has msg ''bin'' then Some (sint (as_int (- 1) (idx msg ''bin''))) else None)"

definition frame_encode :: "json \<Rightarrow> byte list \<Rightarrow> byte list" where
  "frame_encode msg p = text_frame dump msg @ (if p = [] then [] else blob p)"

definition frame_decode :: "byte list \<Rightarrow> ((json \<times> byte list) \<times> byte list) option" where
  "frame_decode bs =
     (case text_unframe json_parse bs of
        None \<Rightarrow> None
      | Some (msg, bs) \<Rightarrow>
          (case bin_len msg of
             None \<Rightarrow> Some ((msg, []), bs)
           | Some n \<Rightarrow>
               if n < 0 then None
               else (case unblob (nat n) bs of None \<Rightarrow> None | Some (p, bs) \<Rightarrow> Some ((msg, p), bs))))"

lemma split_at_append [simp]: "split_at (length a) (a @ b) = Some (a, b)"
  by (simp add: split_at_def)

context text_codec
begin

lemma unframe_frame:
  assumes "ok v" "length (enc v) \<le> kMaxJson"
  shows "text_unframe dec (text_frame enc v @ rest) = Some (v, rest)"
proof -
  have v: "le_val (le_bytes 4 (length (enc v))) = length (enc v)"
    using assms(2) by (intro le_val_bytes) (simp add: kMaxJson_def)
  have "split_at 4 (le_bytes 4 (length (enc v)) @ bs) = Some (le_bytes 4 (length (enc v)), bs)" for bs
    using split_at_append [of "le_bytes 4 (length (enc v))" bs] by simp
  moreover have "split_at (length (enc v)) (bytes_of (enc v) @ rest) = Some (bytes_of (enc v), rest)"
    using split_at_append [of "bytes_of (enc v)" rest] by simp
  ultimately show ?thesis
    using assms enc_nonempty [of v]
    by (simp add: text_unframe_def text_frame_def v dec_enc del: string_of_bytes_of list.map_comp)
       (simp add: string_of_bytes_of [unfolded list.map_comp] dec_enc comp_def)
qed

end

lemma unblob_blob: "length p \<le> kMaxBinary \<Longrightarrow> unblob (length p) (blob p @ rest) = Some (p, rest)"
proof -
  assume le: "length p \<le> kMaxBinary"
  then have "le_val (le_bytes 8 (length p)) = length p"
    by (intro le_val_bytes) (simp add: kMaxBinary_def)
  then show ?thesis
    using le split_at_append [of "le_bytes 8 (length p)" "p @ rest"]
    by (simp add: unblob_def blob_def)
qed

text \<open>A message and its trailer agree: the field \<^verbatim>\<open>bin\<close> is there exactly for a trailer, with its
  length.\<close>

definition bin_agrees :: "json \<Rightarrow> byte list \<Rightarrow> bool" where
  "bin_agrees msg p \<longleftrightarrow> bin_len msg = (if p = [] then None else Some (int (length p)))"

lemma frame_decode_encode:
  assumes "exact msg" "length (dump msg) \<le> kMaxJson" "length p \<le> kMaxBinary" "bin_agrees msg p"
  shows "frame_decode (frame_encode msg p @ rest) = Some ((msg, p), rest)"
  using codec.unframe_frame [OF assms(1,2), of "(if p = [] then [] else blob p) @ rest"]
    unblob_blob [OF assms(3), of rest] assms(4)
  by (auto simp: frame_decode_def frame_encode_def bin_agrees_def)

section \<open>The operations implement the specification\<close>

text \<open>A script on which nothing goes wrong: bytes in any non-empty chunks, and interrupts.\<close>

fun steady :: "rx_event list \<Rightarrow> bool" where
  "steady [] = True"
| "steady (RxData bs # es) = (bs \<noteq> [] \<and> steady es)"
| "steady (RxEintr # es) = steady es"
| "steady _ = False"

fun stream :: "rx_event list \<Rightarrow> byte list" where
  "stream [] = []"
| "stream (RxData bs # es) = bs @ stream es"
| "stream (_ # es) = stream es"

lemma ReadExactEx_steady:
  assumes "steady es" "length buf \<le> n"
  shows "if n - length buf \<le> length (stream es)
    then \<exists>es'. ReadExactEx n buf es = (Ok, buf @ take (n - length buf) (stream es), es') \<and>
           steady es' \<and> stream es' = drop (n - length buf) (stream es)
    else fst (ReadExactEx n buf es) = Closed"
  using assms
proof (induction n buf es rule: ReadExactEx.induct)
  case (1 n buf es)
  show ?case
  proof (cases "n \<le> length buf")
    case True
    with 1 show ?thesis by (simp add: ReadExactEx.simps [of n buf es])
  next
    case more: False
    show ?thesis
    proof (cases es)
      case Nil
      with more show ?thesis by (simp add: ReadExactEx.simps [of n buf "[]"])
    next
      case (Cons e es')
      show ?thesis
      proof (cases e)
        case (RxData bs)
        let ?k = "min (n - length buf) (length bs)"
        let ?rest = "if ?k = length bs then es' else RxData (drop ?k bs) # es'"
        have bs: "bs \<noteq> []" "steady es'" using 1 Cons RxData by auto
        have step: "ReadExactEx n buf es = ReadExactEx n (buf @ take ?k bs) ?rest"
          unfolding Cons RxData using more bs
          by (subst ReadExactEx.simps) (simp add: Let_def)
        have st: "steady ?rest" "stream ?rest = drop ?k bs @ stream es'" using bs by auto
        have len: "length (buf @ take ?k bs) \<le> n" using more by auto
        have IH: "if n - length (buf @ take ?k bs) \<le> length (stream ?rest)
          then \<exists>es''. ReadExactEx n (buf @ take ?k bs) ?rest =
                 (Ok, (buf @ take ?k bs) @ take (n - length (buf @ take ?k bs)) (stream ?rest), es'') \<and>
               steady es'' \<and> stream es'' = drop (n - length (buf @ take ?k bs)) (stream ?rest)
          else fst (ReadExactEx n (buf @ take ?k bs) ?rest) = Closed"
          using "1.IH"(1) [OF more Cons RxData bs(1) refl st(1) len] .
        show ?thesis
        proof (cases "n - length buf \<le> length bs")
          case True
          then have "?k = n - length buf" by simp
          with IH step st Cons RxData True more show ?thesis by (simp add: take_append drop_append)
        next
          case False
          then have "?k = length bs" "n - length buf \<le> length bs + length (stream es') \<longleftrightarrow>
              n - (length buf + length bs) \<le> length (stream es')" by auto
          with IH step st Cons RxData False more show ?thesis
            by (simp add: take_append drop_append split: if_splits)
        qed
      next
        case RxEintr
        then show ?thesis
          using "1.IH"(2) [OF more Cons RxEintr] "1.prems" Cons more
          by (simp add: ReadExactEx.simps [of n buf "RxEintr # es'"])
      qed (use "1.prems" Cons in auto)
    qed
  qed
qed

lemma ReadExact_steady:
  assumes "steady es"
  shows "case split_at n (stream es) of
      Some (a, b) \<Rightarrow> \<exists>es'. ReadExact n es = Some (a, es') \<and> steady es' \<and> stream es' = b
    | None \<Rightarrow> ReadExact n es = None"
  using ReadExactEx_steady [OF assms, of "[]" n]
  by (auto simp: split_at_def ReadExact_def split: if_splits prod.splits io_result.splits)

lemma le_val_bound: "le_val bs < 256 ^ length bs"
proof (induction bs)
  case (Cons b bs)
  have "unat b < 256" using unsigned_less [of b, where 'a = nat] by simp
  with Cons show ?case by simp
qed simp

lemma split_at_len: "split_at n bs = Some (a, b) \<Longrightarrow> length a = n"
  by (auto simp: split_at_def split: if_splits)

lemma split_at_0 [simp]: "split_at 0 bs = Some ([], bs)"
  by (simp add: split_at_def)

text \<open>The trailer's two length checks against the announced length.\<close>

lemma wire_len_checks:
  assumes "length w = 8" "0 \<le> sint (blen :: i64)"
  shows "unat (word_of_nat (le_val w) :: u64) = le_val w"
    and "(word_of_nat (le_val w) :: u64) \<noteq> blen \<longleftrightarrow> le_val w \<noteq> nat (sint blen)"
    and "unat blen = nat (sint blen)"
proof -
  have "le_val w < 2 ^ 64" using le_val_bound [of w] assms(1) by simp
  then show w: "unat (word_of_nat (le_val w) :: u64) = le_val w"
    by (simp add: unat_of_nat take_bit_eq_mod)
  show u: "unat blen = nat (sint blen)" using assms(2) by (rule unat_of_sint)
  show "(word_of_nat (le_val w) :: u64) \<noteq> blen \<longleftrightarrow> le_val w \<noteq> nat (sint blen)"
    using w u by (metis word_unat_eq_iff)
qed

lemma word_sless_0: "(w :: i64) <s 0 \<longleftrightarrow> sint w < 0"
  by (simp add: word_sless_alt)

lemma unblob_checks:
  assumes "unat wl = nat n"
  shows "unblob (nat n) bs =
    (if unat wl > kMaxBinary then None
     else case split_at 8 bs of
       None \<Rightarrow> None
     | Some (w, bs) \<Rightarrow> if le_val w \<noteq> nat n then None else split_at (nat n) bs)"
  using assms by (simp add: unblob_def)

text \<open>The part of a decoded frame after the length prefix.\<close>

definition body_decode :: "nat \<Rightarrow> byte list \<Rightarrow> ((json \<times> byte list) \<times> byte list) option" where
  "body_decode n bs =
     (if n = 0 \<or> n > kMaxJson then None
      else case split_at n bs of
        None \<Rightarrow> None
      | Some (txt, bs) \<Rightarrow>
          (case json_parse (string_of_bytes txt) of
             None \<Rightarrow> None
           | Some msg \<Rightarrow>
               (case bin_len msg of
                  None \<Rightarrow> Some ((msg, []), bs)
                | Some n \<Rightarrow>
                    if n < 0 then None
                    else (case unblob (nat n) bs of
                            None \<Rightarrow> None
                          | Some (p, bs) \<Rightarrow> Some ((msg, p), bs)))))"

lemma frame_decode_body:
  "frame_decode bs =
     (case split_at 4 bs of None \<Rightarrow> None | Some (hdr, bs) \<Rightarrow> body_decode (le_val hdr) bs)"
  by (simp add: frame_decode_def text_unframe_def body_decode_def Let_def split: option.split)

definition reads :: "('a \<times> rx_event list) option \<Rightarrow> ('a \<times> byte list) option \<Rightarrow> bool" where
  "reads r spec =
     (case spec of
        None \<Rightarrow> r = None
      | Some (v, rest) \<Rightarrow> \<exists>es. r = Some (v, es) \<and> steady es \<and> stream es = rest)"

lemma reads_None [simp]: "reads None None"
  by (simp add: reads_def)

lemma reads_Some [simp]: "steady es \<Longrightarrow> reads (Some (v, es)) (Some (v, stream es))"
  by (simp add: reads_def)

lemma reads_exact: "steady es \<Longrightarrow> reads (ReadExact n es) (split_at n (stream es))"
  using ReadExact_steady [of es n] by (simp add: reads_def split: option.splits)

lemma reads_bind:
  assumes "reads r spec"
    and "\<And>v es. steady es \<Longrightarrow> spec = Some (v, stream es) \<Longrightarrow> reads (f v es) (g v (stream es))"
  shows "reads (case r of None \<Rightarrow> None | Some (v, es) \<Rightarrow> f v es)
    (case spec of None \<Rightarrow> None | Some (v, bs) \<Rightarrow> g v bs)"
proof (cases spec)
  case None
  then show ?thesis using assms(1) by (simp add: reads_def)
next
  case (Some x)
  obtain v bs where x: "x = (v, bs)" by (cases x)
  then obtain es where es: "r = Some (v, es)" "steady es" "stream es = bs"
    using assms(1) Some by (auto simp: reads_def)
  then show ?thesis using assms(2) [of es v] Some x by simp
qed

lemma unblob_case:
  "(case unblob n bs of None \<Rightarrow> None | Some (p, bs) \<Rightarrow> k p bs) =
   (if n > kMaxBinary then None
    else case split_at 8 bs of
      None \<Rightarrow> None
    | Some (w, bs) \<Rightarrow>
        (case (if le_val w \<noteq> n then None else split_at n bs) of
           None \<Rightarrow> None | Some (p, bs) \<Rightarrow> k p bs))"
  by (auto simp: unblob_def split: option.split)

lemma reads_trailer:
  assumes "0 \<le> sint blen" "steady es"
  shows "reads
    (if unat blen > kMaxBinary then None
     else case ReadExact 8 es of
       None \<Rightarrow> None
     | Some (w, es) \<Rightarrow>
         let wire_len = (word_of_nat (le_val w) :: u64)
         in if wire_len \<noteq> blen \<or> unat wire_len > kMaxBinary then None
            else if wire_len = 0 then Some ((msg, []), es)
            else (case ReadExact (unat wire_len) es of
                    None \<Rightarrow> None
                  | Some (payload, es) \<Rightarrow> Some ((msg, payload), es)))
    (case unblob (nat (sint blen)) (stream es) of
       None \<Rightarrow> None | Some (p, bs) \<Rightarrow> Some ((msg, p), bs))"
proof -
  have inner: "reads
      (let wire_len = (word_of_nat (le_val w) :: u64)
       in if wire_len \<noteq> blen \<or> unat wire_len > kMaxBinary then None
          else if wire_len = 0 then Some ((msg, []), es)
          else (case ReadExact (unat wire_len) es of
                  None \<Rightarrow> None
                | Some (payload, es) \<Rightarrow> Some ((msg, payload), es)))
      (case (if le_val w \<noteq> nat (sint blen) then None else split_at (nat (sint blen)) (stream es)) of
         None \<Rightarrow> None | Some (p, bs) \<Rightarrow> Some ((msg, p), bs))"
    if w: "length w = 8" and es: "steady es" and le: "unat blen \<le> kMaxBinary" for w es
  proof (cases "le_val w = nat (sint blen)")
    case False
    then show ?thesis using wire_len_checks(2) [OF w assms(1)] by (simp add: Let_def)
  next
    case True
    note u = wire_len_checks(1) [OF w assms(1)] wire_len_checks(3) [OF w assms(1)]
    have wl: "(word_of_nat (le_val w) :: u64) = blen"
      using wire_len_checks(2) [OF w assms(1)] True by simp
    show ?thesis
    proof (cases "blen = 0")
      case True
      then show ?thesis using wl es u \<open>le_val w = _\<close> by (simp add: Let_def)
    next
      case False
      then show ?thesis
        using wl u le True reads_bind [OF reads_exact [OF es, of "unat blen"],
            of "\<lambda>p es. Some ((msg, p), es)" "\<lambda>p bs. Some ((msg, p), bs)"]
        by (simp add: Let_def)
    qed
  qed
  show ?thesis
  proof (cases "unat blen > kMaxBinary")
    case True
    then show ?thesis using unat_of_sint [OF assms(1)] by (simp add: unblob_def)
  next
    case False
    have "reads
      (case ReadExact 8 es of
         None \<Rightarrow> None
       | Some (w, es) \<Rightarrow>
           let wire_len = (word_of_nat (le_val w) :: u64)
           in if wire_len \<noteq> blen \<or> unat wire_len > kMaxBinary then None
              else if wire_len = 0 then Some ((msg, []), es)
              else (case ReadExact (unat wire_len) es of
                      None \<Rightarrow> None
                    | Some (payload, es) \<Rightarrow> Some ((msg, payload), es)))
      (case split_at 8 (stream es) of
         None \<Rightarrow> None
       | Some (w, bs) \<Rightarrow>
           (case (if le_val w \<noteq> nat (sint blen) then None else split_at (nat (sint blen)) bs) of
              None \<Rightarrow> None | Some (p, bs) \<Rightarrow> Some ((msg, p), bs)))"
      using False by (intro reads_bind reads_exact assms inner) (auto dest: split_at_len)
    then show ?thesis
      using False unat_of_sint [OF assms(1)] by (simp add: unblob_case)
  qed
qed

lemma read_body_reads:
  assumes "steady es" "unat jlen = n"
  shows "reads (read_body jlen es) (body_decode n (stream es))"
proof (cases "n = 0 \<or> n > kMaxJson")
  case True
  then show ?thesis using assms(2) by (auto simp: read_body_def body_decode_def unat_eq_0)
next
  case False
  then have b: "jlen \<noteq> 0" "unat jlen \<le> kMaxJson" using assms(2) by auto
  have k: "reads
    (case json_parse (string_of_bytes b) of
       None \<Rightarrow> None
     | Some msg \<Rightarrow>
         if has msg ''bin'' then
           let blen = as_int (- 1) (idx msg ''bin'')
           in if blen <s 0 \<or> unat blen > kMaxBinary then None
              else case ReadExact 8 es of
                None \<Rightarrow> None
              | Some (w, es) \<Rightarrow>
                  let wire_len = (word_of_nat (le_val w) :: u64)
                  in if wire_len \<noteq> blen \<or> unat wire_len > kMaxBinary then None
                     else if wire_len = 0 then Some ((msg, []), es)
                     else (case ReadExact (unat wire_len) es of
                             None \<Rightarrow> None
                           | Some (payload, es) \<Rightarrow> Some ((msg, payload), es))
         else Some ((msg, []), es))
    (case json_parse (string_of_bytes b) of
       None \<Rightarrow> None
     | Some msg \<Rightarrow>
         (case bin_len msg of
            None \<Rightarrow> Some ((msg, []), stream es)
          | Some n \<Rightarrow>
              if n < 0 then None
              else (case unblob (nat n) (stream es) of
                      None \<Rightarrow> None
                    | Some (p, bs) \<Rightarrow> Some ((msg, p), bs))))" if es: "steady es" for b es
  proof (cases "json_parse (string_of_bytes b)")
    case (Some msg)
    let ?blen = "as_int (- 1) (idx msg ''bin'')"
    show ?thesis
    proof (cases "has msg ''bin'' \<and> 0 \<le> sint ?blen")
      case True
      then have "bin_len msg = Some (sint ?blen)" "\<not> sint ?blen < 0" "\<not> ?blen <s 0"
        by (simp_all add: bin_len_def word_sless_0)
      then show ?thesis
        using reads_trailer [of ?blen es msg] True es Some by (simp only: option.case if_True if_False Let_def simp_thms)
    next
      case False
      then show ?thesis using es Some by (auto simp: bin_len_def word_sless_0 Let_def)
    qed
  qed simp
  have c: "(jlen = 0 \<or> kMaxJson < n) = False" "(n = 0 \<or> kMaxJson < n) = False"
    using False b assms(2) by auto
  show ?thesis
    unfolding read_body_def body_decode_def c if_False assms(2)
    by (rule reads_bind [OF reads_exact [OF assms(1)]]) (rule k)
qed

lemma hdr_len:
  assumes "length hdr = 4"
  shows "unat (word_of_nat (le_val hdr) :: u32) = le_val hdr"
  using le_val_bound [of hdr] assms by (simp add: unat_of_nat take_bit_eq_mod)

lemma ReadFrame_steady:
  assumes "steady (rx c)"
  shows "case frame_decode (stream (rx c)) of
      Some ((msg, p), rest) \<Rightarrow>
        \<exists>es. ReadFrame c = (FrameOk msg p, c\<lparr>rx := es, rcv_timeout := kIdleTimeoutSec\<rparr>) \<and>
             steady es \<and> stream es = rest
    | None \<Rightarrow> fst (ReadFrame c) = FrameClosed"
proof (cases "split_at 4 (stream (rx c))")
  case None
  then have "fst (ReadExactEx 4 [] (rx c)) = Closed"
    using ReadExactEx_steady [OF assms, of "[]" 4] by (auto simp: split_at_def split: if_splits)
  with None show ?thesis
    by (auto simp: frame_decode_body ReadFrame_def split: prod.splits io_result.splits)
next
  case (Some x)
  obtain hdr bs where x: "x = (hdr, bs)" by (cases x)
  then obtain es where es: "ReadExactEx 4 [] (rx c) = (Ok, hdr, es)" "steady es" "stream es = bs"
    using ReadExactEx_steady [OF assms, of "[]" 4] Some
    by (auto simp: split_at_def split: if_splits)
  have "reads (read_body (word_of_nat (le_val hdr)) es) (body_decode (le_val hdr) bs)"
    using read_body_reads [OF es(2) hdr_len] split_at_len [of 4 _ hdr bs] Some x es(3) by simp
  moreover have "frame_decode (stream (rx c)) = body_decode (le_val hdr) bs"
    using Some x by (simp add: frame_decode_body)
  ultimately show ?thesis
    using es(1) unfolding reads_def
    by (cases "body_decode (le_val hdr) bs")
       (auto simp: ReadFrame_def Let_def SetRecvTimeout_def)
qed

section \<open>Writing\<close>

text \<open>What a send of \<open>bs\<close> achieves: everything, or a proper prefix and the failure flag.\<close>

definition delivers :: "byte list \<Rightarrow> byte list \<Rightarrow> bool \<Rightarrow> byte list \<Rightarrow> bool" where
  "delivers old bs r new \<longleftrightarrow>
     (if r then new = old @ bs else \<exists>k < length bs. new = old @ take k bs)"

lemma delivers_append:
  assumes "delivers old a True mid" "delivers mid b r new"
  shows "delivers old (a @ b) r new"
proof (cases r)
  case True
  with assms show ?thesis by (simp add: delivers_def)
next
  case False
  then obtain j where "j < length b" "new = old @ a @ take j b"
    using assms by (auto simp: delivers_def)
  then have "length a + j < length (a @ b)" "new = old @ take (length a + j) (a @ b)" by simp_all
  with False show ?thesis unfolding delivers_def by (simp only: if_False) blast
qed

lemma delivers_stop:
  assumes "delivers old a False new"
  shows "delivers old (a @ b) False new"
proof -
  obtain k where "k < length a" "new = old @ take k a" using assms by (auto simp: delivers_def)
  then have "k < length (a @ b)" "new = old @ take k (a @ b)" by simp_all
  then show ?thesis unfolding delivers_def by (simp only: if_False) blast
qed

lemma WriteAll_delivers:
  "WriteAll bs ts = (r, out, ts') \<Longrightarrow> delivers [] bs r out"
proof (induction bs ts arbitrary: r out ts' rule: WriteAll.induct)
  case (1 bs ts)
  show ?case
  proof (cases "bs = []")
    case True
    then show ?thesis using "1.prems" by (simp add: WriteAll.simps delivers_def)
  next
    case ne: False
    show ?thesis
    proof (cases ts)
      case Nil
      then show ?thesis using "1.prems" ne by (subst (asm) WriteAll.simps) (simp add: delivers_def)
    next
      case (Cons t us)
      show ?thesis
      proof (cases t)
        case (TxSent k)
        show ?thesis
        proof (cases "k = 0")
          case True
          then show ?thesis using "1.prems" ne Cons TxSent
            by (subst (asm) WriteAll.simps) (simp add: delivers_def)
        next
          case False
          obtain r' out' us' where w: "WriteAll (drop k bs) us = (r', out', us')"
            by (cases "WriteAll (drop k bs) us")
          then have IH: "delivers [] (drop k bs) r' out'"
            using "1.IH"(1) ne Cons TxSent False by blast
          have "r = r'" "out = take k bs @ out'"
            using "1.prems" ne Cons TxSent False w by (subst (asm) WriteAll.simps, simp)+
          with IH show ?thesis
            using delivers_append [of "[]" "take k bs" "take k bs" "drop k bs" r' out]
            by (cases r') (auto simp: delivers_def)
        qed
      next
        case TxEintr
        then show ?thesis
          using "1.IH"(2) [OF ne Cons TxEintr] "1.prems" ne Cons
          by (simp add: WriteAll.simps [of bs "TxEintr # us"])
      next
        case TxFail
        then show ?thesis
          using "1.prems" ne Cons by (auto simp: WriteAll.simps [of bs "TxFail # us"] delivers_def)
      qed
    qed
  qed
qed

text \<open>Where no send fails, everything is delivered.\<close>

fun sending :: "tx_event list \<Rightarrow> bool" where
  "sending [] = True"
| "sending (TxSent k # ts) = (k \<noteq> 0 \<and> sending ts)"
| "sending (TxEintr # ts) = sending ts"
| "sending (TxFail # ts) = False"

lemma WriteAll_sending: "sending ts \<Longrightarrow> \<exists>ts'. WriteAll bs ts = (True, bs, ts') \<and> sending ts'"
proof (induction ts arbitrary: bs rule: sending.induct)
  case 1
  then show ?case by (simp add: WriteAll.simps [of bs "[]"])
next
  case (2 k ts)
  then obtain ts' where "WriteAll (drop k bs) ts = (True, drop k bs, ts')" "sending ts'"
    by fastforce
  with 2 show ?case by (auto simp: WriteAll.simps [of bs "TxSent k # ts"])
next
  case (3 ts)
  then show ?case by (auto simp: WriteAll.simps [of bs "TxEintr # ts"])
qed simp

lemma send_all_sending: "sending (tx c) \<Longrightarrow> \<exists>c'. send_all bss c = (True, c') \<and> sending (tx c')"
proof (induction bss arbitrary: c)
  case (Cons bs bss)
  obtain ts where "WriteAll bs (tx c) = (True, bs, ts)" "sending ts"
    using WriteAll_sending [OF Cons.prems] by blast
  then show ?case using Cons.IH by (auto simp: send_bytes_def)
qed simp

lemma WriteFrame_sending: "sending (tx c) \<Longrightarrow> \<exists>c'. WriteFrame msg p c = (True, c') \<and> sending (tx c')"
  by (simp add: WriteFrame_def Let_def send_all_sending del: send_all.simps)

lemma send_bytes_delivers:
  "send_bytes bs c = (r, c') \<Longrightarrow>
   delivers (sent c) bs r (sent c') \<and> rx c' = rx c \<and> rcv_timeout c' = rcv_timeout c"
  using WriteAll_delivers [of bs "tx c"]
  by (cases "WriteAll bs (tx c)") (auto simp: send_bytes_def delivers_def)

lemma send_all_delivers:
  "send_all bss c = (r, c') \<Longrightarrow>
   delivers (sent c) (concat bss) r (sent c') \<and> rx c' = rx c \<and> rcv_timeout c' = rcv_timeout c"
proof (induction bss arbitrary: c)
  case Nil
  then show ?case by (auto simp: delivers_def)
next
  case (Cons bs bss)
  obtain r1 c1 where c1: "send_bytes bs c = (r1, c1)" by (cases "send_bytes bs c")
  note d = send_bytes_delivers [OF c1]
  show ?case
  proof (cases r1)
    case True
    then have "send_all bss c1 = (r, c')" using Cons.prems c1 by simp
    from Cons.IH [OF this] d True show ?thesis
      by (auto intro: delivers_append)
  next
    case False
    then have "r = False" "c' = c1" using Cons.prems c1 by simp_all
    with d False show ?thesis by (simp add: delivers_stop)
  qed
qed

lemma WriteFrame_delivers:
  assumes "WriteFrame msg p c = (r, c')" "length (dump msg) < 2 ^ 32"
  shows "delivers (sent c) (frame_encode msg p) r (sent c')"
    and "rx c' = rx c \<and> rcv_timeout c' = rcv_timeout c"
proof -
  have "unat (word_of_nat (length (dump msg)) :: u32) = length (dump msg)"
    using assms(2) by (simp add: unat_of_nat take_bit_eq_mod)
  then have "send_all ([le_bytes 4 (length (dump msg)), bytes_of (dump msg)] @
      (if p \<noteq> [] then [le_bytes 8 (length p), p] else [])) c = (r, c')"
    using assms(1) by (simp add: WriteFrame_def Let_def)
  from send_all_delivers [OF this]
  show "delivers (sent c) (frame_encode msg p) r (sent c')"
    and "rx c' = rx c \<and> rcv_timeout c' = rcv_timeout c"
    by (auto simp: frame_encode_def text_frame_def blob_def split: if_splits)
qed

section \<open>Properties\<close>

text \<open>
  C5. The frame reader implements the wire format whatever the chunking. On a connection that
  delivers its bytes in any non-empty pieces, with any interrupts in between, \<^verbatim>\<open>ReadFrame\<close> returns
  exactly the message and payload that decoding the whole byte stream gives, leaves exactly the
  rest of the stream for the next frame, and restores the idle timeout; where the specification
  rejects the bytes (length out of range, bad JSON, a trailer whose two lengths disagree, or a
  stream that ends early) it reports the connection closed.
\<close>

theorem ReadFrame_refines:
  assumes "steady (rx c)"
  shows "case frame_decode (stream (rx c)) of
      Some ((msg, p), rest) \<Rightarrow>
        \<exists>es. ReadFrame c = (FrameOk msg p, c\<lparr>rx := es, rcv_timeout := kIdleTimeoutSec\<rparr>) \<and>
             steady es \<and> stream es = rest
    | None \<Rightarrow> fst (ReadFrame c) = FrameClosed"
  using assms by (rule ReadFrame_steady)

definition hello_frame :: "byte list" where
  "hello_frame = [2, 0, 0, 0] @ bytes_of ''{}''"

theorem ReadFrame_refines_witness:
  "fst (ReadFrame \<lparr>rx = [RxData [2], RxEintr, RxData (tl hello_frame)], tx = [], sent = [],
     rcv_timeout = 15\<rparr>) \<noteq> FrameTimeout"
proof -
  let ?c = "\<lparr>rx = [RxData [2], RxEintr, RxData (tl hello_frame)], tx = [], sent = [], rcv_timeout = 15\<rparr>"
  have "steady (rx ?c)" by (simp add: hello_frame_def)
  from ReadFrame_refines [OF this] show ?thesis by (auto split: option.splits)
qed

text \<open>
  C6. What one side writes, the other reads. If \<^verbatim>\<open>WriteFrame\<close> reports success for a message
  without doubles, with its trailer announced in \<^verbatim>\<open>bin\<close>, within the size limits, then a peer that
  receives those bytes in any chunking (and anything after them) reads back the same message and
  payload; if it reports failure, a proper prefix of the frame was sent and nothing else.
\<close>

theorem WriteFrame_ReadFrame:
  assumes "WriteFrame msg p c = (r, c')" "exact msg" "length (dump msg) \<le> kMaxJson"
    and "length p \<le> kMaxBinary" "bin_agrees msg p"
    and "steady (rx d)" "sent c = []" "r \<Longrightarrow> stream (rx d) = sent c' @ rest"
  shows "if r then \<exists>es. ReadFrame d = (FrameOk msg p, d\<lparr>rx := es, rcv_timeout := kIdleTimeoutSec\<rparr>) \<and>
             steady es \<and> stream es = rest
         else \<exists>k < length (frame_encode msg p). sent c' = take k (frame_encode msg p)"
proof -
  have "length (dump msg) < 2 ^ 32" using assms(3) by (simp add: kMaxJson_def)
  note d = WriteFrame_delivers(1) [OF assms(1) this]
  show ?thesis
  proof (cases r)
    case True
    then have "stream (rx d) = frame_encode msg p @ rest"
      using d assms(7,8) by (simp add: delivers_def)
    then show ?thesis
      using True ReadFrame_steady [OF assms(6)] frame_decode_encode [OF assms(2-5), of rest] by simp
  next
    case False
    then show ?thesis using d assms(7) by (simp add: delivers_def)
  qed
qed

theorem WriteFrame_ReadFrame_witness:
  "\<exists>c'. WriteFrame (JBool True) [] \<lparr>rx = [], tx = [TxSent 3, TxEintr], sent = [], rcv_timeout = 30\<rparr> =
     (True, c') \<and>
   fst (ReadFrame \<lparr>rx = [RxData (sent c')], tx = [], sent = [], rcv_timeout = 15\<rparr>) =
     FrameOk (JBool True) []"
proof -
  let ?c = "\<lparr>rx = [], tx = [TxSent 3, TxEintr], sent = [], rcv_timeout = 30\<rparr>"
  obtain c' where w: "WriteFrame (JBool True) [] ?c = (True, c')"
    using WriteFrame_sending [of ?c] by auto
  have "delivers [] (frame_encode (JBool True) []) True (sent c')"
    using WriteFrame_delivers(1) [OF w] by (simp add: dump_def)
  then have ne: "sent c' \<noteq> []" by (auto simp: delivers_def frame_encode_def text_frame_def dump_def)
  have e: "exact (JBool True)" "length (dump (JBool True)) \<le> kMaxJson" "bin_agrees (JBool True) []"
    by (simp_all add: exact_def dump_def kMaxJson_def bin_agrees_def bin_len_def has_def)
  let ?d = "\<lparr>rx = [RxData (sent c')], tx = [], sent = [], rcv_timeout = 15\<rparr>"
  have "if True then \<exists>es. ReadFrame ?d = (FrameOk (JBool True) [], ?d\<lparr>rx := es, rcv_timeout := kIdleTimeoutSec\<rparr>) \<and>
             steady es \<and> stream es = []
         else \<exists>k < length (frame_encode (JBool True) []). sent c' = take k (frame_encode (JBool True) [])"
    using ne by (intro WriteFrame_ReadFrame [OF w e(1,2) _ e(3)]) (simp_all add: kMaxBinary_def)
  then show ?thesis using w by auto
qed

end
