(* ===== verification/Config.thy ===== *)
theory Config
  imports Libc
begin

text \<open>
  The agent's configuration (\<^verbatim>\<open>protocol.hpp\<close>: \<^verbatim>\<open>Tier\<close>, \<^verbatim>\<open>AgentConfig\<close>; \<^verbatim>\<open>config.cpp\<close>): the INI
  loader with its fixed line buffers, the fail-safe reading of the tier, the generated first-boot
  file, and the emuMMC probe. What the loader reads from outside (the file's bytes, the random
  generator, whether the file can be created) are arguments of the model.
\<close>

section \<open>Capability tiers\<close>

datatype tier = Observe | Control | Invasive

text \<open>\<^verbatim>\<open>enum class Tier : int\<close>; the code compares tiers as integers.\<close>

fun tier_int :: "tier \<Rightarrow> nat" where
  "tier_int Observe = 0"
| "tier_int Control = 1"
| "tier_int Invasive = 2"

lemma tier_int_inject: "tier_int a = tier_int b \<Longrightarrow> a = b"
  by (cases a; cases b) simp_all

instantiation tier :: linorder
begin

definition less_eq_tier :: "tier \<Rightarrow> tier \<Rightarrow> bool" where
  "less_eq_tier a b \<longleftrightarrow> tier_int a \<le> tier_int b"

definition less_tier :: "tier \<Rightarrow> tier \<Rightarrow> bool" where
  "less_tier a b \<longleftrightarrow> tier_int a < tier_int b"

instance
  by standard (auto simp: less_eq_tier_def less_tier_def dest: tier_int_inject)

end

lemma tier_order [simp]:
  "Observe \<le> t" "t \<le> Invasive" "Control \<le> t \<longleftrightarrow> t \<noteq> Observe" "Invasive \<le> t \<longleftrightarrow> t = Invasive"
  "t \<le> Observe \<longleftrightarrow> t = Observe" "t \<le> Control \<longleftrightarrow> t \<noteq> Invasive"
  by (cases t; simp add: less_eq_tier_def)+

section \<open>AgentConfig\<close>

record agent_config =
  cfg_port :: u16
  cfg_token :: string
  cfg_log_level :: nat
  cfg_tier :: tier
  allow_nand_write :: bool
  allow_overclock :: bool
  allow_hardware :: bool
  clear_lockscreen_on_boot :: bool
  keep_awake_minutes :: i32
  require_hmac_auth :: bool
  enable_psc :: bool
  enable_usb :: bool
  is_emummc :: bool

definition default_config :: agent_config where
  "default_config = \<lparr>
     cfg_port = 6060, cfg_token = [], cfg_log_level = 2, cfg_tier = Observe,
     allow_nand_write = False, allow_overclock = False, allow_hardware = False,
     clear_lockscreen_on_boot = True, keep_awake_minutes = 10, require_hmac_auth = False,
     enable_psc = False, enable_usb = False, is_emummc = False\<rparr>"

section \<open>Lines\<close>

text \<open>\<^verbatim>\<open>fgets(line, k + 1, f)\<close>: at most \<open>k\<close> characters, up to and including a newline.\<close>

fun fgets :: "nat \<Rightarrow> string \<Rightarrow> string \<times> string" where
  "fgets 0 s = ([], s)"
| "fgets (Suc k) [] = ([], [])"
| "fgets (Suc k) (c # s) =
     (if c = CHR 0x0A then ([c], s) else let (a, b) = fgets k s in (c # a, b))"

lemma fgets_split: "fgets k s = (a, b) \<Longrightarrow> s = a @ b \<and> length a \<le> k"
proof (induction k s arbitrary: a b rule: fgets.induct)
  case (3 k c s)
  obtain a' b' where ab: "fgets k s = (a', b')" by (cases "fgets k s")
  then show ?case using 3 by (auto simp: Let_def split: if_splits)
qed auto

lemma fgets_shorter: "s \<noteq> [] \<Longrightarrow> length (snd (fgets (Suc k) s)) < length s"
proof (cases s)
  case (Cons c t)
  obtain a b where ab: "fgets k t = (a, b)" by (cases "fgets k t")
  then have "length b \<le> length t" using fgets_split by fastforce
  with Cons ab show ?thesis by (simp add: Let_def)
qed simp

text \<open>The lines a \<^verbatim>\<open>while (fgets(line, sizeof(line), f))\<close> loop sees, for a buffer of \<open>k + 2\<close> bytes.\<close>

function fgets_lines :: "nat \<Rightarrow> string \<Rightarrow> string list" where
  "fgets_lines k s =
     (if s = [] then []
      else fst (fgets (Suc k) s) # fgets_lines k (snd (fgets (Suc k) s)))"
  by pat_completeness auto
termination
  by (relation "measure (\<lambda>(k, s). length s)") (auto simp: fgets_shorter simp del: fgets.simps)

declare fgets_lines.simps [simp del]

definition trim_ws :: "char \<Rightarrow> bool" where
  "trim_ws c \<longleftrightarrow> c = CHR '' '' \<or> c = CHR 0x09 \<or> c = CHR 0x0D \<or> c = CHR 0x0A"

definition Trim :: "string \<Rightarrow> string" where
  "Trim s = rev (dropWhile trim_ws (rev (dropWhile trim_ws s)))"

text \<open>The text before the first equals sign and after it, where there is one.\<close>

definition split_eq :: "string \<Rightarrow> (string \<times> string) option" where
  "split_eq s =
     (if CHR ''='' \<in> set s
      then Some (takeWhile (\<lambda>c. c \<noteq> CHR ''='') s, tl (dropWhile (\<lambda>c. c \<noteq> CHR ''='') s))
      else None)"

text \<open>
  One turn of either loop: the buffer as a C string, trimmed; a line that starts with one of the
  \<open>skip\<close> characters, or has no equals sign, is passed over.
\<close>

definition key_value :: "string \<Rightarrow> string \<Rightarrow> (string \<times> string) option" where
  "key_value skip line =
     (let s = Trim (c_str line)
      in if s = [] \<or> hd s \<in> set skip then None
         else case split_eq s of
                None \<Rightarrow> None
              | Some (k, v) \<Rightarrow> Some (Trim k, Trim v))"

section \<open>The loader\<close>

definition ParseTier :: "string \<Rightarrow> tier" where
  "ParseTier v =
     (if v = ''control'' then Control else if v = ''invasive'' then Invasive else Observe)"

definition is_true :: "string \<Rightarrow> bool" where
  "is_true v \<longleftrightarrow> v = ''true'' \<or> v = ''1''"

definition apply_setting :: "agent_config \<Rightarrow> string \<Rightarrow> string \<Rightarrow> agent_config" where
  "apply_setting cfg key val =
     (if key = ''port'' then cfg\<lparr>cfg_port := ucast (strtoul10 val)\<rparr>
      else if key = ''token'' then cfg\<lparr>cfg_token := val\<rparr>
      else if key = ''log_level'' then
        cfg\<lparr>cfg_log_level := (if val = ''error'' then 0 else if val = ''warn'' then 1
                              else if val = ''debug'' then 3 else 2)\<rparr>
      else if key = ''allow_nand_write'' then cfg\<lparr>allow_nand_write := is_true val\<rparr>
      else if key = ''allow_overclock'' then cfg\<lparr>allow_overclock := is_true val\<rparr>
      else if key = ''allow_hardware'' then cfg\<lparr>allow_hardware := is_true val\<rparr>
      else if key = ''tier'' then cfg\<lparr>cfg_tier := ParseTier val\<rparr>
      else if key = ''clear_lockscreen_on_boot'' then
        cfg\<lparr>clear_lockscreen_on_boot := is_true val\<rparr>
      else if key = ''enable_usb'' then cfg\<lparr>enable_usb := is_true val\<rparr>
      else if key = ''enable_psc'' then cfg\<lparr>enable_psc := is_true val\<rparr>
      else if key = ''require_hmac_auth'' then cfg\<lparr>require_hmac_auth := is_true val\<rparr>
      else if key = ''keep_awake_minutes'' then
        (let m = strtol_int val
         in cfg\<lparr>keep_awake_minutes := (if m <s 0 then 0 else m)\<rparr>)
      else cfg)"

definition apply_line :: "agent_config \<Rightarrow> string \<Rightarrow> agent_config" where
  "apply_line cfg line =
     (case key_value ''#;'' line of
        None \<Rightarrow> cfg
      | Some (key, val) \<Rightarrow> apply_setting cfg key val)"

definition read_config :: "string \<Rightarrow> agent_config" where
  "read_config content = foldl apply_line default_config (fgets_lines 510 content)"

text \<open>\<^verbatim>\<open>RandomToken\<close>: two lower-case hex digits for each of the 16 random bytes.\<close>

definition RandomToken :: "byte list \<Rightarrow> string" where
  "RandomToken buf =
     concat (map (\<lambda>b. [hex_char (unat (drop_bit 4 b)), hex_char (unat (b AND 0xF))]) buf)"

text \<open>The file written on first boot, line by line.\<close>

definition setting :: "string \<Rightarrow> string \<Rightarrow> string" where
  "setting k v = k @ '' = '' @ v"

definition config_lines :: "u16 \<Rightarrow> string \<Rightarrow> string list" where
  "config_lines p token =
     [''# switch-agentd config (auto-generated)'',
      setting ''port'' (dec_nat (unat p)),
      setting ''token'' token,
      setting ''log_level'' ''info'',
      '''',
      ''# Capability tier: observe | control | invasive'',
      ''#   observe  - read-only; cannot change the console'',
      ''#   control  - input, launch apps, SD-card files'',
      ''#   invasive - NAND/BIS writes, raw i2c, memory patching'',
      ''# Starts read-only on purpose. Raise it deliberately.'',
      setting ''tier'' ''observe'',
      '''',
      ''# Clear the boot lockscreen automatically (needs tier >= control).'',
      ''# The lockscreen sleeps even with auto-sleep set to Never, and'',
      ''# sleeping drops the network, so a headless console left at the'',
      ''# lockscreen becomes unreachable until someone power-cycles it.'',
      setting ''clear_lockscreen_on_boot'' ''true'',
      '''',
      ''# Minutes between keep-awake nudges, 0 to disable. Stops the'',
      ''# console re-locking and then sleeping while idle, which drops'',
      ''# the network. Skipped while a game is running.'',
      setting ''keep_awake_minutes'' ''10'',
      '''',
      ''# Refuse the legacy cleartext-token handshake. The token then'',
      ''# never crosses the network; clients prove knowledge of it by'',
      ''# answering a server-issued nonce. Turn on once every client'',
      ''# supports it (switch-mcp does).'',
      setting ''require_hmac_auth'' ''false'',
      '''',
      ''# Extra opt-ins, each also requiring tier = invasive.'',
      setting ''allow_nand_write'' ''false'',
      setting ''allow_overclock'' ''false'',
      setting ''allow_hardware'' ''false'']"

definition unlines :: "string list \<Rightarrow> string" where
  "unlines ls = concat (map (\<lambda>l. l @ [CHR 0x0A]) ls)"

definition config_text :: "u16 \<Rightarrow> string \<Rightarrow> string" where
  "config_text p token = unlines (config_lines p (c_str token))"

section \<open>The emuMMC probe\<close>

text \<open>The loop stops at the first \<^verbatim>\<open>enabled\<close> key.\<close>

fun emummc_scan :: "string list \<Rightarrow> bool" where
  "emummc_scan [] = False"
| "emummc_scan (line # ls) =
     (case key_value ''#;['' line of
        None \<Rightarrow> emummc_scan ls
      | Some (k, v) \<Rightarrow> if k = ''enabled'' then v \<noteq> ''0'' \<and> v \<noteq> [] else emummc_scan ls)"

text \<open>\<open>ini1\<close> and \<open>ini2\<close> are the contents of the two candidate files, where they can be opened.\<close>

definition DetectEmummc :: "string option \<Rightarrow> string option \<Rightarrow> bool" where
  "DetectEmummc ini1 ini2 =
     (case (case ini1 of Some s \<Rightarrow> Some s | None \<Rightarrow> ini2) of
        None \<Rightarrow> False
      | Some s \<Rightarrow> emummc_scan (fgets_lines 254 s))"

text \<open>
  \<^verbatim>\<open>LoadConfig\<close>: \<open>file\<close> is what \<^verbatim>\<open>fopen(path, "r")\<close> gives, \<open>rnd\<close> the 16 bytes \<^verbatim>\<open>randomGet\<close> fills in,
  \<open>writable\<close> whether \<^verbatim>\<open>fopen(path, "w")\<close> succeeds. The second result is the text written, if any.
\<close>

definition LoadConfig ::
  "string option \<Rightarrow> byte list \<Rightarrow> bool \<Rightarrow> string option \<Rightarrow> string option \<Rightarrow> agent_config \<times> string option" where
  "LoadConfig file rnd writable ini1 ini2 =
     (let cfg = (case file of None \<Rightarrow> default_config | Some content \<Rightarrow> read_config content);
          (cfg, written) =
            (if cfg_token cfg = [] then
               let cfg = cfg\<lparr>cfg_token := RandomToken rnd\<rparr>
               in (cfg, if writable then Some (config_text (cfg_port cfg) (cfg_token cfg)) else None)
             else (cfg, None))
      in (cfg\<lparr>is_emummc := DetectEmummc ini1 ini2\<rparr>, written))"

section \<open>Lines and settings read back\<close>

lemma fgets_line:
  "CHR 0x0A \<notin> set l \<Longrightarrow> length l < k \<Longrightarrow> fgets k (l @ CHR 0x0A # s) = (l @ [CHR 0x0A], s)"
proof (induction l arbitrary: k)
  case Nil
  then show ?case by (cases k) simp_all
next
  case (Cons c l)
  obtain j where j: "k = Suc j" using Cons.prems by (cases k) auto
  have "c \<noteq> CHR 0x0A" using Cons.prems by auto
  then show ?case using Cons j by simp
qed

definition short_line :: "string \<Rightarrow> bool" where
  "short_line l \<longleftrightarrow> CHR 0x0A \<notin> set l \<and> length l \<le> 510"

lemma fgets_lines_unlines:
  "\<forall>l \<in> set ls. short_line l \<Longrightarrow> fgets_lines 510 (unlines ls) = map (\<lambda>l. l @ [CHR 0x0A]) ls"
proof (induction ls)
  case Nil
  then show ?case by (simp add: unlines_def fgets_lines.simps)
next
  case (Cons l ls)
  have "fgets (Suc 510) (l @ CHR 0x0A # unlines ls) = (l @ [CHR 0x0A], unlines ls)"
    using Cons.prems by (intro fgets_line) (simp_all add: short_line_def)
  then show ?case
    using Cons by (simp add: unlines_def fgets_lines.simps [of 510 "l @ CHR 0x0A # _"]
        del: fgets.simps)
qed

lemma Trim_frame:
  assumes "\<forall>c \<in> set w. trim_ws c" "\<forall>c \<in> set w'. trim_ws c"
    and s: "s \<noteq> []" "\<not> trim_ws (hd s)" "\<not> trim_ws (last s)"
  shows "Trim (w @ s @ w') = s"
proof -
  have "dropWhile trim_ws (w @ s @ w') = s @ w'"
    using assms by (intro dropWhile_append_stop) simp_all
  moreover have "dropWhile trim_ws (rev w' @ rev s) = rev s"
    using assms by (intro dropWhile_append_stop) (simp_all add: hd_rev)
  ultimately show ?thesis by (simp add: Trim_def)
qed

text \<open>A word: a key or a value without blanks, equals signs and NULs.\<close>

definition word_char :: "char \<Rightarrow> bool" where
  "word_char c \<longleftrightarrow> \<not> trim_ws c \<and> code c \<noteq> 0 \<and> c \<noteq> CHR ''=''"

definition word_text :: "string \<Rightarrow> bool" where
  "word_text s \<longleftrightarrow> s \<noteq> [] \<and> list_all word_char s"

lemma word_textD:
  assumes "word_text s"
  shows "s \<noteq> []" "\<not> trim_ws (hd s)" "\<not> trim_ws (last s)" "\<forall>c \<in> set s. code c \<noteq> 0"
    "\<forall>c \<in> set s. c \<noteq> CHR ''=''"
  using assms hd_in_set [of s] last_in_set [of s]
  by (auto simp: word_text_def list_all_iff word_char_def)

lemma key_value_setting:
  assumes k: "word_text k" and v: "word_text v" and h: "hd k \<notin> set skip"
  shows "key_value skip (setting k v @ [CHR 0x0A]) = Some (k, v)"
proof -
  note k = word_textD [OF k] and v = word_textD [OF v]
  have sp: "trim_ws (CHR '' '')" "trim_ws (CHR 0x0A)" by (simp_all add: trim_ws_def)
  have t: "Trim (setting k v @ [CHR 0x0A]) = setting k v"
    using Trim_frame [of "[]" "[CHR 0x0A]" "setting k v"] sp k v
    by (simp add: setting_def)
  have "takeWhile (\<lambda>c. c \<noteq> CHR ''='') ((k @ '' '') @ ''= '' @ v) = k @ '' ''"
    using k by (intro takeWhile_append_stop) auto
  moreover have "dropWhile (\<lambda>c. c \<noteq> CHR ''='') ((k @ '' '') @ ''= '' @ v) = ''= '' @ v"
    using k by (intro dropWhile_append_stop) auto
  ultimately have e: "split_eq (setting k v) = Some (k @ '' '', CHR '' '' # v)"
    by (simp add: split_eq_def setting_def)
  have "Trim (k @ '' '') = k" "Trim (CHR '' '' # v) = v"
    using Trim_frame [of "[]" "'' ''" k] Trim_frame [of "'' ''" "[]" v] sp k v by simp_all
  moreover have "c_str (setting k v @ [CHR 0x0A]) = setting k v @ [CHR 0x0A]"
    using k v by (intro c_str_id) (auto simp: setting_def)
  moreover have "setting k v \<noteq> []" "hd (setting k v) = hd k"
    using k by (simp_all add: setting_def)
  ultimately show ?thesis using h t e by (simp add: key_value_def)
qed

lemma Trim_keeps_head: "\<not> trim_ws c \<Longrightarrow> \<exists>u. Trim (c # s) = c # u"
proof -
  assume c: "\<not> trim_ws c"
  have "\<exists>u. dropWhile trim_ws (t @ [c]) = u @ [c]" for t
    using c by (induction t) auto
  then obtain u where "dropWhile trim_ws (rev s @ [c]) = u @ [c]" by blast
  then have "Trim (c # s) = c # rev u" using c by (simp add: Trim_def)
  then show ?thesis by blast
qed

lemma key_value_comment:
  assumes "c \<in> set skip" "\<not> trim_ws c" "code c \<noteq> 0"
  shows "key_value skip (c # s) = None"
proof -
  have "c_str (c # s) = c # c_str s" using assms(3) by (simp add: c_str_def)
  then show ?thesis using assms Trim_keeps_head [of c "c_str s"] by (auto simp: key_value_def)
qed

lemma key_value_blank: "key_value skip [CHR 0x0A] = None"
  by (simp add: key_value_def c_str_def Trim_def trim_ws_def)

section \<open>The generated file read back\<close>

lemma plain_word:
  "word_text ''port''" "word_text ''token''" "word_text ''log_level''" "word_text ''info''"
  "word_text ''tier''" "word_text ''observe''" "word_text ''clear_lockscreen_on_boot''"
  "word_text ''true''" "word_text ''keep_awake_minutes''" "word_text ''10''"
  "word_text ''require_hmac_auth''" "word_text ''false''" "word_text ''allow_nand_write''"
  "word_text ''allow_overclock''" "word_text ''allow_hardware''"
  by (simp_all add: word_text_def word_char_def trim_ws_def)

lemma apply_generated:
  "apply_setting cfg ''port'' (dec_nat (unat p)) = cfg\<lparr>cfg_port := p\<rparr>"
  "apply_setting cfg ''token'' v = cfg\<lparr>cfg_token := v\<rparr>"
  "apply_setting cfg ''log_level'' ''info'' = cfg\<lparr>cfg_log_level := 2\<rparr>"
  "apply_setting cfg ''tier'' ''observe'' = cfg\<lparr>cfg_tier := Observe\<rparr>"
  "apply_setting cfg ''clear_lockscreen_on_boot'' ''true'' = cfg\<lparr>clear_lockscreen_on_boot := True\<rparr>"
  "apply_setting cfg ''keep_awake_minutes'' ''10'' = cfg\<lparr>keep_awake_minutes := 10\<rparr>"
  "apply_setting cfg ''require_hmac_auth'' ''false'' = cfg\<lparr>require_hmac_auth := False\<rparr>"
  "apply_setting cfg ''allow_nand_write'' ''false'' = cfg\<lparr>allow_nand_write := False\<rparr>"
  "apply_setting cfg ''allow_overclock'' ''false'' = cfg\<lparr>allow_overclock := False\<rparr>"
  "apply_setting cfg ''allow_hardware'' ''false'' = cfg\<lparr>allow_hardware := False\<rparr>"
proof -
  have "unat p < 2 ^ 64" using unsigned_less [of p, where 'a = nat] by simp
  then have "strtoul10 (dec_nat (unat p)) = ucast p"
    by (simp add: strtoul10_dec_nat)
  then show "apply_setting cfg ''port'' (dec_nat (unat p)) = cfg\<lparr>cfg_port := p\<rparr>"
    by (simp add: apply_setting_def ucast_up_ucast_id is_up)
  have "strtol_int ''10'' = 10"
    by (simp add: strtol_int_def strtoll10_def is_space_def read_sign_def digit_in_def digit_val_def
        to_i32_def)
  then show "apply_setting cfg ''keep_awake_minutes'' ''10'' = cfg\<lparr>keep_awake_minutes := 10\<rparr>"
    by (simp add: apply_setting_def word_sless_alt)
qed (simp_all add: apply_setting_def ParseTier_def is_true_def)

lemma apply_line_setting:
  "word_text k \<Longrightarrow> word_text v \<Longrightarrow> hd k \<notin> set ''#;'' \<Longrightarrow>
   apply_line cfg (setting k v @ [CHR 0x0A]) = apply_setting cfg k v"
  by (simp add: apply_line_def key_value_setting del: set_simps)

lemma apply_line_comment: "apply_line cfg (CHR ''#'' # s) = cfg"
  by (simp add: apply_line_def key_value_comment trim_ws_def)

lemma apply_line_blank: "apply_line cfg [CHR 0x0A] = cfg"
  by (simp add: apply_line_def key_value_blank)

lemma word_text_dec_nat: "word_text (dec_nat n)"
proof -
  have "word_char c" if "is_digit c" for c
    using that by (auto simp: word_char_def trim_ws_def is_digit_def)
  then show ?thesis using dec_nat_digits by (auto simp: word_text_def list_all_iff)
qed

lemma digit_val_word_char: "digit_val c \<noteq> None \<Longrightarrow> word_char c"
  by (auto simp: word_char_def trim_ws_def digit_val_def Let_def split: if_splits)

lemma nibble_less: "unat (b AND 0xF :: byte) < 16" "unat (drop_bit 4 (b :: byte)) < 16"
proof -
  have "b AND 0xF \<le> 0xF" by (rule word_and_le1)
  then show "unat (b AND 0xF) < 16" by (simp add: word_le_nat_alt)
  have "unat b < 256" using unsigned_less [of b, where 'a = nat] by simp
  then show "unat (drop_bit 4 b) < 16" by (simp add: drop_bit_eq_div unat_div)
qed

lemma RandomToken_word_text: "rnd \<noteq> [] \<Longrightarrow> word_text (RandomToken rnd)"
  by (auto simp: word_text_def RandomToken_def list_all_iff nibble_less digit_val_word_char)

lemma RandomToken_length: "length (RandomToken rnd) = 2 * length rnd"
  by (induction rnd) (simp_all add: RandomToken_def)

lemma short_word: "word_text v \<Longrightarrow> CHR 0x0A \<notin> set v"
  by (auto simp: word_text_def list_all_iff word_char_def trim_ws_def)

lemma short_line_setting:
  "word_text k \<Longrightarrow> word_text v \<Longrightarrow> length k + length v \<le> 500 \<Longrightarrow> short_line (setting k v)"
  by (auto simp: short_line_def setting_def short_word)

text \<open>What the generated file says, whatever the configuration it replaced.\<close>

lemma dec_nat_short: "length (dec_nat (unat (p :: u16))) \<le> 16"
proof -
  have "unat p < 10 ^ 5" using unsigned_less [of p, where 'a = nat] by simp
  then have "length (dec_nat (unat p)) \<le> 5" by (rule dec_nat_length) simp
  then show ?thesis by simp
qed

lemma read_generated:
  assumes "word_text tok" "length tok \<le> 100"
  shows "read_config (config_text p tok) = default_config\<lparr>cfg_port := p, cfg_token := tok\<rparr>"
proof -
  have "c_str tok = tok" using word_textD(4) [OF assms(1)] by (rule c_str_id)
  moreover have "list_all short_line (config_lines p tok)"
    unfolding config_lines_def
    using assms dec_nat_short [of p]
    by (simp add: short_line_setting word_text_dec_nat plain_word) (simp add: short_line_def)
  ultimately have "read_config (config_text p tok) =
      foldl apply_line default_config (map (\<lambda>l. l @ [CHR 0x0A]) (config_lines p tok))"
    by (simp add: read_config_def config_text_def fgets_lines_unlines list_all_iff)
  also have "\<dots> = default_config\<lparr>cfg_port := p, cfg_token := tok\<rparr>"
    unfolding config_lines_def
    by (simp add: apply_line_comment apply_line_blank apply_line_setting word_text_dec_nat plain_word assms(1)
        apply_generated)
       (simp add: default_config_def)
  finally show ?thesis .
qed

section \<open>Where a setting comes from\<close>

definition says :: "string \<Rightarrow> string \<Rightarrow> (string \<Rightarrow> bool) \<Rightarrow> bool" where
  "says content k P \<longleftrightarrow>
     (\<exists>line v. line \<in> set (fgets_lines 510 content) \<and> key_value ''#;'' line = Some (k, v) \<and> P v)"

lemma apply_line_source:
  "cfg_tier (apply_line cfg l) = cfg_tier cfg \<or>
     (\<exists>v. key_value ''#;'' l = Some (''tier'', v) \<and> cfg_tier (apply_line cfg l) = ParseTier v)"
  "allow_nand_write (apply_line cfg l) = allow_nand_write cfg \<or>
     (\<exists>v. key_value ''#;'' l = Some (''allow_nand_write'', v) \<and> allow_nand_write (apply_line cfg l) = is_true v)"
  "allow_overclock (apply_line cfg l) = allow_overclock cfg \<or>
     (\<exists>v. key_value ''#;'' l = Some (''allow_overclock'', v) \<and> allow_overclock (apply_line cfg l) = is_true v)"
  "allow_hardware (apply_line cfg l) = allow_hardware cfg \<or>
     (\<exists>v. key_value ''#;'' l = Some (''allow_hardware'', v) \<and> allow_hardware (apply_line cfg l) = is_true v)"
  by (auto simp: apply_line_def apply_setting_def Let_def split: option.splits)

lemma foldl_source:
  assumes "\<And>c l. g (f c l) = g c \<or> (\<exists>v. kv l = Some (k, v) \<and> g (f c l) = h v)"
    and "g (foldl f c ls) \<noteq> g c"
  shows "\<exists>l \<in> set ls. \<exists>v. kv l = Some (k, v) \<and> g (foldl f c ls) = h v"
  using assms(2)
proof (induction ls arbitrary: c)
  case (Cons l ls)
  show ?case
  proof (cases "g (foldl f (f c l) ls) = g (f c l)")
    case True
    then show ?thesis using Cons.prems assms(1) [of c l] by auto
  next
    case False
    then show ?thesis using Cons.IH [of "f c l"] by auto
  qed
qed simp

lemma default_opt_ins:
  "cfg_tier default_config = Observe" "\<not> allow_nand_write default_config"
  "\<not> allow_overclock default_config" "\<not> allow_hardware default_config"
  by (simp_all add: default_config_def)

lemma read_config_source:
  "cfg_tier (read_config s) = t \<Longrightarrow> t \<noteq> Observe \<Longrightarrow> says s ''tier'' (\<lambda>v. ParseTier v = t)"
  "allow_nand_write (read_config s) \<Longrightarrow> says s ''allow_nand_write'' is_true"
  "allow_overclock (read_config s) \<Longrightarrow> says s ''allow_overclock'' is_true"
  "allow_hardware (read_config s) \<Longrightarrow> says s ''allow_hardware'' is_true"
proof -
  note d = default_opt_ins and u = read_config_def says_def
  show "says s ''tier'' (\<lambda>v. ParseTier v = t)" if "cfg_tier (read_config s) = t" "t \<noteq> Observe"
    using foldl_source [of cfg_tier apply_line "key_value ''#;''" "''tier''" ParseTier default_config "fgets_lines 510 s"]
      apply_line_source(1) that d unfolding u by metis
  show "says s ''allow_nand_write'' is_true" if "allow_nand_write (read_config s)"
    using foldl_source [of allow_nand_write apply_line "key_value ''#;''" "''allow_nand_write''" is_true default_config "fgets_lines 510 s"]
      apply_line_source(2) that d unfolding u by metis
  show "says s ''allow_overclock'' is_true" if "allow_overclock (read_config s)"
    using foldl_source [of allow_overclock apply_line "key_value ''#;''" "''allow_overclock''" is_true default_config "fgets_lines 510 s"]
      apply_line_source(3) that d unfolding u by metis
  show "says s ''allow_hardware'' is_true" if "allow_hardware (read_config s)"
    using foldl_source [of allow_hardware apply_line "key_value ''#;''" "''allow_hardware''" is_true default_config "fgets_lines 510 s"]
      apply_line_source(4) that d unfolding u by metis
qed

lemma ParseTier_iff:
  "ParseTier v = Control \<longleftrightarrow> v = ''control''" "ParseTier v = Invasive \<longleftrightarrow> v = ''invasive''"
  by (simp_all add: ParseTier_def)

lemma keep_awake_nonneg: "0 \<le>s keep_awake_minutes (read_config s)"
proof -
  have "0 \<le>s keep_awake_minutes c \<Longrightarrow> 0 \<le>s keep_awake_minutes (apply_line c l)" for c l
    by (auto simp: apply_line_def apply_setting_def Let_def word_sle_eq word_sless_alt split: option.split)
  then have "0 \<le>s keep_awake_minutes c \<Longrightarrow> 0 \<le>s keep_awake_minutes (foldl apply_line c ls)" for c ls
    by (induction ls arbitrary: c) simp_all
  moreover have "0 \<le>s keep_awake_minutes default_config"
    by (simp add: default_config_def word_sle_eq)
  ultimately show ?thesis by (simp add: read_config_def)
qed

lemma LoadConfig_written:
  assumes "LoadConfig ini rnd wr a b = (cfg, Some text)"
  shows "text = config_text (cfg_port cfg) (cfg_token cfg)" "cfg_token cfg = RandomToken rnd"
    "is_emummc cfg = DetectEmummc a b" "wr"
  using assms by (auto simp: LoadConfig_def Let_def split: if_splits option.splits)

section \<open>Properties\<close>

text \<open>
  First boot: whenever the loader writes a configuration file (there was none, or it had no
  token), loading that file again gives the default configuration with exactly the port and the
  token of the first run, and writes nothing: the generated file round-trips through the loader's
  own line buffer, trimming and key parsing, so the console comes back with the same credentials
  and in the read-only tier.
\<close>

theorem generated_config_reloads:
  assumes "length rnd = 16" "LoadConfig ini rnd True a b = (cfg, Some text)"
  shows "LoadConfig (Some text) rnd' w a b =
    (default_config\<lparr>cfg_port := cfg_port cfg, cfg_token := cfg_token cfg,
       is_emummc := is_emummc cfg\<rparr>, None)"
proof -
  note l = LoadConfig_written [OF assms(2)]
  have rnd: "rnd \<noteq> []" using assms(1) by auto
  have t: "word_text (cfg_token cfg)" "length (cfg_token cfg) \<le> 100"
    using RandomToken_word_text [OF rnd] assms(1) l(2) by (simp_all add: RandomToken_length)
  show ?thesis
    using read_generated [OF t, of "cfg_port cfg"] l word_textD(1) [OF t(1)]
    by (simp add: LoadConfig_def)
qed

theorem generated_config_reloads_witness:
  "\<exists>cfg text. LoadConfig None (replicate 16 0xA5) True None None = (cfg, Some text) \<and>
     LoadConfig (Some text) [] False None None =
       (default_config\<lparr>cfg_port := cfg_port cfg, cfg_token := cfg_token cfg,
          is_emummc := is_emummc cfg\<rparr>, None)"
proof -
  obtain cfg out where "LoadConfig None (replicate 16 0xA5) True None None = (cfg, Some out)"
    by (auto simp: LoadConfig_def default_config_def Let_def)
  with generated_config_reloads [OF _ this, of "[]" False] show ?thesis by simp
qed



text \<open>
  The loader has no inline comments: text after a value, such as the comments the shipped
  \<^verbatim>\<open>config.ini.example\<close> puts there, becomes part of the value. Whatever stands in the comment, the
  value is then neither a truth value nor a tier, so \<^verbatim>\<open>allow_nand_write = true # yes\<close> leaves NAND
  writes off and \<^verbatim>\<open>tier = control # ...\<close> leaves the console in the observe tier.
\<close>

theorem inline_comment_disables:
  assumes "CHR ''#'' \<in> set v"
  shows "apply_setting cfg ''tier'' v = cfg\<lparr>cfg_tier := Observe\<rparr> \<and>
    apply_setting cfg ''allow_nand_write'' v = cfg\<lparr>allow_nand_write := False\<rparr> \<and>
    apply_setting cfg ''allow_overclock'' v = cfg\<lparr>allow_overclock := False\<rparr> \<and>
    apply_setting cfg ''allow_hardware'' v = cfg\<lparr>allow_hardware := False\<rparr> \<and>
    apply_setting cfg ''log_level'' v = cfg\<lparr>cfg_log_level := 2\<rparr>"
proof -
  have "v \<noteq> w" if "CHR ''#'' \<notin> set w" for w using assms that by blast
  from this [of "''control''"] this [of "''invasive''"] this [of "''true''"] this [of "''1''"]
    this [of "''error''"] this [of "''warn''"] this [of "''debug''"]
  show ?thesis by (simp add: apply_setting_def ParseTier_def is_true_def)
qed

theorem inline_comment_disables_witness:
  "apply_setting default_config ''tier'' ''control # input'' = default_config\<lparr>cfg_tier := Observe\<rparr> \<and>
   key_value ''#;'' ''tier = control # input'' = Some (''tier'', ''control # input'')"
  using inline_comment_disables [of "''control # input''" default_config] by (simp, code_simp)

end
