(* ===== verification/Server.thy ===== *)
theory Server
  imports Wire Config
begin

text \<open>
  The dispatcher of \<^verbatim>\<open>server.cpp\<close>: the command table, the capability check, authentication, and
  the request loop of one connection. The state passed along is the connection, the rest of the
  console (an abstract world) and the calls the server makes into the handlers and the other
  parts of the agent, in order. What the server calls but does not implement (the handlers, the
  random generator, HMAC, the journal, the watchdog, the virtual pad) is a record of functions.
\<close>

section \<open>Requests, replies, commands\<close>

record request =
  req_msg :: json
  req_payload :: "byte list"
  req_cfg :: agent_config

record reply =
  reply_json :: json
  reply_out :: "byte list"

definition new_reply :: reply where
  "new_reply = \<lparr>reply_json = empty_object, reply_out = []\<rparr>"

abbreviation arg :: "request \<Rightarrow> string \<Rightarrow> json" where
  "arg req k \<equiv> idx (req_msg req) k"

text \<open>A handler is named by the C++ function it is.\<close>

record command =
  fn :: string
  ctier :: tier
  mutating :: bool

definition command_table :: "(string \<times> command) list" where
  "command_table =
    [
     (''agent.info'', \<lparr>fn = ''AgentInfo'', ctier = Observe, mutating = False\<rparr>),
     (''screenshot'', \<lparr>fn = ''Screenshot'', ctier = Observe, mutating = False\<rparr>),
     (''sysinfo'', \<lparr>fn = ''SysInfo'', ctier = Observe, mutating = False\<rparr>),
     (''ps'', \<lparr>fn = ''ProcessList'', ctier = Observe, mutating = False\<rparr>),
     (''crash_reports'', \<lparr>fn = ''CrashReports'', ctier = Observe, mutating = False\<rparr>),
     (''read_log'', \<lparr>fn = ''ReadLog'', ctier = Observe, mutating = False\<rparr>),
     (''titles'', \<lparr>fn = ''Titles'', ctier = Observe, mutating = False\<rparr>),
     (''title_icon'', \<lparr>fn = ''TitleIcon'', ctier = Observe, mutating = False\<rparr>),
     (''running_app'', \<lparr>fn = ''RunningApp'', ctier = Observe, mutating = False\<rparr>),
     (''console_info'', \<lparr>fn = ''ConsoleInfo'', ctier = Observe, mutating = False\<rparr>),
     (''net_info'', \<lparr>fn = ''NetInfo'', ctier = Observe, mutating = False\<rparr>),
     (''fatal_reports'', \<lparr>fn = ''FatalReports'', ctier = Observe, mutating = False\<rparr>),
     (''preflight'', \<lparr>fn = ''PreflightCheck'', ctier = Observe, mutating = False\<rparr>),
     (''journal'', \<lparr>fn = ''JournalRead'', ctier = Observe, mutating = False\<rparr>),
     (''watchdog'', \<lparr>fn = ''WatchdogStatus'', ctier = Observe, mutating = False\<rparr>),
     (''controllers'', \<lparr>fn = ''Controllers'', ctier = Observe, mutating = False\<rparr>),
     (''read_input'', \<lparr>fn = ''ReadInput'', ctier = Observe, mutating = False\<rparr>),
     (''wait_event'', \<lparr>fn = ''WaitEvent'', ctier = Observe, mutating = False\<rparr>),
     (''record_input'', \<lparr>fn = ''RecordInput'', ctier = Observe, mutating = False\<rparr>),
     (''get_clocks'', \<lparr>fn = ''GetClocks'', ctier = Observe, mutating = False\<rparr>),
     (''get_brightness'', \<lparr>fn = ''GetBrightness'', ctier = Observe, mutating = False\<rparr>),
     (''get_volume'', \<lparr>fn = ''GetVolume'', ctier = Observe, mutating = False\<rparr>),
     (''get_time'', \<lparr>fn = ''GetTime'', ctier = Observe, mutating = False\<rparr>),
     (''get_sleep'', \<lparr>fn = ''GetSleep'', ctier = Observe, mutating = False\<rparr>),
     (''settings.get'', \<lparr>fn = ''SettingsGet'', ctier = Observe, mutating = False\<rparr>),
     (''fs.list'', \<lparr>fn = ''FsList'', ctier = Observe, mutating = False\<rparr>),
     (''fs.read'', \<lparr>fn = ''FsRead'', ctier = Observe, mutating = False\<rparr>),
     (''fs.stat'', \<lparr>fn = ''FsStat'', ctier = Observe, mutating = False\<rparr>),
     (''fs.mounts'', \<lparr>fn = ''FsMounts'', ctier = Observe, mutating = False\<rparr>),
     (''fs.hash'', \<lparr>fn = ''FsHash'', ctier = Observe, mutating = False\<rparr>),
     (''fs.freespace'', \<lparr>fn = ''FsFreeSpace'', ctier = Observe, mutating = False\<rparr>),
     (''fs.find'', \<lparr>fn = ''FsFind'', ctier = Observe, mutating = False\<rparr>),
     (''fs.grep'', \<lparr>fn = ''FsGrep'', ctier = Observe, mutating = False\<rparr>),
     (''save.list'', \<lparr>fn = ''SaveList'', ctier = Observe, mutating = False\<rparr>),
     (''save.mount'', \<lparr>fn = ''SaveMount'', ctier = Observe, mutating = False\<rparr>),
     (''save.unmount'', \<lparr>fn = ''SaveUnmount'', ctier = Observe, mutating = False\<rparr>),
     (''nand.read'', \<lparr>fn = ''NandRead'', ctier = Observe, mutating = False\<rparr>),
     (''album.list'', \<lparr>fn = ''AlbumList'', ctier = Observe, mutating = False\<rparr>),
     (''album.download'', \<lparr>fn = ''AlbumDownload'', ctier = Observe, mutating = False\<rparr>),
     (''i2c.read'', \<lparr>fn = ''I2cRead'', ctier = Observe, mutating = False\<rparr>),
     (''gpio.read'', \<lparr>fn = ''GpioRead'', ctier = Observe, mutating = False\<rparr>),
     (''cheat.status'', \<lparr>fn = ''CheatStatus'', ctier = Observe, mutating = False\<rparr>),
     (''cheat.list'', \<lparr>fn = ''CheatList'', ctier = Observe, mutating = False\<rparr>),
     (''cheat.meta'', \<lparr>fn = ''CheatMeta'', ctier = Observe, mutating = False\<rparr>),
     (''cheat.mappings'', \<lparr>fn = ''CheatMappings'', ctier = Observe, mutating = False\<rparr>),
     (''cheat.read_mem'', \<lparr>fn = ''CheatReadMem'', ctier = Observe, mutating = False\<rparr>),
     (''search.begin'', \<lparr>fn = ''SearchBegin'', ctier = Observe, mutating = False\<rparr>),
     (''search.next'', \<lparr>fn = ''SearchNext'', ctier = Observe, mutating = False\<rparr>),
     (''search.results'', \<lparr>fn = ''SearchResults'', ctier = Observe, mutating = False\<rparr>),
     (''search.reset'', \<lparr>fn = ''SearchReset'', ctier = Observe, mutating = False\<rparr>),
     (''input'', \<lparr>fn = ''Input'', ctier = Control, mutating = False\<rparr>),
     (''touch'', \<lparr>fn = ''Touch'', ctier = Control, mutating = False\<rparr>),
     (''type_text'', \<lparr>fn = ''TypeText'', ctier = Control, mutating = False\<rparr>),
     (''launch'', \<lparr>fn = ''Launch'', ctier = Control, mutating = True\<rparr>),
     (''terminate'', \<lparr>fn = ''Terminate'', ctier = Control, mutating = True\<rparr>),
     (''reboot'', \<lparr>fn = ''Reboot'', ctier = Control, mutating = True\<rparr>),
     (''shutdown'', \<lparr>fn = ''Shutdown'', ctier = Control, mutating = True\<rparr>),
     (''agent.restart'', \<lparr>fn = ''AgentRestart'', ctier = Control, mutating = True\<rparr>),
     (''set_brightness'', \<lparr>fn = ''SetBrightness'', ctier = Control, mutating = True\<rparr>),
     (''set_auto_brightness'', \<lparr>fn = ''SetAutoBrightness'', ctier = Control, mutating = True\<rparr>),
     (''set_volume'', \<lparr>fn = ''SetVolume'', ctier = Control, mutating = True\<rparr>),
     (''set_sleep'', \<lparr>fn = ''SetSleep'', ctier = Control, mutating = True\<rparr>),
     (''set_time'', \<lparr>fn = ''SetTime'', ctier = Control, mutating = True\<rparr>),
     (''set_wireless'', \<lparr>fn = ''SetWireless'', ctier = Control, mutating = True\<rparr>),
     (''fs.write'', \<lparr>fn = ''FsWrite'', ctier = Control, mutating = True\<rparr>),
     (''fs.delete'', \<lparr>fn = ''FsDelete'', ctier = Control, mutating = True\<rparr>),
     (''fs.mkdir'', \<lparr>fn = ''FsMkdir'', ctier = Control, mutating = True\<rparr>),
     (''fs.rename'', \<lparr>fn = ''FsRename'', ctier = Control, mutating = True\<rparr>),
     (''fs.copy'', \<lparr>fn = ''FsCopy'', ctier = Control, mutating = True\<rparr>),
     (''save.backup'', \<lparr>fn = ''BackupSave'', ctier = Control, mutating = True\<rparr>),
     (''debug.attach'', \<lparr>fn = ''DebugAttach'', ctier = Control, mutating = True\<rparr>),
     (''debug.detach'', \<lparr>fn = ''DebugDetach'', ctier = Control, mutating = True\<rparr>),
     (''debug.continue'', \<lparr>fn = ''DebugContinue'', ctier = Control, mutating = True\<rparr>),
     (''debug.break'', \<lparr>fn = ''DebugBreak'', ctier = Control, mutating = True\<rparr>),
     (''debug.poll_events'', \<lparr>fn = ''DebugPollEvents'', ctier = Control, mutating = False\<rparr>),
     (''debug.read_mem'', \<lparr>fn = ''DebugReadMem'', ctier = Control, mutating = False\<rparr>),
     (''debug.memmap'', \<lparr>fn = ''DebugMemMap'', ctier = Control, mutating = False\<rparr>),
     (''debug.threads'', \<lparr>fn = ''DebugThreads'', ctier = Control, mutating = False\<rparr>),
     (''debug.registers'', \<lparr>fn = ''DebugRegisters'', ctier = Control, mutating = False\<rparr>),
     (''debug.search'', \<lparr>fn = ''DebugSearch'', ctier = Control, mutating = False\<rparr>),
     (''debug.modules'', \<lparr>fn = ''DebugModules'', ctier = Observe, mutating = False\<rparr>),
     (''debug.backtrace'', \<lparr>fn = ''DebugBacktrace'', ctier = Control, mutating = False\<rparr>),
     (''cheat.toggle'', \<lparr>fn = ''CheatToggle'', ctier = Control, mutating = True\<rparr>),
     (''debug.set_watchpoint'', \<lparr>fn = ''DebugSetWatchpoint'', ctier = Control, mutating = True\<rparr>),
     (''debug.set_breakpoint'', \<lparr>fn = ''DebugSetBreakpoint'', ctier = Control, mutating = True\<rparr>),
     (''debug.clear_breakpoint'', \<lparr>fn = ''DebugClearBreakpoint'', ctier = Control, mutating = True\<rparr>),
     (''save.restore'', \<lparr>fn = ''RestoreSave'', ctier = Invasive, mutating = True\<rparr>),
     (''uninstall'', \<lparr>fn = ''Uninstall'', ctier = Invasive, mutating = True\<rparr>),
     (''reboot_to_payload'', \<lparr>fn = ''RebootToPayload'', ctier = Invasive, mutating = True\<rparr>),
     (''set_clocks'', \<lparr>fn = ''SetClocks'', ctier = Invasive, mutating = True\<rparr>),
     (''debug.write_mem'', \<lparr>fn = ''DebugWriteMem'', ctier = Invasive, mutating = True\<rparr>),
     (''debug.write_registers'', \<lparr>fn = ''DebugWriteRegisters'', ctier = Invasive, mutating = True\<rparr>),
     (''debug.set_hwbp_raw'', \<lparr>fn = ''DebugSetHwBpRaw'', ctier = Invasive, mutating = True\<rparr>),
     (''cheat.write_mem'', \<lparr>fn = ''CheatWriteMem'', ctier = Invasive, mutating = True\<rparr>),
     (''cheat.freeze'', \<lparr>fn = ''FreezeAddress'', ctier = Invasive, mutating = True\<rparr>),
     (''cheat.unfreeze'', \<lparr>fn = ''UnfreezeAddress'', ctier = Invasive, mutating = True\<rparr>),
     (''i2c.write'', \<lparr>fn = ''I2cWrite'', ctier = Invasive, mutating = True\<rparr>)]"

text \<open>\<^verbatim>\<open>std::map\<close> built from the initialiser list: iterated in the order of the names.\<close>

definition Dispatch :: "command smap" where
  "Dispatch = fold (\<lambda>(k, c). smap_put k c) command_table []"

section \<open>Replies\<close>

definition error_json :: "string \<Rightarrow> string \<Rightarrow> json" where
  "error_json ecode message =
     set_field ''message'' (JStr message) (set_field ''code'' (JStr ecode) empty_object)"

text \<open>\<^verbatim>\<open>Fail\<close> replaces the whole reply. The overload for \<^verbatim>\<open>std::string\<close> passes \<^verbatim>\<open>c_str()\<close> on.\<close>

definition Fail :: "string \<Rightarrow> string \<Rightarrow> bool \<times> reply" where
  "Fail ecode message =
     (False, \<lparr>reply_json = set_field ''error'' (error_json ecode message) empty_object,
              reply_out = []\<rparr>)"

definition FailS :: "string \<Rightarrow> string \<Rightarrow> bool \<times> reply" where
  "FailS ecode message = Fail ecode (c_str message)"

text \<open>A handler's own reply: the fields it sets, in order, and the trailer.\<close>

definition json_fields :: "(string \<times> json) list \<Rightarrow> json" where
  "json_fields kvs = fold (\<lambda>(k, v). set_field k v) kvs empty_object"

definition success_out :: "(string \<times> json) list \<Rightarrow> byte list \<Rightarrow> bool \<times> reply" where
  "success_out kvs out = (True, \<lparr>reply_json = json_fields kvs, reply_out = out\<rparr>)"

definition success :: "(string \<times> json) list \<Rightarrow> bool \<times> reply" where
  "success kvs = success_out kvs []"

definition IsDryRun :: "request \<Rightarrow> bool" where
  "IsDryRun req \<longleftrightarrow> as_bool False (arg req ''dry_run'') \<or> as_int 0 (arg req ''dry_run'') = 1"

section \<open>Capability check\<close>

fun TierName :: "tier \<Rightarrow> string" where
  "TierName Observe = ''observe''"
| "TierName Control = ''control''"
| "TierName Invasive = ''invasive''"

definition quoted :: "string \<Rightarrow> string" where
  "quoted s = CHR 0x27 # s @ [CHR 0x27]"

text \<open>\<^verbatim>\<open>None\<close> lets the command through; otherwise the refusal.\<close>

definition CheckTier :: "string \<Rightarrow> command \<Rightarrow> agent_config \<Rightarrow> (bool \<times> reply) option" where
  "CheckTier cmd c cfg =
     (if tier_int (ctier c) > tier_int (cfg_tier cfg) then
        Some (FailS ''tier_denied''
          (quoted cmd @ '' requires tier='' @ TierName (ctier c) @
           '' but the agent is configured for tier='' @ TierName (cfg_tier cfg) @
           ''. Raise `tier` in sd:/config/switch-agentd/config.ini and restart the agent.''))
      else if (cmd = ''i2c.write'' \<or> cmd = ''gpio.read'' \<or> cmd = ''i2c.read'') \<and> \<not> allow_hardware cfg
      then Some (Fail ''disabled'' ''raw hardware bus access requires allow_hardware=true in config'')
      else if cmd = ''set_clocks'' \<and> \<not> allow_overclock cfg
      then Some (Fail ''disabled'' ''clock control requires allow_overclock=true in config'')
      else if (cmd = ''uninstall'' \<or> cmd = ''save.restore'') \<and> \<not> allow_nand_write cfg
      then Some (FailS ''disabled''
        (quoted cmd @ '' writes to NAND and requires allow_nand_write=true in config''))
      else None)"

text \<open>The comparison accumulates the differences of all bytes.\<close>

definition SecureEqual :: "string \<Rightarrow> string \<Rightarrow> bool" where
  "SecureEqual a b \<longleftrightarrow>
     length a = length b \<and>
     fold (\<lambda>(x, y) diff. diff OR (byte_of x XOR byte_of y)) (zip a b) (0 :: byte) = 0"

section \<open>Outside the server\<close>

text \<open>
  A handler is entered with a fresh \<^verbatim>\<open>Reply\<close>, so it is a function from the request and the
  world to its result, its reply and the next world.
\<close>

datatype call =
    Ran string bool
  | Journaled string bool
  | Slept nat
  | WatchdogConnected
  | VpadReleased

record 'w platform =
  run_handler :: "string \<Rightarrow> request \<Rightarrow> 'w \<Rightarrow> (bool \<times> reply) \<times> 'w"
  journal_append :: "string \<Rightarrow> bool \<Rightarrow> 'w \<Rightarrow> 'w"
  watchdog_on_connect :: "'w \<Rightarrow> 'w"
  vpad_release :: "'w \<Rightarrow> 'w"
  random_get :: "nat \<Rightarrow> 'w \<Rightarrow> byte list \<times> 'w"
  hmac_sha256 :: "string \<Rightarrow> string \<Rightarrow> byte list"
  fw_version :: "'w \<Rightarrow> byte \<times> byte \<times> byte"

record 'w server =
  sconn :: conn
  world :: 'w
  calls :: "call list"

definition on_conn :: "(conn \<Rightarrow> 'a \<times> conn) \<Rightarrow> 'w server \<Rightarrow> 'a \<times> 'w server" where
  "on_conn f s = (let (r, c) = f (sconn s) in (r, s\<lparr>sconn := c\<rparr>))"

definition recv_timeout_to :: "nat \<Rightarrow> 'w server \<Rightarrow> 'w server" where
  "recv_timeout_to n s = s\<lparr>sconn := SetRecvTimeout n (sconn s)\<rparr>"

definition called :: "call \<Rightarrow> ('w \<Rightarrow> 'w) \<Rightarrow> 'w server \<Rightarrow> 'w server" where
  "called k f s = s\<lparr>world := f (world s), calls := calls s @ [k]\<rparr>"

section \<open>Authentication\<close>

definition challenge_json :: "i64 \<Rightarrow> string \<Rightarrow> json" where
  "challenge_json hello_id nonce_hex =
     set_field ''algo'' (JStr ''hmac-sha256'')
       (set_field ''challenge'' (JStr nonce_hex)
          (set_field ''id'' (JInt hello_id) empty_object))"

definition rejected_json :: "i64 \<Rightarrow> json" where
  "rejected_json hello_id =
     set_field ''error'' (error_json ''auth'' ''invalid credentials'')
       (set_field ''id'' (JInt hello_id) empty_object)"

text \<open>The commands the hello reply advertises, in the order of the map.\<close>

definition advertised :: "agent_config \<Rightarrow> string list" where
  "advertised cfg = map fst (filter (\<lambda>(k, c). tier_int (ctier c) \<le> tier_int (cfg_tier cfg)) Dispatch)"

definition fw_text :: "byte \<times> byte \<times> byte \<Rightarrow> string" where
  "fw_text v = (case v of (a, b, c) \<Rightarrow>
     dec_nat (unat a) @ ''.'' @ dec_nat (unat b) @ ''.'' @ dec_nat (unat c))"

definition welcome_json :: "agent_config \<Rightarrow> byte \<times> byte \<times> byte \<Rightarrow> i64 \<Rightarrow> json" where
  "welcome_json cfg fw rid =
     set_field ''commands'' (JArr (map JStr (advertised cfg)))
    (set_field ''allow_hardware'' (JBool (allow_hardware cfg))
    (set_field ''allow_overclock'' (JBool (allow_overclock cfg))
    (set_field ''allow_nand_write'' (JBool (allow_nand_write cfg))
    (set_field ''emummc'' (JBool (is_emummc cfg))
    (set_field ''tier'' (JStr (TierName (cfg_tier cfg)))
    (set_field ''fw'' (JStr (fw_text fw))
    (set_field ''protocol_version'' (JInt 1)
    (set_field ''agent_version'' (JStr ''0.2.0'')
    (set_field ''ok'' (JBool True)
    (set_field ''id'' (JInt rid) empty_object))))))))))"

text \<open>
  The second round: the nonce goes out, the answer is checked against the MAC the agent computes
  itself. \<^verbatim>\<open>None\<close> where the connection is given up before a verdict; otherwise the verdict and the
  frame whose \<^verbatim>\<open>id\<close> the reply takes.
\<close>

definition hmac_round ::
  "'w platform \<Rightarrow> agent_config \<Rightarrow> i64 \<Rightarrow> 'w server \<Rightarrow> (bool \<times> json) option \<times> 'w server" where
  "hmac_round P cfg hello_id s =
     (let (nonce, w) = random_get P 32 (world s);
          s = s\<lparr>world := w\<rparr>;
          nonce_hex = hex_bytes nonce;
          (sent_ok, s) = on_conn (WriteFrame (challenge_json hello_id nonce_hex) []) s
      in if \<not> sent_ok then (None, s)
         else let (r, s) = on_conn ReadFrame s
         in case r of
              FrameOk resp rp \<Rightarrow>
                let presented = as_string [] (idx resp ''hmac'');
                    authed = (cfg_token cfg \<noteq> [] \<and> length presented = 64 \<and>
                              SecureEqual presented (hex_bytes (hmac_sha256 P (cfg_token cfg) nonce_hex)))
                in (Some (authed, resp), s)
            | _ \<Rightarrow> (None, s))"

definition auth_verdict ::
  "'w platform \<Rightarrow> agent_config \<Rightarrow> json \<Rightarrow> 'w server \<Rightarrow> (bool \<times> json \<times> i64) option \<times> 'w server" where
  "auth_verdict P cfg msg s =
     (let hello_id = as_int 0 (idx msg ''id'')
      in if as_string [] (idx msg ''auth'') = ''hmac'' then
           (case hmac_round P cfg hello_id s of
              (None, s) \<Rightarrow> (None, s)
            | (Some (authed, resp), s) \<Rightarrow>
                (Some (authed, resp, as_int hello_id (idx resp ''id'')), s))
         else if \<not> require_hmac_auth cfg then
           (Some (cfg_token cfg \<noteq> [] \<and> SecureEqual (as_string [] (idx msg ''token'')) (cfg_token cfg),
                  msg, hello_id), s)
         else (Some (False, msg, hello_id), s))"

definition Authenticate :: "'w platform \<Rightarrow> agent_config \<Rightarrow> 'w server \<Rightarrow> bool \<times> 'w server" where
  "Authenticate P cfg s =
     (let s = recv_timeout_to kIoTimeoutSec s;
          (r, s) = on_conn ReadFrame s
      in case r of
           FrameOk msg payload \<Rightarrow>
             if as_string [] (idx msg ''cmd'') \<noteq> ''hello''
             then (False, recv_timeout_to kIdleTimeoutSec s)
             else (case auth_verdict P cfg msg s of
                     (None, s) \<Rightarrow> (False, recv_timeout_to kIdleTimeoutSec s)
                   | (Some (authed, m, hello_id), s) \<Rightarrow>
                       let s = recv_timeout_to kIdleTimeoutSec s
                       in if \<not> authed then
                            let s = called (Slept 2000000000) id s;
                                (_, s) = on_conn (WriteFrame (rejected_json hello_id) []) s
                            in (False, s)
                          else
                            let (sent_ok, s) = on_conn (WriteFrame
                                  (welcome_json cfg (fw_version P (world s)) (as_int 0 (idx m ''id''))) []) s
                            in if \<not> sent_ok then (False, s)
                               else (True, called WatchdogConnected (watchdog_on_connect P) s))
         | _ \<Rightarrow> (False, recv_timeout_to kIdleTimeoutSec s))"

section \<open>One request\<close>

definition preview :: "string \<Rightarrow> command \<Rightarrow> reply" where
  "preview cmd c =
     new_reply\<lparr>reply_json :=
       set_field ''note'' (JStr ''not executed; re-send without dry_run to apply'')
      (set_field ''tier'' (JStr (TierName (ctier c)))
      (set_field ''would_run'' (JStr cmd)
      (set_field ''dry_run'' (JBool True) empty_object)))\<rparr>"

definition execute ::
  "'w platform \<Rightarrow> agent_config \<Rightarrow> json \<Rightarrow> byte list \<Rightarrow> 'w server \<Rightarrow> reply \<times> 'w server" where
  "execute P cfg msg payload s =
     (let cmd = as_string [] (idx msg ''cmd'');
          req = \<lparr>req_msg = msg, req_payload = payload, req_cfg = cfg\<rparr>
      in case map_of Dispatch cmd of
           None \<Rightarrow> (snd (FailS ''unknown_command'' cmd), s)
         | Some c \<Rightarrow>
             (case CheckTier cmd c cfg of
                Some refusal \<Rightarrow> (snd refusal, s)
              | None \<Rightarrow>
                  if mutating c \<and> IsDryRun req then (preview cmd c, s)
                  else let ((ok, reply), w) = run_handler P (fn c) req (world s);
                           s = s\<lparr>world := w, calls := calls s @ [Ran cmd ok]\<rparr>
                       in (reply, if mutating c
                                  then called (Journaled cmd ok) (journal_append P cmd ok) s else s)))"

text \<open>The server adds the request's \<^verbatim>\<open>id\<close>, and \<^verbatim>\<open>bin\<close> where there is a trailer.\<close>

definition finish_reply :: "i64 \<Rightarrow> reply \<Rightarrow> json" where
  "finish_reply rid reply =
     (let j = set_field ''id'' (JInt rid) (reply_json reply)
      in if reply_out reply \<noteq> []
         then set_field ''bin'' (JInt (word_of_nat (length (reply_out reply)))) j else j)"

definition serve_request ::
  "'w platform \<Rightarrow> agent_config \<Rightarrow> json \<Rightarrow> byte list \<Rightarrow> 'w server \<Rightarrow> bool \<times> 'w server" where
  "serve_request P cfg msg payload s =
     (let (reply, s) = execute P cfg msg payload s
      in on_conn (WriteFrame (finish_reply (as_int 0 (idx msg ''id'')) reply) (reply_out reply)) s)"

section \<open>The connection loop\<close>

definition kMaxIdleTimeouts :: nat where "kMaxIdleTimeouts = 10"

definition conn_size :: "conn \<Rightarrow> nat" where
  "conn_size c = sum_list (map event_size (rx c))"

abbreviation script_size :: "rx_event list \<Rightarrow> nat" where
  "script_size es \<equiv> sum_list (map event_size es)"

lemma ReadExactEx_size:
  "ReadExactEx n buf es = (r, out, es') \<Longrightarrow>
   script_size es' \<le> script_size es \<and>
   (r \<noteq> Closed \<longrightarrow> length buf < n \<longrightarrow> script_size es' < script_size es)"
proof (induction n buf es arbitrary: r out es' rule: ReadExactEx.induct)
  case (1 n buf es)
  show ?case
  proof (cases "n \<le> length buf")
    case True
    then show ?thesis using "1.prems" by (simp add: ReadExactEx.simps [of n buf es])
  next
    case more: False
    show ?thesis
    proof (cases es)
      case Nil
      then show ?thesis using "1.prems" more by (simp add: ReadExactEx.simps [of n buf "[]"])
    next
      case (Cons e us)
      show ?thesis
      proof (cases e)
        case (RxData bs)
        show ?thesis
        proof (cases "bs = []")
          case True
          then show ?thesis using "1.prems" more Cons RxData
            by (simp add: ReadExactEx.simps [of n buf "RxData [] # us"])
        next
          case False
          let ?k = "min (n - length buf) (length bs)"
          let ?rest = "if ?k = length bs then us else RxData (drop ?k bs) # us"
          have "ReadExactEx n (buf @ take ?k bs) ?rest = (r, out, es')"
            using "1.prems" more False unfolding Cons RxData
            by (subst (asm) ReadExactEx.simps) (simp add: Let_def)
          then have "script_size es' \<le> script_size ?rest"
            using "1.IH"(1) [OF more Cons RxData False refl] by blast
          moreover have "script_size ?rest < script_size es"
            using more False Cons RxData by auto
          ultimately show ?thesis by simp
        qed
      next
        case RxEintr
        have "ReadExactEx n buf us = (r, out, es')"
          using "1.prems" more Cons RxEintr by (simp add: ReadExactEx.simps [of n buf "RxEintr # us"])
        then show ?thesis using "1.IH"(2) [OF more Cons RxEintr] Cons RxEintr by auto
      next
        case RxAgain
        then show ?thesis using "1.prems" more Cons
          by (auto simp: ReadExactEx.simps [of n buf "RxAgain # us"])
      next
        case RxErr
        then show ?thesis using "1.prems" more Cons
          by (auto simp: ReadExactEx.simps [of n buf "RxErr # us"])
      qed
    qed
  qed
qed

lemma ReadExact_size: "ReadExact n es = Some (b, es') \<Longrightarrow> script_size es' \<le> script_size es"
  using ReadExactEx_size [of n "[]" es] by (auto simp: ReadExact_def split: prod.splits io_result.splits)

lemma read_body_size: "read_body jlen es = Some (x, es') \<Longrightarrow> script_size es' \<le> script_size es"
  unfolding read_body_def
  by (auto simp: Let_def dest!: ReadExact_size split: if_splits option.splits)

lemma ReadFrame_size:
  "ReadFrame c = (r, c') \<Longrightarrow> r \<noteq> FrameClosed \<Longrightarrow> conn_size c' < conn_size c"
proof -
  assume r: "ReadFrame c = (r, c')" "r \<noteq> FrameClosed"
  obtain io b es where e: "ReadExactEx 4 [] (rx c) = (io, b, es)" by (cases "ReadExactEx 4 [] (rx c)")
  with r have "io \<noteq> Closed" by (auto simp: ReadFrame_def)
  then have "script_size es < script_size (rx c)" using ReadExactEx_size [OF e] by simp
  moreover have "script_size (rx c') \<le> script_size es"
    using r e \<open>io \<noteq> Closed\<close>
    by (cases io) (auto simp: ReadFrame_def Let_def SetRecvTimeout_def dest: read_body_size split: option.splits)
  ultimately show ?thesis by (simp add: conn_size_def)
qed

lemma WriteFrame_rx: "rx (snd (WriteFrame msg p c)) = rx c"
  using send_all_delivers
  by (cases "WriteFrame msg p c") (auto simp: WriteFrame_def Let_def simp del: send_all.simps)

lemma execute_sconn: "sconn (snd (execute P cfg msg p s)) = sconn s"
  by (auto simp: execute_def Let_def called_def split: option.split prod.split)

lemma serve_request_size: "conn_size (sconn (snd (serve_request P cfg msg p s))) = conn_size (sconn s)"
  using execute_sconn [of P cfg msg p s] WriteFrame_rx
  by (auto simp: serve_request_def on_conn_def conn_size_def Let_def split: prod.split)
     (metis snd_conv)

lemma serve_request_size':
  "(r, s') = serve_request P cfg msg p s \<Longrightarrow> conn_size (sconn s') = conn_size (sconn s)"
  using serve_request_size [of P cfg msg p s] by (metis snd_conv)

function serve_loop :: "'w platform \<Rightarrow> agent_config \<Rightarrow> nat \<Rightarrow> 'w server \<Rightarrow> 'w server" where
  "serve_loop P cfg idle s =
     (case on_conn ReadFrame s of
        (FrameTimeout, s) \<Rightarrow>
          if Suc idle \<ge> kMaxIdleTimeouts then s else serve_loop P cfg (Suc idle) s
      | (FrameClosed, s) \<Rightarrow> s
      | (FrameOk msg payload, s) \<Rightarrow>
          (case serve_request P cfg msg payload s of
             (True, s) \<Rightarrow> serve_loop P cfg 0 s
           | (False, s) \<Rightarrow> s))"
  by pat_completeness auto
termination
proof (relation "measure (\<lambda>(P, cfg, idle, s). conn_size (sconn s))", goal_cases)
  case (2 P cfg idle s)
  then show ?case using ReadFrame_size [of "sconn s"]
    by (auto simp: on_conn_def dest!: serve_request_size' split: prod.splits)
next
  case (3 P cfg idle s)
  then show ?case using ReadFrame_size [of "sconn s"] by (auto simp: on_conn_def split: prod.splits)
qed simp

declare serve_loop.simps [simp del]

definition ServeConnection :: "'w platform \<Rightarrow> agent_config \<Rightarrow> 'w server \<Rightarrow> 'w server" where
  "ServeConnection P cfg s =
     (case Authenticate P cfg s of
        (False, s) \<Rightarrow> s
      | (True, s) \<Rightarrow> called VpadReleased (vpad_release P) (serve_loop P cfg 0 s))"

section \<open>What holds along a connection\<close>

lemma serve_request_unfold:
  "serve_request P cfg msg p s =
     (let (reply, s1) = execute P cfg msg p s;
          (r, c) = WriteFrame (finish_reply (as_int 0 (idx msg ''id'')) reply) (reply_out reply) (sconn s1)
      in (r, s1\<lparr>sconn := c\<rparr>))"
  by (simp add: serve_request_def on_conn_def Let_def split: prod.split)

lemma serve_loop_invariant:
  assumes "I s"
    and conn: "\<And>s c. I s \<Longrightarrow> I (s\<lparr>sconn := c\<rparr>)"
    and exec: "\<And>s msg p. I s \<Longrightarrow> I (snd (execute P cfg msg p s))"
  shows "I (serve_loop P cfg idle s)"
  using assms(1)
proof (induction "conn_size (sconn s)" arbitrary: idle s rule: less_induct)
  case less
  have req: "I (snd (serve_request P cfg msg p s))" if "I s" for msg p s
    using exec [OF that, of msg p] conn
    by (auto simp: serve_request_unfold Let_def split: prod.split)
  obtain r s1 where r: "on_conn ReadFrame s = (r, s1)" by (cases "on_conn ReadFrame s")
  then have I1: "I s1" and sz: "r \<noteq> FrameClosed \<Longrightarrow> conn_size (sconn s1) < conn_size (sconn s)"
    using less.prems conn ReadFrame_size [of "sconn s"] by (auto simp: on_conn_def split: prod.splits)
  show ?case
  proof (cases r)
    case (FrameOk msg p)
    obtain ok s2 where s2: "serve_request P cfg msg p s1 = (ok, s2)"
      by (cases "serve_request P cfg msg p s1")
    then have "I s2" using req [OF I1, of msg p] by simp
    moreover have "conn_size (sconn s2) < conn_size (sconn s)"
      using sz FrameOk serve_request_size' [OF s2 [symmetric]] by simp
    ultimately show ?thesis
      using r s2 FrameOk less.hyps by (cases ok) (simp_all add: serve_loop.simps [of P cfg idle s])
  qed (use r I1 sz less.hyps in \<open>auto simp: serve_loop.simps [of P cfg idle s]\<close>)
qed

end
