(* ===== verification/ServerLaws.thy ===== *)
theory ServerLaws
  imports Server
begin

text \<open>
  What the dispatcher guarantees: which requests reach a handler, what is journaled, who gets past
  authentication, how long a silent client is kept, and what every reply looks like.
\<close>

section \<open>The command table\<close>

lemma command_table_distinct: "distinct (map fst command_table)"
  by (simp add: command_table_def)

lemma Dispatch_put_all: "Dispatch = str_map.put_all command_table []"
  by (simp add: Dispatch_def str_map.put_all_def)

lemma Dispatch_sorted: "smap_sorted Dispatch"
  unfolding Dispatch_put_all by (rule str_map.inv_put_all) simp

lemma Dispatch_lookup: "map_of Dispatch = map_of command_table"
proof -
  have "map_of Dispatch = map_of (rev command_table)"
    unfolding Dispatch_put_all by (subst str_map.get_put_all) simp_all
  also have "\<dots> = map_of command_table"
    using command_table_distinct by (subst map_of_inject_set) (simp_all flip: rev_map)
  finally show ?thesis .
qed

lemma Dispatch_mem: "(k, c) \<in> set Dispatch \<longleftrightarrow> map_of command_table k = Some c"
  using map_of_eq_Some_iff [OF smap_sorted_distinct [OF Dispatch_sorted]]
  by (simp flip: Dispatch_lookup)

section \<open>Which requests are executed\<close>

definition sub_gate :: "agent_config \<Rightarrow> string \<Rightarrow> bool" where
  "sub_gate cfg cmd \<longleftrightarrow>
     (cmd \<in> {''i2c.write'', ''i2c.read'', ''gpio.read''} \<longrightarrow> allow_hardware cfg) \<and>
     (cmd = ''set_clocks'' \<longrightarrow> allow_overclock cfg) \<and>
     (cmd \<in> {''uninstall'', ''save.restore''} \<longrightarrow> allow_nand_write cfg)"

definition permitted :: "agent_config \<Rightarrow> string \<Rightarrow> bool" where
  "permitted cfg cmd \<longleftrightarrow>
     (\<exists>c. (cmd, c) \<in> set command_table \<and> ctier c \<le> cfg_tier cfg) \<and> sub_gate cfg cmd"

definition is_mutating :: "string \<Rightarrow> bool" where
  "is_mutating cmd \<longleftrightarrow> (\<exists>c. (cmd, c) \<in> set command_table \<and> mutating c)"

lemma CheckTier_iff: "CheckTier cmd c cfg = None \<longleftrightarrow> ctier c \<le> cfg_tier cfg \<and> sub_gate cfg cmd"
  by (auto simp: CheckTier_def sub_gate_def less_eq_tier_def)

lemma table_mem: "(k, c) \<in> set command_table \<longleftrightarrow> map_of command_table k = Some c"
  using command_table_distinct by simp

definition the_command :: "json \<Rightarrow> string" where
  "the_command msg = as_string [] (idx msg ''cmd'')"

lemma CheckTier_refusal: "CheckTier cmd c cfg = Some r \<Longrightarrow> \<exists>e m. r = Fail e m"
proof -
  have F: "\<exists>e m. Fail a b = Fail e m" for a b by blast
  have "pred_option (\<lambda>r. \<exists>e m. r = Fail e m) (CheckTier cmd c cfg)"
    unfolding CheckTier_def FailS_def by (simp only: option.pred_inject F if_split simp_thms)
  moreover assume "CheckTier cmd c cfg = Some r"
  ultimately show ?thesis by simp
qed

text \<open>The three ways a request can go.\<close>

lemma execute_cases:
  fixes P :: "'w platform" and cfg msg p s
  defines "cmd \<equiv> the_command msg"
  defines "req \<equiv> \<lparr>req_msg = msg, req_payload = p, req_cfg = cfg\<rparr>"
  obtains (refused) e m where "\<not> permitted cfg cmd"
      "execute P cfg msg p s = (snd (Fail e m), s)"
  | (previewed) c where "permitted cfg cmd" "is_mutating cmd" "IsDryRun req"
      "(cmd, c) \<in> set command_table" "execute P cfg msg p s = (preview cmd c, s)"
  | (ran) c ok reply w where "permitted cfg cmd" "(cmd, c) \<in> set command_table"
      "\<not> (is_mutating cmd \<and> IsDryRun req)"
      "run_handler P (fn c) req (world s) = ((ok, reply), w)"
      "execute P cfg msg p s =
         (reply, s\<lparr>world := (if is_mutating cmd then journal_append P cmd ok w else w),
                   calls := calls s @ Ran cmd ok # (if is_mutating cmd then [Journaled cmd ok] else [])\<rparr>)"
proof (cases "map_of command_table cmd")
  case None
  then have "\<not> permitted cfg cmd" by (simp add: permitted_def table_mem)
  moreover have "execute P cfg msg p s = (snd (Fail ''unknown_command'' (c_str cmd)), s)"
    using None by (simp add: execute_def Dispatch_lookup cmd_def the_command_def FailS_def Let_def)
  ultimately show ?thesis by (rule refused)
next
  case (Some c)
  then have mem: "(cmd, c) \<in> set command_table" by (simp add: table_mem)
  have perm: "permitted cfg cmd \<longleftrightarrow> ctier c \<le> cfg_tier cfg \<and> sub_gate cfg cmd"
    using Some by (simp add: permitted_def table_mem)
  have mut: "is_mutating cmd \<longleftrightarrow> mutating c" using Some by (simp add: is_mutating_def table_mem)
  show ?thesis
  proof (cases "CheckTier cmd c cfg")
    case None
    then have "permitted cfg cmd" using perm CheckTier_iff by blast
    show ?thesis
    proof (cases "mutating c \<and> IsDryRun req")
      case True
      have "execute P cfg msg p s = (preview cmd c, s)"
        using Some None True
        by (simp add: execute_def Dispatch_lookup cmd_def the_command_def req_def Let_def)
      then show ?thesis using previewed True mut mem \<open>permitted cfg cmd\<close> by blast
    next
      case False
      obtain ok reply w where h: "run_handler P (fn c) req (world s) = ((ok, reply), w)"
        by (metis prod.collapse)
      have "execute P cfg msg p s =
         (reply, s\<lparr>world := (if is_mutating cmd then journal_append P cmd ok w else w),
                   calls := calls s @ Ran cmd ok # (if is_mutating cmd then [Journaled cmd ok] else [])\<rparr>)"
        using Some None False h mut
        by (auto simp add: execute_def Dispatch_lookup cmd_def the_command_def req_def called_def Let_def)
      then show ?thesis using ran False mut mem \<open>permitted cfg cmd\<close> h by blast
    qed
  next
    case (Some refusal)
    then have "\<not> permitted cfg cmd" using perm CheckTier_iff [of cmd c cfg] by simp
    moreover obtain e m where "refusal = Fail e m" using CheckTier_refusal [OF Some] by blast
    moreover have "execute P cfg msg p s = (snd refusal, s)"
      using Some \<open>map_of command_table cmd = Some c\<close>
      by (simp add: execute_def Dispatch_lookup cmd_def the_command_def Let_def)
    ultimately show ?thesis using refused by blast
  qed
qed

section \<open>The trace of a connection\<close>

fun well_journaled :: "call list \<Rightarrow> bool" where
  "well_journaled [] = True"
| "well_journaled (Ran cmd ok # cs) =
     ((is_mutating cmd \<longrightarrow> (\<exists>ds. cs = Journaled cmd ok # ds)) \<and> well_journaled cs)"
| "well_journaled (_ # cs) = well_journaled cs"

lemma well_journaled_append: "well_journaled a \<Longrightarrow> well_journaled b \<Longrightarrow> well_journaled (a @ b)"
  by (induction a rule: well_journaled.induct) auto

definition only_permitted :: "agent_config \<Rightarrow> call list \<Rightarrow> bool" where
  "only_permitted cfg cs \<longleftrightarrow> (\<forall>cmd ok. Ran cmd ok \<in> set cs \<longrightarrow> permitted cfg cmd)"

lemma execute_trace:
  "\<exists>cs. calls (snd (execute P cfg msg p s)) = calls s @ cs \<and> only_permitted cfg cs \<and> well_journaled cs"
  by (cases rule: execute_cases [where P = P and cfg = cfg and msg = msg and p = p and s = s])
     (auto simp: only_permitted_def)

definition good_trace :: "agent_config \<Rightarrow> call list \<Rightarrow> bool" where
  "good_trace cfg cs \<longleftrightarrow> only_permitted cfg cs \<and> well_journaled cs"

lemma execute_good:
  assumes "good_trace cfg (calls s)"
  shows "good_trace cfg (calls (snd (execute P cfg msg p s)))"
proof -
  obtain cs where "calls (snd (execute P cfg msg p s)) = calls s @ cs" "only_permitted cfg cs" "well_journaled cs"
    using execute_trace by blast
  then show ?thesis using assms by (auto simp: good_trace_def only_permitted_def well_journaled_append)
qed

lemma serve_loop_good:
  "good_trace cfg (calls s) \<Longrightarrow> good_trace cfg (calls (serve_loop P cfg idle s))"
  by (rule serve_loop_invariant [where I = "\<lambda>s. good_trace cfg (calls s)"])
     (simp_all add: execute_good)

section \<open>Comparing secrets\<close>

lemma or_eq_0: "(a OR b = 0) \<longleftrightarrow> a = 0 \<and> b = (0 :: byte)"
  by (simp add: or_eq_0_iff)

lemma byte_of_inject: "byte_of a = byte_of b \<longleftrightarrow> a = b"
  by (metis chr_of_byte_of)

lemma xor_bytes_0: "byte_of a XOR byte_of b = 0 \<longleftrightarrow> a = b"
proof
  assume "byte_of a XOR byte_of b = 0"
  then have "byte_of a XOR (byte_of a XOR byte_of b) = byte_of a" by simp
  then have "byte_of a = byte_of b" by (simp flip: xor.assoc)
  then show "a = b" by (simp add: byte_of_inject)
qed simp

lemma differences_0:
  "fold (\<lambda>(x, y) diff. diff OR (byte_of x XOR byte_of y)) (zip a b) d = 0 \<longleftrightarrow>
   d = 0 \<and> (\<forall>(x, y) \<in> set (zip a b). x = y)"
proof (induction a arbitrary: b d)
  case (Cons x a)
  then show ?case by (cases b) (auto simp: or_eq_0 xor_bytes_0)
qed simp

lemma SecureEqual_iff: "SecureEqual a b \<longleftrightarrow> a = b"
  by (auto simp: SecureEqual_def differences_0 list_eq_iff_zip_eq zip_same_conv_map)

section \<open>Authentication\<close>

lemma recv_timeout_to_simps [simp]:
  "calls (recv_timeout_to n s) = calls s" "world (recv_timeout_to n s) = world s"
  "sconn (recv_timeout_to n s) = (sconn s)\<lparr>rcv_timeout := n\<rparr>"
  by (simp_all add: recv_timeout_to_def SetRecvTimeout_def)

lemma on_conn_same:
  "on_conn f s = (r, s') \<Longrightarrow> calls s' = calls s \<and> world s' = world s"
  "on_conn f s = (r, s') \<longleftrightarrow> f (sconn s) = (r, sconn s') \<and> s' = s\<lparr>sconn := sconn s'\<rparr>"
  by (auto simp: on_conn_def split: prod.splits)

lemma hmac_round_same:
  assumes "hmac_round P cfg i s = (v, s')"
  shows "calls s' = calls s \<and> world s' \<in> {world s, snd (random_get P 32 (world s))}"
  using assms
  by (auto simp: hmac_round_def Let_def dest!: on_conn_same(1) split: prod.splits if_splits frame_result.splits)

lemma auth_verdict_same:
  assumes "auth_verdict P cfg msg s = (v, s')"
  shows "calls s' = calls s \<and> world s' \<in> {world s, snd (random_get P 32 (world s))}"
  using assms hmac_round_same
  by (fastforce simp: auth_verdict_def Let_def split: if_splits prod.splits option.splits)

text \<open>What the agent believes when it accepts: the verdict's evidence.\<close>

definition proves_token ::
  "'w platform \<Rightarrow> agent_config \<Rightarrow> json \<Rightarrow> conn \<Rightarrow> 'w \<Rightarrow> bool" where
  "proves_token P cfg msg c w0 \<longleftrightarrow>
     cfg_token cfg \<noteq> [] \<and>
     (if as_string [] (idx msg ''auth'') = ''hmac'' then
        \<exists>nonce w c2 resp rp c3.
          random_get P 32 (w0) = (nonce, w) \<and>
          WriteFrame (challenge_json (as_int 0 (idx msg ''id'')) (hex_bytes nonce)) [] c = (True, c2) \<and>
          ReadFrame c2 = (FrameOk resp rp, c3) \<and>
          as_string [] (idx resp ''hmac'') = hex_bytes (hmac_sha256 P (cfg_token cfg) (hex_bytes nonce))
      else \<not> require_hmac_auth cfg \<and> as_string [] (idx msg ''token'') = cfg_token cfg)"

lemma hmac_round_sound:
  assumes "hmac_round P cfg i s = (Some (True, resp), s')"
  shows "cfg_token cfg \<noteq> [] \<and> (\<exists>nonce w c2 rp c3.
          random_get P 32 (world s) = (nonce, w) \<and>
          WriteFrame (challenge_json i (hex_bytes nonce)) [] (sconn s) = (True, c2) \<and>
          ReadFrame c2 = (FrameOk resp rp, c3) \<and>
          as_string [] (idx resp ''hmac'') = hex_bytes (hmac_sha256 P (cfg_token cfg) (hex_bytes nonce)))"
  using assms
  by (auto simp: hmac_round_def Let_def on_conn_same(2) SecureEqual_iff
      split: prod.splits if_splits frame_result.splits)

lemma auth_verdict_sound:
  assumes "auth_verdict P cfg msg s = (Some (True, m, i), s')"
  shows "proves_token P cfg msg (sconn s) (world s)"
proof (cases "as_string [] (idx msg ''auth'') = ''hmac''")
  case True
  then obtain resp where "hmac_round P cfg (as_int 0 (idx msg ''id'')) s = (Some (True, resp), s')"
    using assms by (auto simp: auth_verdict_def Let_def split: prod.splits option.splits)
  from hmac_round_sound [OF this] True show ?thesis by (auto simp: proves_token_def)
next
  case False
  then show ?thesis using assms
    by (auto simp: auth_verdict_def proves_token_def SecureEqual_iff Let_def split: if_splits)
qed

lemma Authenticate_outcome:
  assumes "Authenticate P cfg s = (r, s')"
  shows "if r then calls s' = calls s @ [WatchdogConnected]
         else calls s' \<in> {calls s, calls s @ [Slept 2000000000]} \<and>
              world s' \<in> {world s, snd (random_get P 32 (world s))}"
proof -
  obtain f s1 where f: "on_conn ReadFrame (recv_timeout_to kIoTimeoutSec s) = (f, s1)"
    by (cases "on_conn ReadFrame (recv_timeout_to kIoTimeoutSec s)")
  note s1 = on_conn_same(1) [OF f, simplified]
  show ?thesis
  proof (cases f)
    case (FrameOk msg p)
    show ?thesis
    proof (cases "as_string [] (idx msg ''cmd'') = ''hello''")
      case True
      obtain v s2 where v: "auth_verdict P cfg msg s1 = (v, s2)" by (cases "auth_verdict P cfg msg s1")
      note s2 = auth_verdict_same [OF v]
      show ?thesis
        using assms f FrameOk True v s1 s2
        by (auto simp: Authenticate_def Let_def called_def dest!: on_conn_same(1)
            split: option.splits prod.splits if_splits)
    qed (use assms f FrameOk s1 in \<open>auto simp: Authenticate_def Let_def\<close>)
  qed (use assms f s1 in \<open>auto simp: Authenticate_def Let_def\<close>)
qed

lemma Authenticate_sound:
  assumes "Authenticate P cfg s = (True, s')"
  shows "\<exists>msg p c.
    ReadFrame (SetRecvTimeout kIoTimeoutSec (sconn s)) = (FrameOk msg p, c) \<and>
    as_string [] (idx msg ''cmd'') = ''hello'' \<and> proves_token P cfg msg c (world s)"
proof -
  obtain f c where f: "ReadFrame (SetRecvTimeout kIoTimeoutSec (sconn s)) = (f, c)"
    by (cases "ReadFrame (SetRecvTimeout kIoTimeoutSec (sconn s))")
  let ?s = "s\<lparr>sconn := c\<rparr>"
  have on: "on_conn ReadFrame (recv_timeout_to kIoTimeoutSec s) = (f, ?s)"
    using f by (simp add: on_conn_def recv_timeout_to_def)
  obtain msg p where fr: "f = FrameOk msg p"
    using assms on by (cases f) (auto simp: Authenticate_def Let_def)
  have hello: "as_string [] (idx msg ''cmd'') = ''hello''"
    using assms on fr by (auto simp: Authenticate_def Let_def split: if_splits)
  obtain v s2 where v: "auth_verdict P cfg msg ?s = (v, s2)" by (cases "auth_verdict P cfg msg ?s")
  obtain m i where "v = Some (True, m, i)"
    using assms on fr hello v
    by (auto simp: Authenticate_def Let_def split: option.splits prod.splits if_splits)
  then have "proves_token P cfg msg c (world s)" using v auth_verdict_sound [of P cfg msg ?s] by simp
  then show ?thesis using f fr hello by blast
qed

section \<open>Silence\<close>

lemma ReadFrame_again: "rx c = RxAgain # es \<Longrightarrow> ReadFrame c = (FrameTimeout, c\<lparr>rx := es\<rparr>)"
  by (simp add: ReadFrame_def ReadExactEx.simps [of 4 "[]" "RxAgain # es"])

lemma serve_loop_again:
  assumes "rx (sconn s) = RxAgain # es"
  shows "serve_loop P cfg idle s =
    (let s' = s\<lparr>sconn := (sconn s)\<lparr>rx := es\<rparr>\<rparr>
     in if Suc idle \<ge> kMaxIdleTimeouts then s' else serve_loop P cfg (Suc idle) s')"
  using ReadFrame_again [OF assms] by (simp add: serve_loop.simps [of P cfg idle s] on_conn_def Let_def)

lemma serve_loop_idle:
  "rx (sconn s) = replicate k RxAgain @ es \<Longrightarrow> idle + k < kMaxIdleTimeouts \<Longrightarrow>
   serve_loop P cfg idle s = serve_loop P cfg (idle + k) (s\<lparr>sconn := (sconn s)\<lparr>rx := es\<rparr>\<rparr>)"
proof (induction k arbitrary: idle s)
  case 0
  then have "es = rx (sconn s)" by simp
  then show ?case by (cases s; cases "sconn s") simp
next
  case (Suc k)
  let ?s = "s\<lparr>sconn := (sconn s)\<lparr>rx := replicate k RxAgain @ es\<rparr>\<rparr>"
  have "serve_loop P cfg idle s = serve_loop P cfg (Suc idle) ?s"
    using serve_loop_again [of s "replicate k RxAgain @ es" P cfg idle] Suc.prems by simp
  also have "\<dots> = serve_loop P cfg (Suc idle + k) (?s\<lparr>sconn := (sconn ?s)\<lparr>rx := es\<rparr>\<rparr>)"
    using Suc.prems by (intro Suc.IH) simp_all
  finally show ?case by simp
qed

lemma ReadExactEx_timeout:
  "ReadExactEx n buf es = (Timeout, out, es') \<Longrightarrow> stream es' = stream es \<and> buf = []"
proof (induction n buf es arbitrary: out es' rule: ReadExactEx.induct)
  case (1 n buf es)
  then have more: "\<not> n \<le> length buf" by (subst (asm) (3) ReadExactEx.simps) (auto split: if_splits)
  show ?case
  proof (cases es)
    case Nil
    then show ?thesis using "1.prems" more by (simp add: ReadExactEx.simps [of n buf "[]"])
  next
    case (Cons e us)
    show ?thesis
    proof (cases e)
      case (RxData bs)
      show ?thesis
      proof (cases "bs = []")
        case True
        then show ?thesis using "1.prems" more Cons RxData
          by (simp add: ReadExactEx.simps [of n buf "RxData [] # us"])
      next
        case False
        have "ReadExactEx n (buf @ take (min (n - length buf) (length bs)) bs)
            (if min (n - length buf) (length bs) = length bs then us
             else RxData (drop (min (n - length buf) (length bs)) bs) # us) = (Timeout, out, es')"
          using "1.prems" more False unfolding Cons RxData
          by (subst (asm) ReadExactEx.simps) (simp add: Let_def)
        then have "buf @ take (min (n - length buf) (length bs)) bs = []"
          using "1.IH"(1) [OF more Cons RxData False refl] by blast
        then show ?thesis using more False by (auto simp: min_def split: if_splits)
      qed
    next
      case RxEintr
      then show ?thesis
        using "1.IH"(2) [OF more Cons RxEintr] "1.prems" more Cons
        by (simp add: ReadExactEx.simps [of n buf "RxEintr # us"])
    next
      case RxAgain
      then show ?thesis using "1.prems" more Cons
        by (auto simp: ReadExactEx.simps [of n buf "RxAgain # us"] split: if_splits)
    next
      case RxErr
      then show ?thesis using "1.prems" more Cons
        by (simp add: ReadExactEx.simps [of n buf "RxErr # us"])
    qed
  qed
qed

lemma ReadFrame_timeout:
  assumes "ReadFrame c = (FrameTimeout, c')"
  shows "stream (rx c') = stream (rx c)" "c' = c\<lparr>rx := rx c'\<rparr>"
  using assms ReadExactEx_timeout [of 4 "[]" "rx c"]
  by (auto simp: ReadFrame_def Let_def split: prod.splits io_result.splits option.splits)

section \<open>Replies\<close>

text \<open>What makes a reply fit its frame.\<close>

definition reply_ok :: "reply \<Rightarrow> bool" where
  "reply_ok r \<longleftrightarrow> is_object (reply_json r) \<and> \<not> has (reply_json r) ''bin'' \<and>
     length (reply_out r) \<le> kMaxBinary"

text \<open>
  What every handler promises the dispatcher: a reply object without a \<^verbatim>\<open>bin\<close> field of its own
  and a trailer within the frame limit; where it fails, a structured error and no trailer.
\<close>

definition keeps_contract :: "bool \<times> reply \<Rightarrow> bool" where
  "keeps_contract r \<longleftrightarrow>
     reply_ok (snd r) \<and> (\<not> fst r \<longrightarrow> has (reply_json (snd r)) ''error'' \<and> reply_out (snd r) = [])"

locale command_handler =
  fixes h :: "request \<Rightarrow> 'w \<Rightarrow> (bool \<times> reply) \<times> 'w"
  assumes contract: "keeps_contract (fst (h req w))"

lemma sint_word_of_nat: "n \<le> kMaxBinary \<Longrightarrow> sint (word_of_nat n :: i64) = int n"
proof -
  assume "n \<le> kMaxBinary"
  then have "int n < 2 ^ 63" by (simp add: kMaxBinary_def)
  then show ?thesis by (simp add: signed_of_nat signed_take_bit_int_eq_self)
qed

lemma finish_reply_frame:
  assumes "reply_ok r"
  shows "bin_agrees (finish_reply i r) (reply_out r)" "idx (finish_reply i r) ''id'' = JInt i"
    "has (finish_reply i r) k \<longleftrightarrow>
       k = ''id'' \<or> has (reply_json r) k \<or> (k = ''bin'' \<and> reply_out r \<noteq> [])"
  using assms sint_word_of_nat [of "length (reply_out r)"]
  by (auto simp: finish_reply_def reply_ok_def bin_agrees_def bin_len_def Let_def)

context command_handler
begin

lemma handler_reply_ok: "reply_ok (snd (fst (h req w)))"
  using contract [of req w] by (simp add: keeps_contract_def)

lemma handler_failure_frame:
  assumes "\<not> fst (fst (h req w))"
  shows "has (finish_reply i (snd (fst (h req w)))) ''error''"
    "\<not> has (finish_reply i (snd (fst (h req w)))) ''bin''"
  using assms contract [of req w] finish_reply_frame(3) [OF handler_reply_ok [of req w]]
  by (auto simp: keeps_contract_def reply_ok_def)

end

lemma Fail_ok [simp]: "reply_ok (snd (Fail e m))"
  by (simp add: Fail_def reply_ok_def)

lemma Fail_contract [simp]: "keeps_contract (Fail e m)"
  by (simp add: keeps_contract_def Fail_def reply_ok_def)

lemma FailS_contract [simp]: "keeps_contract (FailS e m)"
  by (simp add: FailS_def)

text \<open>A successful reply: the fields in the order the handler sets them, and the trailer.\<close>

lemma has_fold_fields:
  "has (fold (\<lambda>(k, v). set_field k v) kvs j) k \<longleftrightarrow> k \<in> set (map fst kvs) \<or> has j k"
  by (induction kvs arbitrary: j) auto

lemma is_object_fields: "is_object j \<Longrightarrow> is_object (fold (\<lambda>(k, v). set_field k v) kvs j)"
  by (induction kvs arbitrary: j) auto

lemma has_fields [simp]: "has (json_fields kvs) k \<longleftrightarrow> k \<in> set (map fst kvs)"
  by (simp add: json_fields_def has_fold_fields)

lemma is_object_of_fields [simp]: "is_object (json_fields kvs)"
  by (simp add: json_fields_def is_object_fields)

lemma success_contract [simp]:
  "''bin'' \<notin> set (map fst kvs) \<Longrightarrow> length out \<le> kMaxBinary \<Longrightarrow> keeps_contract (success_out kvs out)"
  by (simp add: keeps_contract_def success_out_def reply_ok_def)

lemma success_plain_contract [simp]:
  "''bin'' \<notin> set (map fst kvs) \<Longrightarrow> keeps_contract (success kvs)"
  by (simp add: success_def)

text \<open>The contract of a handler's body, branch by branch.\<close>

lemma contract_branches:
  "keeps_contract (fst a) \<Longrightarrow> keeps_contract (fst b) \<Longrightarrow> keeps_contract (fst (if c then a else b))"
  "keeps_contract (fst a) \<Longrightarrow> (\<And>x. keeps_contract (fst (f x))) \<Longrightarrow>
     keeps_contract (fst (case v of None \<Rightarrow> a | Some x \<Rightarrow> f x))"
  "(\<And>x y. keeps_contract (fst (g x y))) \<Longrightarrow> keeps_contract (fst (case p of (x, y) \<Rightarrow> g x y))"
  "(\<And>x. keeps_contract (fst (l x))) \<Longrightarrow> (\<And>x. keeps_contract (fst (r x))) \<Longrightarrow>
     keeps_contract (fst (case u of Inl x \<Rightarrow> l x | Inr x \<Rightarrow> r x))"
  "keeps_contract q \<Longrightarrow> keeps_contract (fst (q, s))"
  by (simp_all split: option.split prod.split sum.split)

lemma preview_ok [simp]: "reply_ok (preview cmd c)"
  by (simp add: preview_def new_reply_def reply_ok_def)

lemma execute_reply_ok:
  assumes "\<And>f req w. reply_ok (snd (fst (run_handler P f req w)))"
  shows "reply_ok (fst (execute P cfg msg p s))"
  using assms
  by (cases rule: execute_cases [where P = P and cfg = cfg and msg = msg and p = p and s = s])
     (simp_all, metis fst_conv snd_conv)

section \<open>Properties\<close>

text \<open>A platform to evaluate on: every handler refuses, nothing else has an effect.\<close>

definition idle_platform :: "unit platform" where
  "idle_platform =
     \<lparr>run_handler = (\<lambda>f req w. (Fail ''failed'' f, w)), journal_append = (\<lambda>_ _ w. w),
      watchdog_on_connect = id, vpad_release = id, random_get = (\<lambda>n w. (replicate n 0, w)),
      hmac_sha256 = (\<lambda>k m. replicate 32 0), fw_version = (\<lambda>_. (1, 2, 3))\<rparr>"

definition idle_server :: "unit server" where
  "idle_server =
     \<lparr>sconn = \<lparr>rx = [], tx = [], sent = [], rcv_timeout = 30\<rparr>, world = (), calls = []\<rparr>"

text \<open>
  C3. Exactly which requests act. A handler is entered if and only if the command is in the table,
  its tier is within the configured one, its sub-gate (hardware, overclock, NAND) is open, and the
  request is not a dry run of a mutating command. Then its outcome is journaled directly after it
  exactly when the command mutates. In every other case the world and the call trace are
  untouched, and the reply is an error or the preview.
\<close>

theorem execute_exactly:
  "let cmd = the_command msg; req = \<lparr>req_msg = msg, req_payload = p, req_cfg = cfg\<rparr> in
    if permitted cfg cmd \<and> \<not> (is_mutating cmd \<and> IsDryRun req)
    then \<exists>c ok reply w. (cmd, c) \<in> set command_table \<and>
           run_handler P (fn c) req (world s) = ((ok, reply), w) \<and>
           execute P cfg msg p s =
             (reply, s\<lparr>world := (if is_mutating cmd then journal_append P cmd ok w else w),
                calls := calls s @ Ran cmd ok # (if is_mutating cmd then [Journaled cmd ok] else [])\<rparr>)
    else snd (execute P cfg msg p s) = s \<and>
         (has (reply_json (fst (execute P cfg msg p s))) ''error'' \<or>
          has (reply_json (fst (execute P cfg msg p s))) ''dry_run'')"
proof (cases rule: execute_cases [where P = P and cfg = cfg and msg = msg and p = p and s = s])
  case (refused e m)
  then show ?thesis by (simp add: Let_def Fail_def)
next
  case (previewed c)
  then show ?thesis by (simp add: Let_def preview_def new_reply_def)
next
  case (ran c ok reply w)
  then show ?thesis by (auto simp: Let_def)
qed

text \<open>
  C2. A whole connection is safe: whatever the peer sends, every handler run on its behalf is one
  the configuration permits, every mutating run is followed at once by its journal entry with the
  same outcome, and no handler runs at all unless authentication succeeded; a peer that is turned
  away leaves the world as it was, up to the random numbers drawn for its challenge.
\<close>

theorem connection_safe:
  assumes "calls s = []"
  shows "only_permitted cfg (calls (ServeConnection P cfg s)) \<and>
    well_journaled (calls (ServeConnection P cfg s)) \<and>
    (fst (Authenticate P cfg s) \<or>
     (\<forall>cmd ok. Ran cmd ok \<notin> set (calls (ServeConnection P cfg s))) \<and>
     world (ServeConnection P cfg s) \<in> {world s, snd (random_get P 32 (world s))})"
proof -
  obtain r s1 where a: "Authenticate P cfg s = (r, s1)" by (cases "Authenticate P cfg s")
  note o = Authenticate_outcome [OF a]
  show ?thesis
  proof (cases r)
    case True
    then have "good_trace cfg (calls s1)"
      using o assms by (simp add: good_trace_def only_permitted_def)
    then have "good_trace cfg (calls (serve_loop P cfg 0 s1))" by (rule serve_loop_good)
    then show ?thesis
      using a True
      by (auto simp: ServeConnection_def called_def good_trace_def only_permitted_def
          intro: well_journaled_append)
  next
    case False
    then have "ServeConnection P cfg s = s1" using a by (simp add: ServeConnection_def)
    then show ?thesis using o False assms a by (auto simp: only_permitted_def)
  qed
qed

theorem connection_safe_witness:
  "only_permitted default_config (calls (ServeConnection idle_platform default_config
     \<lparr>sconn = \<lparr>rx = [RxData hello_frame], tx = [], sent = [], rcv_timeout = 30\<rparr>, world = (), calls = []\<rparr>))"
  using connection_safe [of "\<lparr>sconn = \<lparr>rx = [RxData hello_frame], tx = [], sent = [],
    rcv_timeout = 30\<rparr>, world = (), calls = []\<rparr>" default_config idle_platform] by simp

text \<open>
  C4. Authentication is sound: the agent accepts a peer only if the first frame is a hello and the
  peer showed knowledge of a non-empty token, either by answering the nonce drawn in this very
  exchange with its HMAC under the token, or, only while \<^verbatim>\<open>require_hmac_auth\<close> is off, by the
  token itself. A refusal costs the peer at most the two-second back-off and nothing else is
  called.
\<close>

theorem authentication_sound:
  assumes "Authenticate P cfg s = (r, s')"
  shows "if r then
      calls s' = calls s @ [WatchdogConnected] \<and>
      (\<exists>msg p c. ReadFrame (SetRecvTimeout kIoTimeoutSec (sconn s)) = (FrameOk msg p, c) \<and>
         as_string [] (idx msg ''cmd'') = ''hello'' \<and>
         cfg_token cfg \<noteq> [] \<and>
         (if as_string [] (idx msg ''auth'') = ''hmac'' then
            \<exists>nonce w c2 resp rp c3.
              random_get P 32 (world s) = (nonce, w) \<and>
              WriteFrame (challenge_json (as_int 0 (idx msg ''id'')) (hex_bytes nonce)) [] c = (True, c2) \<and>
              ReadFrame c2 = (FrameOk resp rp, c3) \<and>
              as_string [] (idx resp ''hmac'') = hex_bytes (hmac_sha256 P (cfg_token cfg) (hex_bytes nonce))
          else \<not> require_hmac_auth cfg \<and> as_string [] (idx msg ''token'') = cfg_token cfg))
    else calls s' \<in> {calls s, calls s @ [Slept 2000000000]}"
proof (cases r)
  case True
  then have "Authenticate P cfg s = (True, s')" using assms by simp
  from Authenticate_sound [OF this] obtain msg p c where
    m: "ReadFrame (SetRecvTimeout kIoTimeoutSec (sconn s)) = (FrameOk msg p, c)"
      "as_string [] (idx msg ''cmd'') = ''hello''" "proves_token P cfg msg c (world s)" by blast
  have t: "calls s' = calls s @ [WatchdogConnected]"
    using True Authenticate_outcome [OF assms] by simp
  show ?thesis
    unfolding if_P [OF True]
    by (intro conjI exI) (rule t m(1) m(2) m(3) [unfolded proves_token_def, THEN conjunct1]
      m(3) [unfolded proves_token_def, THEN conjunct2])+
next
  case False
  then show ?thesis using Authenticate_outcome [OF assms] by simp
qed

theorem authentication_sound_witness:
  "\<exists>s'. Authenticate idle_platform default_config
    \<lparr>sconn = \<lparr>rx = [RxErr], tx = [], sent = [], rcv_timeout = 30\<rparr>, world = (), calls = []\<rparr> = (False, s') \<and>
    calls s' \<in> {[], [Slept 2000000000]}"
proof -
  let ?s = "\<lparr>sconn = \<lparr>rx = [RxErr], tx = [], sent = [], rcv_timeout = 30\<rparr>, world = (), calls = []\<rparr>"
  obtain r s' where a: "Authenticate idle_platform default_config ?s = (r, s')"
    by (cases "Authenticate idle_platform default_config ?s")
  have "\<not> r"
    using a by (auto simp: Authenticate_def on_conn_def ReadFrame_def ReadExactEx.simps [of 4 "[]" "[RxErr]"])
  with authentication_sound [OF a] a show ?thesis by auto
qed

text \<open>
  The token comparison looks at every byte and is plain equality: the accumulated difference
  is zero exactly for equal strings, so constant time does not cost correctness.
\<close>

theorem SecureEqual_equality: "SecureEqual a b \<longleftrightarrow> a = b"
  by (rule SecureEqual_iff)

text \<open>
  A quiet client is kept for nine idle timeouts and dropped at the tenth: a connection on
  which nothing but timeouts arrive runs no handler and sends nothing, the count carries over any
  shorter silence to the frame after it, and at ten the loop ends with the rest of the stream
  unread.
\<close>

theorem idle_client:
  assumes "rx (sconn s) = replicate k RxAgain @ es"
  shows "serve_loop P cfg 0 s =
    (if k < kMaxIdleTimeouts
     then serve_loop P cfg k (s\<lparr>sconn := (sconn s)\<lparr>rx := es\<rparr>\<rparr>)
     else s\<lparr>sconn := (sconn s)\<lparr>rx := replicate (k - kMaxIdleTimeouts) RxAgain @ es\<rparr>\<rparr>)"
proof (cases "k < kMaxIdleTimeouts")
  case True
  then show ?thesis using serve_loop_idle [OF assms, of 0 P cfg] by simp
next
  case False
  let ?es = "replicate (k - 10) RxAgain @ es"
  have "k = 9 + Suc (k - 10)" using False by (simp add: kMaxIdleTimeouts_def)
  then have "replicate k RxAgain = replicate 9 RxAgain @ replicate (Suc (k - 10)) RxAgain"
    by (metis replicate_add)
  then have "rx (sconn s) = replicate 9 RxAgain @ RxAgain # ?es"
    using assms by (simp del: replicate.simps(2) add: replicate.simps(2) [of "k - 10"])
  then have "serve_loop P cfg 0 s = serve_loop P cfg 9 (s\<lparr>sconn := (sconn s)\<lparr>rx := RxAgain # ?es\<rparr>\<rparr>)"
    using serve_loop_idle [of s 9 "RxAgain # ?es" 0 P cfg] by (simp add: kMaxIdleTimeouts_def)
  then show ?thesis
    using False serve_loop_again [of "s\<lparr>sconn := (sconn s)\<lparr>rx := RxAgain # ?es\<rparr>\<rparr>" ?es P cfg 9]
    by (simp add: kMaxIdleTimeouts_def)
qed

theorem idle_client_witness:
  "serve_loop idle_platform default_config 0
     \<lparr>sconn = \<lparr>rx = replicate 12 RxAgain, tx = [], sent = [], rcv_timeout = 30\<rparr>, world = (), calls = []\<rparr> =
   \<lparr>sconn = \<lparr>rx = replicate 2 RxAgain, tx = [], sent = [], rcv_timeout = 30\<rparr>, world = (), calls = []\<rparr>"
  using idle_client [of "\<lparr>sconn = \<lparr>rx = replicate 12 RxAgain, tx = [], sent = [], rcv_timeout = 30\<rparr>,
     world = (), calls = []\<rparr>" 12 "[]" idle_platform default_config] by (simp add: kMaxIdleTimeouts_def)

text \<open>
  A reported timeout is harmless: when \<^verbatim>\<open>ReadFrame\<close> says \<^verbatim>\<open>Timeout\<close> not one byte of the
  stream has been consumed and nothing but the script position changed, so retrying reads the same
  frame; every stall inside a frame is reported as closed instead.
\<close>

theorem timeout_consumes_nothing:
  assumes "ReadFrame c = (FrameTimeout, c')"
  shows "stream (rx c') = stream (rx c) \<and> c' = c\<lparr>rx := rx c'\<rparr>"
  using ReadFrame_timeout [OF assms] by simp

theorem timeout_consumes_nothing_witness:
  "\<exists>c'. ReadFrame \<lparr>rx = [RxAgain, RxData [1]], tx = [], sent = [], rcv_timeout = 30\<rparr> = (FrameTimeout, c') \<and>
     stream (rx c') = [1]"
proof -
  let ?c = "\<lparr>rx = [RxAgain, RxData [1]], tx = [], sent = [], rcv_timeout = 30\<rparr>"
  have "ReadFrame ?c = (FrameTimeout, ?c\<lparr>rx := [RxData [1]]\<rparr>)" by (simp add: ReadFrame_again)
  with timeout_consumes_nothing [OF this] show ?thesis by auto
qed

text \<open>
  Every reply is a frame its client can split off: if the handlers keep their contract, the
  reply to any request, refusals and previews included, carries the request's \<^verbatim>\<open>id\<close> and announces
  its binary trailer in \<^verbatim>\<open>bin\<close> exactly when there is one, with its length.
\<close>

theorem replies_agree:
  assumes "\<And>f req w. reply_ok (snd (fst (run_handler P f req w)))"
    and "fst (execute P cfg msg p s) = reply"
  shows "idx (finish_reply i reply) ''id'' = JInt i \<and>
    bin_agrees (finish_reply i reply) (reply_out reply) \<and> length (reply_out reply) \<le> kMaxBinary"
  using finish_reply_frame [OF execute_reply_ok [where P = P and cfg = cfg and msg = msg and p = p and s = s]]
    execute_reply_ok [where P = P and cfg = cfg and msg = msg and p = p and s = s] assms
  by (auto simp: reply_ok_def)

theorem replies_agree_witness:
  "idx (finish_reply 7 (fst (execute idle_platform default_config JNull [] idle_server))) ''id'' = JInt 7"
  using replies_agree [of idle_platform default_config JNull "[]" idle_server _ 7]
  by (simp add: idle_platform_def)

text \<open>
  The table is consistent with its own rule that the observe tier changes nothing: no command
  marked as mutating is reachable below the control tier, names are unique, and the map the
  dispatcher searches finds exactly the rows of the table.
\<close>

theorem table_consistent:
  "filter (\<lambda>(k, c). mutating c \<and> ctier c = Observe) command_table = [] \<and>
   distinct (map fst command_table) \<and> smap_sorted Dispatch \<and>
   map_of Dispatch = map_of command_table"
proof -
  have "filter (\<lambda>(k, c). mutating c \<and> ctier c = Observe) command_table = []"
    by (simp add: command_table_def)
  then show ?thesis using command_table_distinct Dispatch_sorted Dispatch_lookup by blast
qed

section \<open>What replies hold\<close>

lemma Fail_fst [simp]: "\<not> fst (Fail e m)" "fst (success kvs)" "fst (success_out kvs out)"
  by (simp_all add: Fail_def success_def success_out_def)

text \<open>What a reply built from fields holds: of a repeated key the last value.\<close>

lemma idx_fold_fields:
  "is_object j \<Longrightarrow>
   idx (fold (\<lambda>(k, v). set_field k v) kvs j) k = (case map_of (rev kvs) k of None \<Rightarrow> idx j k | Some v \<Rightarrow> v)"
  by (induction kvs arbitrary: j) (auto simp: map_add_def split: option.split)

lemma idx_json_fields:
  "idx (json_fields kvs) k = (case map_of (rev kvs) k of None \<Rightarrow> JNull | Some v \<Rightarrow> v)"
  by (simp add: json_fields_def idx_fold_fields split: option.split)

end
