(* ===== verification/Usb.thy ===== *)
theory Usb
  imports ServerLaws
begin

text \<open>
  The USB bulk transport (\<^verbatim>\<open>usb_transport.cpp\<close>): descriptor setup, the transfer loop through the
  page-sized bounce buffer, and the byte pump's read and write. The \<^verbatim>\<open>usb:ds\<close> service is a record
  of functions over an abstract world. The loop stops at a short packet, so it ends on its own.
\<close>

section \<open>The service\<close>

text \<open>
  \<open>usb_post\<close> gets the endpoint, the bytes of the bounce buffer that matter (none for a read) and the
  size; \<open>usb_parse\<close> answers the bytes moved for the request block, \<open>usb_bounce\<close> what the bounce buffer
  then holds.
\<close>

record 'w usb_api =
  usb_initialize :: "'w \<Rightarrow> bool \<times> 'w"
  usb_exit :: "'w \<Rightarrow> 'w"
  usb_set_vid_pid :: "u16 \<Rightarrow> u16 \<Rightarrow> u16 \<Rightarrow> 'w \<Rightarrow> bool \<times> 'w"
  usb_get_interface :: "'w \<Rightarrow> u64 option \<times> 'w"
  usb_register_endpoint :: "u64 \<Rightarrow> byte \<Rightarrow> 'w \<Rightarrow> u64 option \<times> 'w"
  usb_enable :: "u64 \<Rightarrow> 'w \<Rightarrow> bool \<times> 'w"
  usb_endpoint_in :: byte
  usb_endpoint_out :: byte
  usb_post :: "u64 \<Rightarrow> byte list \<Rightarrow> nat \<Rightarrow> 'w \<Rightarrow> u32 option \<times> 'w"
  usb_wait :: "u64 \<Rightarrow> u64 \<Rightarrow> 'w \<Rightarrow> bool \<times> 'w"
  usb_cancel :: "u64 \<Rightarrow> 'w \<Rightarrow> 'w"
  usb_clear :: "u64 \<Rightarrow> 'w \<Rightarrow> 'w"
  usb_report :: "u64 \<Rightarrow> 'w \<Rightarrow> bool"
  usb_parse :: "u64 \<Rightarrow> u32 \<Rightarrow> 'w \<Rightarrow> nat option"
  usb_bounce :: "u64 \<Rightarrow> 'w \<Rightarrow> byte list"

record 'w usb =
  uworld :: 'w
  g_interface :: "u64 option"
  g_ep_in :: "u64 option"
  g_ep_out :: "u64 option"
  g_ready :: bool

definition kVendorId :: u16 where "kVendorId = 0x057E"
definition kProductId :: u16 where "kProductId = 0xAE57"
definition bounce_size :: nat where "bounce_size = 0x1000"

definition SetupDescriptors :: "'w usb_api \<Rightarrow> 'w usb \<Rightarrow> bool \<times> 'w usb" where
  "SetupDescriptors U s =
     (case usb_set_vid_pid U kVendorId kProductId 0x0100 (uworld s) of
        (False, w) \<Rightarrow> (False, s\<lparr>uworld := w\<rparr>)
      | (True, w) \<Rightarrow>
     (case usb_get_interface U w of
        (None, w) \<Rightarrow> (False, s\<lparr>uworld := w\<rparr>)
      | (Some i, w) \<Rightarrow>
     (case usb_register_endpoint U i (usb_endpoint_in U OR 1) w of
        (None, w) \<Rightarrow> (False, s\<lparr>uworld := w, g_interface := Some i\<rparr>)
      | (Some e, w) \<Rightarrow>
     (case usb_register_endpoint U i (usb_endpoint_out U OR 1) w of
        (None, w) \<Rightarrow> (False, s\<lparr>uworld := w, g_interface := Some i, g_ep_in := Some e\<rparr>)
      | (Some f, w) \<Rightarrow>
          let (ok, w) = usb_enable U i w
          in (ok, s\<lparr>uworld := w, g_interface := Some i, g_ep_in := Some e, g_ep_out := Some f\<rparr>)))))"

text \<open>\<^verbatim>\<open>Init\<close>, with the configuration that enables the transport.\<close>

definition usb_Init :: "'w usb_api \<Rightarrow> agent_config \<Rightarrow> 'w usb \<Rightarrow> bool \<times> 'w usb" where
  "usb_Init U cfg s =
     (if g_ready s then (True, s)
      else if \<not> enable_usb cfg then (False, s)
      else case usb_initialize U (uworld s) of
        (False, w) \<Rightarrow> (False, s\<lparr>uworld := w\<rparr>)
      | (True, w) \<Rightarrow>
          (case SetupDescriptors U (s\<lparr>uworld := w\<rparr>) of
             (False, s) \<Rightarrow> (False, s\<lparr>uworld := usb_exit U (uworld s)\<rparr>)
           | (True, s) \<Rightarrow> (True, s\<lparr>g_ready := True\<rparr>)))"

definition usb_Exit :: "'w usb_api \<Rightarrow> 'w usb \<Rightarrow> 'w usb" where
  "usb_Exit U s =
     (if \<not> g_ready s then s
      else s\<lparr>uworld := usb_exit U (uworld s), g_interface := None, g_ep_in := None, g_ep_out := None, g_ready := False\<rparr>)"

section \<open>Transfers\<close>

text \<open>
  The loop from \<open>sofar\<close> bytes on: \<open>out\<close> says that \<open>data\<close> is sent, else received bytes are appended to
  \<open>got\<close>. \<open>None\<close> is the failure of a call.
\<close>

function transfer_loop ::
  "'w usb_api \<Rightarrow> u64 \<Rightarrow> bool \<Rightarrow> byte list \<Rightarrow> nat \<Rightarrow> u64 \<Rightarrow> nat \<Rightarrow> byte list \<Rightarrow> 'w \<Rightarrow> (byte list \<times> nat) option \<times> 'w" where
  "transfer_loop U ep out data want timeout_ns sofar got w =
     (if sofar < want then
        let chunk = min (want - sofar) bounce_size
        in case usb_post U ep (if out then take chunk (drop sofar data) else []) chunk w of
             (None, w) \<Rightarrow> (None, w)
           | (Some urb, w) \<Rightarrow>
               (case usb_wait U ep timeout_ns w of
                  (False, w) \<Rightarrow> (None, usb_cancel U ep w)
                | (True, w) \<Rightarrow>
                    let w = usb_clear U ep w
                    in if \<not> usb_report U ep w then (None, w)
                       else case usb_parse U ep urb w of
                              None \<Rightarrow> (None, w)
                            | Some moved \<Rightarrow>
                                let got = (if out then got else got @ take moved (usb_bounce U ep w))
                                in if moved < chunk then (Some (got, sofar + moved), w)
                                   else transfer_loop U ep out data want timeout_ns (sofar + moved) got w)
      else (Some (got, sofar), w))"
  by pat_completeness auto

termination transfer_loop
  by (relation "measure (\<lambda>(U, ep, out, data, want, t, sofar, got, w). want - sofar)") (auto simp: bounce_size_def)

declare transfer_loop.simps [simp del]

definition Transfer ::
  "'w usb_api \<Rightarrow> u64 option \<Rightarrow> bool \<Rightarrow> byte list \<Rightarrow> nat \<Rightarrow> u64 \<Rightarrow> 'w \<Rightarrow> (byte list \<times> nat) option \<times> 'w" where
  "Transfer U ep out data want timeout_ns w =
     (case ep of None \<Rightarrow> (None, w) | Some e \<Rightarrow> transfer_loop U e out data want timeout_ns 0 [] w)"

text \<open>What was received, within the asked size, and whether the read succeeded.\<close>

definition usb_Read :: "'w usb_api \<Rightarrow> nat \<Rightarrow> u64 \<Rightarrow> 'w usb \<Rightarrow> byte list option \<times> 'w usb" where
  "usb_Read U want timeout_ns s =
     (if \<not> g_ready s then (None, s)
      else let (r, w) = Transfer U (g_ep_out s) (g_ep_out s = g_ep_in s) [] want timeout_ns (uworld s)
           in (map_option fst r, s\<lparr>uworld := w\<rparr>))"

definition usb_Write :: "'w usb_api \<Rightarrow> byte list \<Rightarrow> u64 \<Rightarrow> 'w usb \<Rightarrow> bool \<times> 'w usb" where
  "usb_Write U buf timeout_ns s =
     (if \<not> g_ready s then (False, s)
      else case Transfer U (g_ep_in s) True buf (length buf) timeout_ns (uworld s) of
             (None, w) \<Rightarrow> (False, s\<lparr>uworld := w\<rparr>)
           | (Some (_, done'), w) \<Rightarrow> (done' = length buf, s\<lparr>uworld := w\<rparr>))"

section \<open>What the pump guarantees\<close>

text \<open>
  The documented service, seen through the bytes that have gone to the host: a posted buffer goes out
  from its start on, as far as the transfer came; the report tells how far; nothing else sends.
\<close>

definition usb_sends :: "'w usb_api \<Rightarrow> u64 \<Rightarrow> ('w \<Rightarrow> byte list) \<Rightarrow> bool" where
  "usb_sends U ep wire \<longleftrightarrow>
     (\<forall>buf n w. wire (snd (usb_post U ep buf n w)) = wire w) \<and>
     (\<forall>buf n t w urb w1.
        usb_post U ep buf n w = (Some urb, w1) \<longrightarrow>
        (\<exists>m\<le>n. wire (snd (usb_wait U ep t w1)) = wire w @ take m buf \<and>
           (\<forall>k. fst (usb_wait U ep t w1) \<longrightarrow>
                usb_parse U ep urb (usb_clear U ep (snd (usb_wait U ep t w1))) = Some k \<longrightarrow> k = m))) \<and>
     (\<forall>w. wire (usb_cancel U ep w) = wire w) \<and> (\<forall>w. wire (usb_clear U ep w) = wire w)"

lemma transfer_sends:
  assumes L: "usb_sends U ep wire"
  shows "sofar \<le> length data \<Longrightarrow> transfer_loop U ep True data (length data) t sofar got w = (r, w') \<Longrightarrow>
    \<exists>n. sofar + n \<le> length data \<and> wire w' = wire w @ take n (drop sofar data) \<and>
        (\<forall>g d. r = Some (g, d) \<longrightarrow> d = sofar + n)"
proof (induction "length data - sofar" arbitrary: sofar got w rule: less_induct)
  case less
  show ?case
  proof (cases "sofar < length data")
    case False
    then show ?thesis using less.prems by (intro exI [of _ 0]) (auto simp: transfer_loop.simps)
  next
    case True
    define chunk where "chunk = min (length data - sofar) bounce_size"
    define buf where "buf = take chunk (drop sofar data)"
    have c: "0 < chunk" "sofar + chunk \<le> length data" using True by (auto simp: chunk_def bounce_size_def)
    have loop: "transfer_loop U ep True data (length data) t sofar got w =
        (case usb_post U ep buf chunk w of
             (None, w) \<Rightarrow> (None, w)
           | (Some urb, w) \<Rightarrow>
               (case usb_wait U ep t w of
                  (False, w) \<Rightarrow> (None, usb_cancel U ep w)
                | (True, w) \<Rightarrow>
                    if \<not> usb_report U ep (usb_clear U ep w) then (None, usb_clear U ep w)
                    else case usb_parse U ep urb (usb_clear U ep w) of
                           None \<Rightarrow> (None, usb_clear U ep w)
                         | Some moved \<Rightarrow>
                             if moved < chunk then (Some (got, sofar + moved), usb_clear U ep w)
                             else transfer_loop U ep True data (length data) t (sofar + moved) got (usb_clear U ep w)))"
      by (subst transfer_loop.simps) (simp only: True if_True Let_def chunk_def [symmetric] buf_def [symmetric])
    obtain u w1 where p: "usb_post U ep buf chunk w = (u, w1)" by fastforce
    have s1: "wire w1 = wire w" using L p unfolding usb_sends_def by (metis snd_conv)
    show ?thesis
    proof (cases u)
      case None
      then show ?thesis using less.prems p s1 unfolding loop by (intro exI [of _ 0]) auto
    next
      case (Some urb)
      obtain ok w2 where q: "usb_wait U ep t w1 = (ok, w2)" by fastforce
      obtain m where m: "m \<le> chunk" "wire w2 = wire w @ take m buf"
          "\<And>k. ok \<Longrightarrow> usb_parse U ep urb (usb_clear U ep w2) = Some k \<Longrightarrow> k = m"
        using L p q Some unfolding usb_sends_def by (metis fst_conv snd_conv)
      have k: "wire (usb_cancel U ep w2) = wire w2" "wire (usb_clear U ep w2) = wire w2"
        using L unfolding usb_sends_def by blast+
      have tk: "take m buf = take m (drop sofar data)" using m(1) by (simp add: buf_def min_def)
      show ?thesis
      proof (cases "ok \<and> usb_report U ep (usb_clear U ep w2) \<and> usb_parse U ep urb (usb_clear U ep w2) = Some m \<and> m = chunk")
        case True
        then have "transfer_loop U ep True data (length data) t (sofar + chunk) got (usb_clear U ep w2) = (r, w')"
          using less.prems(2) p q Some unfolding loop by simp
        moreover have "length data - (sofar + chunk) < length data - sofar" using c by linarith
        ultimately obtain n where n: "sofar + chunk + n \<le> length data"
            "wire w' = wire (usb_clear U ep w2) @ take n (drop (sofar + chunk) data)"
            "\<forall>g d. r = Some (g, d) \<longrightarrow> d = sofar + chunk + n"
          using less.hyps c(2) by blast
        have e: "take chunk (drop sofar data) @ take n (drop (sofar + chunk) data) = take (chunk + n) (drop sofar data)"
          by (simp add: take_add drop_drop add.commute)
        have "wire w' = wire w @ take m buf @ take n (drop (sofar + chunk) data)"
          using n(2) k(2) m(2) by simp
        then have "wire w' = wire w @ take (chunk + n) (drop sofar data)"
          using tk True e by simp
        moreover have "sofar + (chunk + n) \<le> length data" using n(1) by simp
        moreover have "\<forall>g d. r = Some (g, d) \<longrightarrow> d = sofar + (chunk + n)" using n(3) by (simp add: add.assoc)
        ultimately show ?thesis by blast
      next
        case False
        then consider (lost) "\<not> ok" | (unknown) "ok" "\<not> usb_report U ep (usb_clear U ep w2) \<or> usb_parse U ep urb (usb_clear U ep w2) = None"
          | (short) "ok" "usb_report U ep (usb_clear U ep w2)" "usb_parse U ep urb (usb_clear U ep w2) = Some m" "m < chunk"
          using m(1,3) by fastforce
        then have "wire w' = wire w2 \<and> (\<forall>g d. r = Some (g, d) \<longrightarrow> d = sofar + m)"
        proof cases
          case lost
          then have "r = None" "w' = usb_cancel U ep w2" using less.prems(2) p q Some unfolding loop by simp_all
          then show ?thesis using k by simp
        next
          case unknown
          then have "r = None" "w' = usb_clear U ep w2"
            using less.prems(2) p q Some unfolding loop by (auto split: if_splits)
          then show ?thesis using k by simp
        next
          case short
          then have "r = Some (got, sofar + m)" "w' = usb_clear U ep w2"
            using less.prems(2) p q Some unfolding loop by simp_all
          then show ?thesis using k by simp
        qed
        then show ?thesis using m tk c by (intro exI [of _ m]) auto
      qed
    qed
  qed
qed

text \<open>
  C36. The USB pump sends no byte twice, none out of order and none that was not given: after a write,
  whatever its outcome, the host has received a prefix of the buffer, and the write reports success
  exactly when it knows that prefix to be the whole; a transport that is not ready sends nothing.
\<close>

theorem usb_write_exact:
  assumes "\<And>ep. g_ep_in s = Some ep \<Longrightarrow> usb_sends U ep wire"
    and "usb_Write U buf t s = (ok, s')"
  shows "\<exists>n\<le>length buf. wire (uworld s') = wire (uworld s) @ take n buf \<and> (ok \<longrightarrow> n = length buf) \<and>
    (\<not> g_ready s \<longrightarrow> n = 0 \<and> \<not> ok)"
proof (cases "g_ready s \<and> g_ep_in s \<noteq> None")
  case True
  then obtain ep where ep: "g_ep_in s = Some ep" by blast
  obtain r w where l: "transfer_loop U ep True buf (length buf) t 0 [] (uworld s) = (r, w)" by fastforce
  obtain n where n: "n \<le> length buf" "wire w = wire (uworld s) @ take n buf" "\<And>g d. r = Some (g, d) \<Longrightarrow> d = n"
    using transfer_sends [OF assms(1) [OF ep] _ l] by auto
  then show ?thesis
    using assms(2) True ep l
    by (intro exI [of _ n]) (auto simp: usb_Write_def Transfer_def split: option.splits)
next
  case False
  then show ?thesis
    using assms(2) by (intro exI [of _ 0]) (auto simp: usb_Write_def Transfer_def split: if_splits)
qed


text \<open>A cable that takes every buffer whole.\<close>

definition good_cable :: "(byte list \<times> byte list) usb_api" where
  "good_cable =
     \<lparr>usb_initialize = (\<lambda>w. (True, w)), usb_exit = (\<lambda>w. w), usb_set_vid_pid = (\<lambda>_ _ _ w. (True, w)),
      usb_get_interface = (\<lambda>w. (Some 1, w)), usb_register_endpoint = (\<lambda>_ a w. (Some (ucast a), w)),
      usb_enable = (\<lambda>_ w. (True, w)), usb_endpoint_in = 0x80, usb_endpoint_out = 0,
      usb_post = (\<lambda>ep buf n (s, p). (Some 0, (s, take n buf))),
      usb_wait = (\<lambda>ep t (s, p). (True, (s @ p, p))), usb_cancel = (\<lambda>_ w. w), usb_clear = (\<lambda>_ w. w),
      usb_report = (\<lambda>_ _. True), usb_parse = (\<lambda>ep urb (s, p). Some (length p)), usb_bounce = (\<lambda>_ _. [])\<rparr>"

theorem usb_write_exact_witness:
  "\<exists>n s'. usb_Write good_cable [1, 2, 3] 9
       \<lparr>uworld = ([], []), g_interface = Some 1, g_ep_in = Some 0x81, g_ep_out = Some 1, g_ready = True\<rparr> = (True, s') \<and>
     fst (uworld s') = take n [1, 2, 3] \<and> n = 3"
proof -
  let ?s = "\<lparr>uworld = ([], []), g_interface = Some 1, g_ep_in = Some 0x81, g_ep_out = Some 1, g_ready = True\<rparr> ::
    (byte list \<times> byte list) usb"
  have t: "min (length buf) n \<le> n" "take (min (length buf) n) buf = take n buf" for buf :: "byte list" and n
    by (simp_all add: min_def)
  have L: "usb_sends good_cable ep fst" for ep
    by (auto simp: usb_sends_def good_cable_def split_beta intro!: exI [of _ "min (length _) _"])
      (auto simp: min_def)
  obtain ok s' where w: "usb_Write good_cable [1, 2, 3] 9 ?s = (ok, s')" by fastforce
  have ok
    using w by (auto simp: usb_Write_def Transfer_def transfer_loop.simps good_cable_def bounce_size_def)
  with usb_write_exact [where s = ?s, OF L w] w show ?thesis by auto
qed


end
