(* ===== verification/PowerState.thy ===== *)
theory PowerState
  imports Config
begin

text \<open>
  Sleep and wake notifications (\<^verbatim>\<open>power_state.cpp\<close>): the acknowledgement thread, registration with
  \<^verbatim>\<open>psc:m\<close>, and the two flags the accept loop reads. The system's side is the list of requests the
  module finds when its event fires.
\<close>

datatype psc_state =
    Psc_Awake | Psc_ReadyAwaken | Psc_ReadySleep | Psc_ReadySleepCritical
  | Psc_ReadyAwakenCritical | Psc_ReadyShutdown

record flags =
  g_asleep :: bool
  g_woke :: bool

section \<open>The acknowledgement thread\<close>

fun note_request :: "psc_state \<Rightarrow> flags \<Rightarrow> flags" where
  "note_request Psc_ReadySleep f = f\<lparr>g_asleep := True\<rparr>"
| "note_request Psc_ReadySleepCritical f = f\<lparr>g_asleep := True\<rparr>"
| "note_request Psc_Awake f = f\<lparr>g_asleep := False, g_woke := True\<rparr>"
| "note_request Psc_ReadyAwaken f = f\<lparr>g_asleep := False, g_woke := True\<rparr>"
| "note_request Psc_ReadyAwakenCritical f = f\<lparr>g_asleep := False, g_woke := True\<rparr>"
| "note_request Psc_ReadyShutdown f = f"

text \<open>
  The inner loop: every request \<^verbatim>\<open>pscPmModuleGetRequest\<close> hands out, until it fails. The second
  component is what has been acknowledged.
\<close>

fun drain_requests :: "psc_state list \<Rightarrow> flags \<times> psc_state list \<Rightarrow> flags \<times> psc_state list" where
  "drain_requests [] s = s"
| "drain_requests (r # rs) (f, acked) = drain_requests rs (note_request r f, acked @ [r])"

text \<open>
  The thread itself, over the outcomes of its bounded waits: \<open>None\<close> is a timeout, \<open>Some rs\<close> a fired
  event with its requests; the flag \<^verbatim>\<open>g_stop\<close> is looked at before each wait.
\<close>

datatype wait = Stop | TimedOut | Fired "psc_state list"

fun AckThread :: "wait list \<Rightarrow> flags \<times> psc_state list \<Rightarrow> flags \<times> psc_state list" where
  "AckThread [] s = s"
| "AckThread (Stop # ws) s = s"
| "AckThread (TimedOut # ws) s = AckThread ws s"
| "AckThread (Fired rs # ws) s = AckThread ws (drain_requests rs s)"

definition IsAsleep :: "flags \<Rightarrow> bool" where
  "IsAsleep f = g_asleep f"

definition TakeWokeFlag :: "flags \<Rightarrow> bool \<times> flags" where
  "TakeWokeFlag f = (if \<not> g_woke f then (False, f) else (True, f\<lparr>g_woke := False\<rparr>))"

section \<open>Registration\<close>

text \<open>What the process holds from the system: the service session and the registered module.\<close>

record psc =
  session :: bool
  module :: bool
  thread_runs :: bool
  registered :: bool

definition no_psc :: psc where
  "no_psc = \<lparr>session = False, module = False, thread_runs = False, registered = False\<rparr>"

text \<open>The results of the calls \<^verbatim>\<open>Init\<close> makes, in order.\<close>

record psc_results =
  initialize_ok :: bool
  get_module_ok :: bool
  thread_create_ok :: bool
  thread_start_ok :: bool

definition Init :: "agent_config \<Rightarrow> psc_results \<Rightarrow> psc \<Rightarrow> bool \<times> psc" where
  "Init cfg r s =
     (if \<not> enable_psc cfg then (False, s)
      else if \<not> initialize_ok r then (False, s)
      else let s = s\<lparr>session := True\<rparr>
           in if \<not> get_module_ok r then (False, s\<lparr>session := False\<rparr>)
              else let s = s\<lparr>module := True\<rparr>
                   in if \<not> thread_create_ok r \<or> \<not> thread_start_ok r
                      then (False, s\<lparr>module := False, session := False\<rparr>)
                      else (True, s\<lparr>thread_runs := True, registered := True\<rparr>))"

definition Exit :: "psc \<Rightarrow> psc" where
  "Exit s =
     (if \<not> registered s then s
      else s\<lparr>thread_runs := False, module := False, session := False, registered := False\<rparr>)"

text \<open>The system only ever waits for a module whose thread can answer.\<close>

definition psc_safe :: "psc \<Rightarrow> bool" where
  "psc_safe s \<longleftrightarrow>
     (module s \<longleftrightarrow> thread_runs s) \<and> (registered s \<longleftrightarrow> module s) \<and> (session s \<longleftrightarrow> module s)"

lemma drain_requests_acks:
  "drain_requests rs (f, a) = (fold note_request rs f, a @ rs)"
  by (induction rs arbitrary: f a) simp_all

text \<open>The requests the thread sees before it is stopped.\<close>

fun delivered :: "wait list \<Rightarrow> psc_state list" where
  "delivered [] = []"
| "delivered (Stop # ws) = []"
| "delivered (TimedOut # ws) = delivered ws"
| "delivered (Fired rs # ws) = rs @ delivered ws"

lemma AckThread_spec:
  "AckThread ws (f, a) = (fold note_request (delivered ws) f, a @ delivered ws)"
  by (induction ws arbitrary: f a rule: delivered.induct) (simp_all add: drain_requests_acks)

fun sleeping_request :: "psc_state \<Rightarrow> bool" where
  "sleeping_request Psc_ReadySleep = True"
| "sleeping_request Psc_ReadySleepCritical = True"
| "sleeping_request _ = False"

fun waking_request :: "psc_state \<Rightarrow> bool" where
  "waking_request Psc_Awake = True"
| "waking_request Psc_ReadyAwaken = True"
| "waking_request Psc_ReadyAwakenCritical = True"
| "waking_request _ = False"

lemma note_request_asleep:
  "g_asleep (note_request r f) = (if sleeping_request r then True else if waking_request r then False else g_asleep f)"
  "g_woke (note_request r f) \<longleftrightarrow> waking_request r \<or> g_woke f"
  by (cases r; simp)+

lemma woke_fold: "g_woke (fold note_request rs f) \<longleftrightarrow> (\<exists>r \<in> set rs. waking_request r) \<or> g_woke f"
  by (induction rs arbitrary: f) (auto simp: note_request_asleep)

section \<open>Properties\<close>

text \<open>
  C22. Every request is acknowledged, whatever it is: over any sequence of waits, what the thread
  has acknowledged is exactly the requests the system delivered before it was stopped, in order
  and once each, and a wake edge among them is remembered for the accept loop. The console is
  never left waiting for an answer.
\<close>

theorem every_request_acknowledged:
  "snd (AckThread ws (f, [])) = delivered ws \<and>
   (g_woke (fst (AckThread ws (f, []))) \<longleftrightarrow> (\<exists>r \<in> set (delivered ws). waking_request r) \<or> g_woke f)"
  by (simp add: AckThread_spec woke_fold)

text \<open>
  The module is registered only while its thread runs: from a safe state, initialisation with
  any combination of failing calls, and exit, lead to a safe state; initialisation succeeds only
  when the configuration asks for it and every call worked, and after a failure nothing is held.
\<close>

theorem registration_safe:
  assumes "psc_safe s"
  shows "(\<not> registered s \<longrightarrow> psc_safe (snd (Init cfg r s)) \<and>
      (if fst (Init cfg r s) then enable_psc cfg \<and> registered (snd (Init cfg r s))
       else snd (Init cfg r s) = s)) \<and>
    psc_safe (Exit s) \<and> \<not> module (Exit s)"
  using assms by (cases s) (auto simp: psc_safe_def Init_def Exit_def Let_def)

theorem registration_safe_witness:
  "psc_safe (snd (Init (default_config\<lparr>enable_psc := True\<rparr>)
     \<lparr>initialize_ok = True, get_module_ok = True, thread_create_ok = True, thread_start_ok = False\<rparr> no_psc))"
  using registration_safe [of no_psc] by (simp add: psc_safe_def no_psc_def)

end
