(* ===== verification/ServerRun.thy ===== *)
theory ServerRun
  imports ServerLaws PowerState
begin

text \<open>
  \<^verbatim>\<open>Server::Run\<close>: the outer loop that owns the listening socket and the accept loop inside it, as
  a step relation. A label is what the environment does next: the listener comes up or not, a
  connection is accepted, \<^verbatim>\<open>accept\<close> fails, or the power-state thread processes a request.
\<close>

section \<open>The step relation\<close>

datatype phase = Opening | Accepting nat

record 'w run_state =
  phase :: phase
  flags :: flags
  rworld :: 'w
  history :: "call list list"

datatype label =
    ListenFails
  | ListenOk
  | AcceptOk conn
  | AcceptFails
  | Psc psc_state

definition kMaxAcceptErrors :: nat where "kMaxAcceptErrors = 20"

text \<open>The handling of a failed \<^verbatim>\<open>accept\<close> after \<open>n\<close> consecutive errors.\<close>

definition accept_failed :: "nat \<Rightarrow> 'w run_state \<Rightarrow> 'w run_state" where
  "accept_failed n s =
     (case TakeWokeFlag (flags s) of
        (True, f) \<Rightarrow> s\<lparr>phase := Opening, flags := f\<rparr>
      | (False, f) \<Rightarrow>
          if IsAsleep f then s\<lparr>flags := f\<rparr>
          else if Suc n \<ge> kMaxAcceptErrors then s\<lparr>phase := Opening, flags := f\<rparr>
          else s\<lparr>phase := Accepting (Suc n), flags := f\<rparr>)"

definition serve_accepted :: "'w platform \<Rightarrow> agent_config \<Rightarrow> conn \<Rightarrow> 'w \<Rightarrow> 'w server" where
  "serve_accepted P cfg c w =
     ServeConnection P cfg \<lparr>sconn = ConfigureConnSocket c, world = w, calls = []\<rparr>"

inductive run_step :: "'w platform \<Rightarrow> agent_config \<Rightarrow> 'w run_state \<Rightarrow> label \<Rightarrow> 'w run_state \<Rightarrow> bool"
  for P cfg where
  listen_fails: "phase s = Opening \<Longrightarrow> run_step P cfg s ListenFails s"
| listen_ok: "phase s = Opening \<Longrightarrow> run_step P cfg s ListenOk (s\<lparr>phase := Accepting 0\<rparr>)"
| accept_fails: "phase s = Accepting n \<Longrightarrow> run_step P cfg s AcceptFails (accept_failed n s)"
| accept_ok: "phase s = Accepting n \<Longrightarrow> r = serve_accepted P cfg c (rworld s) \<Longrightarrow>
    run_step P cfg s (AcceptOk c)
      (s\<lparr>phase := Accepting 0, rworld := world r, history := history s @ [calls r]\<rparr>)"
| psc: "run_step P cfg s (Psc q) (s\<lparr>flags := note_request q (flags s)\<rparr>)"

inductive_cases run_stepE: "run_step P cfg s l s'"

inductive_simps run_step_simps:
  "run_step P cfg s ListenFails s'"
  "run_step P cfg s ListenOk s'"
  "run_step P cfg s AcceptFails s'"
  "run_step P cfg s (AcceptOk c) s'"
  "run_step P cfg s (Psc q) s'"

inductive runs :: "'w platform \<Rightarrow> agent_config \<Rightarrow> 'w run_state \<Rightarrow> label list \<Rightarrow> 'w run_state \<Rightarrow> bool"
  for P cfg where
  stop: "runs P cfg s [] s"
| step: "run_step P cfg s l s' \<Longrightarrow> runs P cfg s' ls s'' \<Longrightarrow> runs P cfg s (l # ls) s''"

inductive_cases runs_ConsE: "runs P cfg s (l # ls) s''"

definition boot_state :: "'w \<Rightarrow> 'w run_state" where
  "boot_state w = \<lparr>phase = Opening, flags = \<lparr>g_asleep = False, g_woke = False\<rparr>, rworld = w, history = []\<rparr>"

section \<open>The invariant\<close>

definition run_inv :: "agent_config \<Rightarrow> 'w run_state \<Rightarrow> bool" where
  "run_inv cfg s \<longleftrightarrow>
     (\<forall>n. phase s = Accepting n \<longrightarrow> n < kMaxAcceptErrors) \<and>
     (\<forall>cs \<in> set (history s). only_permitted cfg cs \<and> well_journaled cs)"

lemma served_trace:
  "only_permitted cfg (calls (serve_accepted P cfg c w)) \<and> well_journaled (calls (serve_accepted P cfg c w))"
proof -
  obtain r s1 where a: "Authenticate P cfg \<lparr>sconn = ConfigureConnSocket c, world = w, calls = []\<rparr> = (r, s1)"
    by (cases "Authenticate P cfg \<lparr>sconn = ConfigureConnSocket c, world = w, calls = []\<rparr>")
  have "good_trace cfg (calls s1)"
    using Authenticate_outcome [OF a]
    by (auto simp: good_trace_def only_permitted_def split: if_splits)
  with serve_loop_good [OF this, of P 0] show ?thesis
    using a by (auto simp: serve_accepted_def ServeConnection_def called_def good_trace_def
        only_permitted_def intro: well_journaled_append split: bool.split)
qed

lemma run_step_inv: "run_step P cfg s l s' \<Longrightarrow> run_inv cfg s \<Longrightarrow> run_inv cfg s'"
proof (induction rule: run_step.induct)
  case (accept_fails s n)
  then show ?case
    by (auto simp: run_inv_def accept_failed_def TakeWokeFlag_def)
next
  case (accept_ok s n r c)
  then show ?case using served_trace [of cfg P c "rworld s"]
    by (auto simp: run_inv_def kMaxAcceptErrors_def)
qed (auto simp: run_inv_def kMaxAcceptErrors_def)

lemma runs_inv: "runs P cfg s ls s' \<Longrightarrow> run_inv cfg s \<Longrightarrow> run_inv cfg s'"
  by (induction rule: runs.induct) (auto dest: run_step_inv)

section \<open>A dead listener is rebuilt\<close>

text \<open>Only failing accepts and power-state requests that do not announce sleep.\<close>

definition dead_awake :: "label \<Rightarrow> bool" where
  "dead_awake l \<longleftrightarrow> l = AcceptFails \<or> (\<exists>q. l = Psc q \<and> \<not> sleeping_request q)"

definition budget :: "'w run_state \<Rightarrow> nat" where
  "budget s = (case phase s of Opening \<Rightarrow> 0 | Accepting n \<Rightarrow> kMaxAcceptErrors - n)"

lemma budget_step:
  assumes "run_step P cfg s l s'" "dead_awake l" "run_inv cfg s" "\<not> g_asleep (flags s)"
  shows "(if l = AcceptFails then 1 else 0) + budget s' \<le> budget s \<and> \<not> g_asleep (flags s')"
  using assms
  by (cases rule: run_step.cases)
     (auto simp: dead_awake_def budget_def run_inv_def accept_failed_def TakeWokeFlag_def IsAsleep_def
        note_request_asleep split: phase.split)

lemma budget_runs:
  assumes "runs P cfg s ls s'" "\<forall>l \<in> set ls. dead_awake l" "run_inv cfg s" "\<not> g_asleep (flags s)"
  shows "count_list ls AcceptFails + budget s' \<le> budget s"
  using assms
proof (induction rule: runs.induct)
  case (step s l s' ls s'')
  then have "(if l = AcceptFails then 1 else 0) + budget s' \<le> budget s \<and> \<not> g_asleep (flags s')"
    by (intro budget_step) simp_all
  moreover have "run_inv cfg s'" using step run_step_inv by blast
  ultimately show ?case using step by (auto split: if_splits)
qed simp

section \<open>Properties\<close>

text \<open>
  In every state the server can reach from boot, under any interleaving of accepts, failures
  and power-state requests, the error count is below its limit, and every connection served so far
  ran only permitted handlers and journaled every mutating one.
\<close>

theorem reachable_safe:
  assumes "runs P cfg (boot_state w) ls s"
  shows "(\<forall>n. phase s = Accepting n \<longrightarrow> n < kMaxAcceptErrors) \<and>
    (\<forall>cs \<in> set (history s). only_permitted cfg cs \<and> well_journaled cs)"
  using runs_inv [OF assms] by (simp add: run_inv_def boot_state_def)

theorem reachable_safe_witness:
  "\<exists>s. runs idle_platform default_config (boot_state ()) [ListenOk, Psc Psc_ReadySleep, AcceptFails] s \<and>
     phase s = Accepting 0 \<and> 0 < kMaxAcceptErrors"
proof -
  let ?s0 = "boot_state ()"
  let ?s1 = "?s0\<lparr>phase := Accepting 0\<rparr>"
  let ?s2 = "?s1\<lparr>flags := note_request Psc_ReadySleep (flags ?s1)\<rparr>"
  have "run_step idle_platform default_config ?s0 ListenOk ?s1"
    by (rule run_step.listen_ok) (simp add: boot_state_def)
  moreover have "run_step idle_platform default_config ?s1 (Psc Psc_ReadySleep) ?s2"
    by (rule run_step.psc)
  moreover have "run_step idle_platform default_config ?s2 AcceptFails (accept_failed 0 ?s2)"
    by (rule run_step.accept_fails) simp
  ultimately have r: "runs idle_platform default_config ?s0 [ListenOk, Psc Psc_ReadySleep, AcceptFails] (accept_failed 0 ?s2)"
    by (meson runs.intros)
  moreover have "phase (accept_failed 0 ?s2) = Accepting 0"
    by (simp add: accept_failed_def TakeWokeFlag_def IsAsleep_def boot_state_def)
  ultimately show ?thesis using reachable_safe [OF r] by blast
qed

text \<open>
  C8. A dead listener heals. From any reachable state with the listener open and the console
  awake, at most twenty consecutive failing accepts can happen before the listener is torn down
  and rebuilt, whatever wake-ups the power-state thread reports in between; and if the wake edge is
  set, the very next failure rebuilds it and consumes the edge.
\<close>

theorem dead_listener_rebuilt:
  assumes "runs P cfg (boot_state w) ks s" "phase s = Accepting n" "\<not> g_asleep (flags s)"
    and "runs P cfg s ls s'" "\<forall>l \<in> set ls. dead_awake l"
  shows "count_list ls AcceptFails \<le> kMaxAcceptErrors - n \<and>
    (count_list ls AcceptFails = kMaxAcceptErrors - n \<longrightarrow> phase s' = Opening) \<and>
    (g_woke (flags s) \<longrightarrow>
       phase (accept_failed n s) = Opening \<and> \<not> g_woke (flags (accept_failed n s)))"
proof -
  have inv: "run_inv cfg s" using runs_inv [OF assms(1)] by (simp add: run_inv_def boot_state_def)
  then have "run_inv cfg s'" using runs_inv assms(4) by blast
  then have "budget s' = 0 \<Longrightarrow> phase s' = Opening"
    by (auto simp: budget_def run_inv_def split: phase.splits)
  moreover have "count_list ls AcceptFails + budget s' \<le> kMaxAcceptErrors - n"
    using budget_runs [OF assms(4,5) inv assms(3)] assms(2) by (simp add: budget_def)
  ultimately show ?thesis by (auto simp: accept_failed_def TakeWokeFlag_def)
qed

theorem dead_listener_rebuilt_witness:
  "count_list [AcceptFails, Psc Psc_Awake] AcceptFails \<le> kMaxAcceptErrors - 0"
proof -
  let ?s0 = "boot_state () :: unit run_state"
  let ?s1 = "?s0\<lparr>phase := Accepting 0\<rparr>"
  let ?s2 = "accept_failed 0 ?s1"
  have s1: "runs idle_platform default_config ?s0 [ListenOk] ?s1"
    by (rule runs.step [OF run_step.listen_ok runs.stop]) (simp add: boot_state_def)
  have s2: "runs idle_platform default_config ?s1 [AcceptFails, Psc Psc_Awake]
      (?s2\<lparr>flags := note_request Psc_Awake (flags ?s2)\<rparr>)"
    by (rule runs.step [OF run_step.accept_fails runs.step [OF run_step.psc runs.stop]]) simp
  have "phase ?s1 = Accepting 0" "\<not> g_asleep (flags ?s1)"
    "\<forall>l \<in> set [AcceptFails, Psc Psc_Awake]. dead_awake l"
    by (simp_all add: boot_state_def dead_awake_def)
  with dead_listener_rebuilt [OF s1 _ _ s2] show ?thesis by blast
qed

end
