(* ===== verification/Guards.thy ===== *)
theory Guards
  imports ServerLaws
begin

text \<open>
  The brick guards (\<^verbatim>\<open>handlers/guards.cpp\<close>): the preflight check, the audit journal on the SD card
  with its one rotation, and the boot watchdog that counts boots nobody connected after. What the
  guards use of the card and of the console's sensors is a record of functions over an abstract
  world; a file is opened, written and closed in one call.
\<close>

section \<open>The card and the sensors\<close>

record 'w card =
  card_mkdir :: "string \<Rightarrow> 'w \<Rightarrow> 'w"
  card_append :: "string \<Rightarrow> byte list \<Rightarrow> 'w \<Rightarrow> 'w option"
  card_write :: "string \<Rightarrow> byte list \<Rightarrow> 'w \<Rightarrow> 'w option"
  card_read :: "'w \<Rightarrow> string \<Rightarrow> (nat \<times> byte list) option"
  card_size :: "'w \<Rightarrow> string \<Rightarrow> nat option"
  card_rename :: "string \<Rightarrow> string \<Rightarrow> 'w \<Rightarrow> 'w"
  card_free :: "'w \<Rightarrow> i64 option"
  sys_tick :: "'w \<Rightarrow> u64"
  sys_tick_freq :: u64
  battery_charge :: "'w \<Rightarrow> u32 option"
  charger_connected :: "'w \<Rightarrow> bool option"

definition kJournalPath :: string where
  "kJournalPath = ''sdmc:/switch-agentd/journal.log''"

definition kJournalOld :: string where
  "kJournalOld = ''sdmc:/switch-agentd/journal.log.1''"

definition kBootCountPath :: string where
  "kBootCountPath = ''sdmc:/switch-agentd/bootcount''"

definition kJournalMaxBytes :: nat where
  "kJournalMaxBytes = 512 * 1024"

definition kMinBatteryPercentForRiskyOps :: u32 where
  "kMinBatteryPercentForRiskyOps = 30"

definition EnsureDir :: "'w card \<Rightarrow> 'w \<Rightarrow> 'w" where
  "EnsureDir C w = card_mkdir C ''sdmc:/switch-agentd'' w"

section \<open>The journal\<close>

text \<open>\<^verbatim>\<open>"[%6llu] %-20s %s\n"\<close>\<close>

definition journal_line :: "u64 \<Rightarrow> string \<Rightarrow> string \<Rightarrow> string" where
  "journal_line secs op detail =
     ''['' @ pad_left 6 (CHR '' '') (dec_nat (unat secs)) @ ''] '' @ pad_right 20 (c_str op) @ '' '' @
     c_str detail @ [CHR 0x0A]"

definition JournalAppend :: "'w card \<Rightarrow> string \<Rightarrow> string \<Rightarrow> 'w \<Rightarrow> 'w" where
  "JournalAppend C op detail w =
     (let w = EnsureDir C w;
          secs = sys_tick C w div sys_tick_freq C
      in case card_append C kJournalPath (bytes_of (journal_line secs op detail)) w of
           None \<Rightarrow> w
         | Some w \<Rightarrow>
             (case card_size C w kJournalPath of
                Some n \<Rightarrow> if n > kJournalMaxBytes then card_rename C kJournalPath kJournalOld w else w
              | None \<Rightarrow> w))"

record 'w guards =
  gworld :: 'w
  g_boot_count :: i32

definition JournalRead :: "'w card \<Rightarrow> request \<Rightarrow> 'w guards \<Rightarrow> (bool \<times> reply) \<times> 'w guards" where
  "JournalRead C req s =
     (let m = sint (to_i32 (as_int 16384 (arg req ''max_bytes'')));
          max_bytes = (if m < 256 \<or> m > 48000 then 16384 else nat m)
      in case card_read C (gworld s) kJournalPath of
           None \<Rightarrow>
             (success [(''content'', JStr ''''),
                (''note'', JStr ''no journal yet (nothing mutating has been logged)'')], s)
         | Some (len, bs) \<Rightarrow>
             let start = (if len > max_bytes then len - max_bytes else 0)
             in (success [(''total_bytes'', JInt (word_of_nat len)), (''truncated'', JBool (start > 0)),
                   (''content'', JStr (string_of_bytes (take (len - start) (drop start bs))))], s))"

section \<open>The preflight check\<close>

definition battery_warning :: string where
  "battery_warning = ''battery below '' @ dec_nat (unat kMinBatteryPercentForRiskyOps) @
     ''%: a power loss part-way through a NAND write or a payload reboot can leave the console unbootable''"

definition charger_warning :: string where
  "charger_warning = ''not on charger; plug in before anything irreversible''"

definition space_warning :: string where
  "space_warning = ''under 1 GiB free on the SD card: not enough room for a meaningful backup''"

definition sysmmc_warning :: string where
  "sysmmc_warning = ''running on sysMMC: a mistake here is NOT recoverable by restoring an SD image, unlike emuMMC''"

text \<open>\<open>charge\<close> is 0 where the battery cannot be read; the charger's warning uses it all the same.\<close>

definition PreflightCheck :: "'w card \<Rightarrow> request \<Rightarrow> 'w guards \<Rightarrow> (bool \<times> reply) \<times> 'w guards" where
  "PreflightCheck C req s =
     (let w = gworld s;
          charge = (case battery_charge C w of Some c \<Rightarrow> c | None \<Rightarrow> 0);
          low = (battery_charge C w \<noteq> None \<and> charge < kMinBatteryPercentForRiskyOps);
          problems =
            (if low then [JStr battery_warning] else []) @
            (if charger_connected C w = Some False \<and> charge < 50 then [JStr charger_warning] else []) @
            (case card_free C w of
               Some n \<Rightarrow> if n <s 2 ^ 30 then [JStr space_warning] else []
             | None \<Rightarrow> []) @
            (if \<not> is_emummc (req_cfg req) then [JStr sysmmc_warning] else [])
      in (success
            ((case battery_charge C w of Some c \<Rightarrow> [(''battery_percent'', JInt (ucast c))] | None \<Rightarrow> []) @
             (case charger_connected C w of Some b \<Rightarrow> [(''on_charger'', JBool b)] | None \<Rightarrow> []) @
             (case card_free C w of Some n \<Rightarrow> [(''sd_free_bytes'', JInt n)] | None \<Rightarrow> []) @
             [(''emummc'', JBool (is_emummc (req_cfg req))),
              (''nand_write_allowed'', JBool (allow_nand_write (req_cfg req))),
              (''safe_for_irreversible_ops'', JBool (\<not> low)), (''warnings'', JArr problems)]), s))"

section \<open>The boot watchdog\<close>

text \<open>\<^verbatim>\<open>char buf[16]\<close> holds at most 15 bytes and a NUL.\<close>

definition read_boot_count :: "'w card \<Rightarrow> 'w \<Rightarrow> i32 \<Rightarrow> i32" where
  "read_boot_count C w dflt =
     (case card_read C w kBootCountPath of
        None \<Rightarrow> dflt
      | Some (_, bs) \<Rightarrow> strtol_int (c_str (string_of_bytes (take 15 bs))))"

definition write_boot_count :: "'w card \<Rightarrow> string \<Rightarrow> 'w \<Rightarrow> 'w" where
  "write_boot_count C txt w =
     (case card_write C kBootCountPath (bytes_of txt) w of None \<Rightarrow> w | Some w \<Rightarrow> w)"

definition WatchdogOnBoot :: "'w card \<Rightarrow> 'w guards \<Rightarrow> 'w guards" where
  "WatchdogOnBoot C s =
     (let w = EnsureDir C (gworld s);
          n = read_boot_count C w (g_boot_count s) + 1;
          w = write_boot_count C (dec_int (sint n)) w
      in \<lparr>gworld = (if sint n \<ge> 3
                    then JournalAppend C ''watchdog''
                           (''boot #'' @ dec_int (sint n) @ '' with no prior successful connection'') w
                    else w),
          g_boot_count = n\<rparr>)"

definition WatchdogOnConnect :: "'w card \<Rightarrow> 'w guards \<Rightarrow> 'w guards" where
  "WatchdogOnConnect C s =
     (if g_boot_count s = 0 then s
      else \<lparr>gworld = write_boot_count C ''0'' (gworld s), g_boot_count = 0\<rparr>)"

definition WatchdogStatus :: "request \<Rightarrow> 'w guards \<Rightarrow> (bool \<times> reply) \<times> 'w guards" where
  "WatchdogStatus req s =
     (success [(''boots_without_connection'', JInt (of_i32 (g_boot_count s))),
        (''healthy'', JBool (g_boot_count s = 0))], s)"

section \<open>The handler contract\<close>

interpretation preflight: command_handler "PreflightCheck C"
  by unfold_locales (auto simp: PreflightCheck_def Let_def split: option.split)

interpretation journal: command_handler "JournalRead C"
  by unfold_locales (auto simp: JournalRead_def Let_def split: option.split)

interpretation watchdog: command_handler WatchdogStatus
  by unfold_locales (simp add: WatchdogStatus_def)

section \<open>A card that keeps what is written\<close>

text \<open>
  Documented behaviour of the SD card's file system as the guards rely on it: \<open>view\<close> gives the
  files' contents; creating the directory changes no file; a renamed file replaces the target.
\<close>

definition keeps_files :: "'w card \<Rightarrow> ('w \<Rightarrow> string \<Rightarrow> byte list option) \<Rightarrow> bool" where
  "keeps_files C view \<longleftrightarrow>
     (\<forall>d w. view (card_mkdir C d w) = view w) \<and>
     (\<forall>p bs w. \<exists>w'. card_append C p bs w = Some w' \<and>
        view w' = (view w)(p \<mapsto> (case view w p of None \<Rightarrow> [] | Some old \<Rightarrow> old) @ bs)) \<and>
     (\<forall>p bs w. \<exists>w'. card_write C p bs w = Some w' \<and> view w' = (view w)(p \<mapsto> bs)) \<and>
     (\<forall>w p. card_read C w p = map_option (\<lambda>bs. (length bs, bs)) (view w p)) \<and>
     (\<forall>w p. card_size C w p = map_option length (view w p)) \<and>
     (\<forall>p q w bs. view w p = Some bs \<longrightarrow> view (card_rename C p q w) = ((view w)(q \<mapsto> bs))(p := None))"

definition ram_card :: "(string \<Rightarrow> byte list option) card" where
  "ram_card =
     \<lparr>card_mkdir = (\<lambda>d w. w),
      card_append = (\<lambda>p bs w. Some (w(p \<mapsto> (case w p of None \<Rightarrow> [] | Some old \<Rightarrow> old) @ bs))),
      card_write = (\<lambda>p bs w. Some (w(p \<mapsto> bs))),
      card_read = (\<lambda>w p. map_option (\<lambda>bs. (length bs, bs)) (w p)),
      card_size = (\<lambda>w p. map_option length (w p)),
      card_rename = (\<lambda>p q w. case w p of None \<Rightarrow> w | Some bs \<Rightarrow> (w(q \<mapsto> bs))(p := None)),
      card_free = (\<lambda>w. Some (2 ^ 40)), sys_tick = (\<lambda>w. 19200000), sys_tick_freq = 19200000,
      battery_charge = (\<lambda>w. None), charger_connected = (\<lambda>w. Some True)\<rparr>"

lemma ram_card_keeps: "keeps_files ram_card id"
  by (simp add: keeps_files_def ram_card_def)

text \<open>What the journal's two files hold together, older part first.\<close>

definition file_text :: "('w \<Rightarrow> string \<Rightarrow> byte list option) \<Rightarrow> 'w \<Rightarrow> string \<Rightarrow> byte list" where
  "file_text view w p = (case view w p of None \<Rightarrow> [] | Some bs \<Rightarrow> bs)"

abbreviation log_now where "log_now view w \<equiv> file_text view w kJournalPath"
abbreviation log_old where "log_old view w \<equiv> file_text view w kJournalOld"

lemma paths_distinct:
  "kJournalPath \<noteq> kJournalOld" "kBootCountPath \<noteq> kJournalPath" "kBootCountPath \<noteq> kJournalOld"
  "kJournalOld \<noteq> kJournalPath" "kJournalPath \<noteq> kBootCountPath" "kJournalOld \<noteq> kBootCountPath"
  by (simp_all add: kJournalPath_def kJournalOld_def kBootCountPath_def)

end
