(* ===== verification/GuardsLaws.thy ===== *)
theory GuardsLaws
  imports Guards
begin

text \<open>
  What the brick guards guarantee: the journal keeps the newest half mebibyte of what was logged,
  the watchdog counts exactly the boots nobody connected after, and the preflight check says no
  exactly on a battery known to be low.
\<close>

section \<open>One journal entry\<close>

lemma keeps_filesD:
  assumes "keeps_files C view"
  shows "view (card_mkdir C d w) = view w"
    and "\<exists>w'. card_append C p bs w = Some w' \<and> view w' = (view w)(p \<mapsto> file_text view w p @ bs)"
    and "\<exists>w'. card_write C p bs w = Some w' \<and> view w' = (view w)(p \<mapsto> bs)"
    and "card_read C w p = map_option (\<lambda>bs. (length bs, bs)) (view w p)"
    and "card_size C w p = map_option length (view w p)"
    and "view w p = Some bs \<Longrightarrow> view (card_rename C p q w) = ((view w)(q \<mapsto> bs))(p := None)"
  using assms unfolding keeps_files_def file_text_def by blast+

definition entry_bytes :: "'w card \<Rightarrow> string \<Rightarrow> string \<Rightarrow> 'w \<Rightarrow> byte list" where
  "entry_bytes C op detail w =
     bytes_of (journal_line (sys_tick C (EnsureDir C w) div sys_tick_freq C) op detail)"

lemma JournalAppend_view:
  fixes op detail :: string and w :: 'w
  assumes "keeps_files C view"
  defines "now \<equiv> log_now view w @ entry_bytes C op detail w"
  shows "view (JournalAppend C op detail w) =
    (if length now > kJournalMaxBytes
     then (view w)(kJournalOld \<mapsto> now, kJournalPath := None)
     else (view w)(kJournalPath \<mapsto> now))"
proof -
  note K = keeps_filesD [OF assms(1)]
  let ?w0 = "EnsureDir C w"
  have v0: "view ?w0 = view w" by (simp add: EnsureDir_def K(1))
  then have t: "log_now view ?w0 = log_now view w" by (simp add: file_text_def)
  obtain w1 where w1: "card_append C kJournalPath (entry_bytes C op detail w) ?w0 = Some w1"
    "view w1 = (view w)(kJournalPath \<mapsto> now)"
    using K(2) [of kJournalPath "entry_bytes C op detail w" ?w0] v0 t by (auto simp: now_def)
  have "card_size C w1 kJournalPath = Some (length now)" by (simp add: K(5) w1(2))
  moreover have "view (card_rename C kJournalPath kJournalOld w1) =
      (view w)(kJournalOld \<mapsto> now, kJournalPath := None)"
    using K(6) [of w1 kJournalPath now kJournalOld] w1(2) paths_distinct by (simp add: fun_upd_twist)
  ultimately show ?thesis
    using w1 by (simp add: JournalAppend_def Let_def entry_bytes_def)
qed

lemma JournalAppend_texts:
  fixes op detail :: string and w :: 'w
  assumes "keeps_files C view"
  defines "now \<equiv> log_now view w @ entry_bytes C op detail w"
  shows "log_now view (JournalAppend C op detail w) = (if length now > kJournalMaxBytes then [] else now)"
    and "log_old view (JournalAppend C op detail w) =
      (if length now > kJournalMaxBytes then now else log_old view w)"
    and "view (JournalAppend C op detail w) kBootCountPath = view w kBootCountPath"
  using JournalAppend_view [OF assms(1), of op detail w] paths_distinct
  by (auto simp: file_text_def now_def)

section \<open>A history of entries\<close>

fun append_all :: "'w card \<Rightarrow> (string \<times> string) list \<Rightarrow> 'w \<Rightarrow> 'w" where
  "append_all C [] w = w"
| "append_all C ((op, detail) # es) w = append_all C es (JournalAppend C op detail w)"

text \<open>Everything that was logged, in order.\<close>

fun logged :: "'w card \<Rightarrow> (string \<times> string) list \<Rightarrow> 'w \<Rightarrow> byte list" where
  "logged C [] w = []"
| "logged C ((op, detail) # es) w = entry_bytes C op detail w @ logged C es (JournalAppend C op detail w)"

definition journal_ok :: "('w \<Rightarrow> string \<Rightarrow> byte list option) \<Rightarrow> byte list \<Rightarrow> 'w \<Rightarrow> bool" where
  "journal_ok view history w \<longleftrightarrow>
     length (log_now view w) \<le> kJournalMaxBytes \<and>
     (\<exists>lost. history = lost @ log_old view w @ log_now view w \<and>
       (lost \<noteq> [] \<longrightarrow> kJournalMaxBytes < length (log_old view w)))"

lemma journal_ok_step:
  assumes "keeps_files C view" "journal_ok view h w"
  shows "journal_ok view (h @ entry_bytes C op detail w) (JournalAppend C op detail w)"
proof -
  note T = JournalAppend_texts [OF assms(1), of op detail w]
  obtain lost where l: "h = lost @ log_old view w @ log_now view w"
    "lost \<noteq> [] \<longrightarrow> kJournalMaxBytes < length (log_old view w)"
    using assms(2) by (auto simp: journal_ok_def)
  show ?thesis
  proof (cases "length (log_now view w @ entry_bytes C op detail w) > kJournalMaxBytes")
    case True
    then show ?thesis using T l by (auto simp: journal_ok_def intro!: exI [of _ "lost @ log_old view w"])
  next
    case False
    then show ?thesis using T l by (auto simp: journal_ok_def intro!: exI [of _ lost])
  qed
qed

lemma journal_ok_all:
  assumes "keeps_files C view"
  shows "journal_ok view h w \<Longrightarrow> journal_ok view (h @ logged C es w) (append_all C es w)"
proof (induction es arbitrary: h w)
  case (Cons e es)
  obtain op detail where e: "e = (op, detail)" by (cases e)
  show ?case using Cons.IH [OF journal_ok_step [OF assms Cons.prems, of op detail]] by (simp add: e)
qed simp

section \<open>The watchdog\<close>

datatype boot_event = Boot | Connect

text \<open>A boot starts the process anew: its static counter is zero before the watchdog runs.\<close>

fun watch_step :: "'w card \<Rightarrow> boot_event \<Rightarrow> 'w guards \<Rightarrow> 'w guards" where
  "watch_step C Boot s = WatchdogOnBoot C (s\<lparr>g_boot_count := 0\<rparr>)"
| "watch_step C Connect s = WatchdogOnConnect C s"

definition watch_run :: "'w card \<Rightarrow> boot_event list \<Rightarrow> 'w guards \<Rightarrow> 'w guards" where
  "watch_run C es s = foldl (\<lambda>s e. watch_step C e s) s es"

definition lonely_boots :: "boot_event list \<Rightarrow> nat" where
  "lonely_boots es = length (takeWhile (\<lambda>e. e = Boot) (rev es))"

definition count_file :: "('w \<Rightarrow> string \<Rightarrow> byte list option) \<Rightarrow> 'w guards \<Rightarrow> nat \<Rightarrow> bool" where
  "count_file view s n \<longleftrightarrow>
     (case view (gworld s) kBootCountPath of None \<Rightarrow> n = 0 | Some bs \<Rightarrow> bs = bytes_of (dec_nat n))"

lemma strtol_int_dec_nat: "n < 2 ^ 31 \<Longrightarrow> strtol_int (dec_nat n) = word_of_nat n"
proof -
  assume n: "n < 2 ^ 31"
  then have "sint (word_of_nat n :: i64) = int n"
    by (simp add: signed_of_nat signed_take_bit_int_eq_self)
  then have "strtoll10 (dec_nat n) = word_of_nat n"
    using strtoll10_dec_int [of "word_of_nat n"] by (simp add: dec_int_def)
  moreover have "take_bit 64 n = n" using n by (simp add: take_bit_nat_eq_self)
  ultimately show ?thesis by (simp add: strtol_int_def to_i32_def unsigned_of_nat)
qed

lemma write_boot_count_view:
  "keeps_files C view \<Longrightarrow> view (write_boot_count C txt w) = (view w)(kBootCountPath \<mapsto> bytes_of txt)"
  using keeps_filesD(3) [of C view kBootCountPath "bytes_of txt" w] by (auto simp: write_boot_count_def)

lemma digits_c_str: "c_str (dec_nat n) = dec_nat n"
  by (rule c_str_id) (auto dest!: dec_nat_digits simp: is_digit_def)

lemma read_boot_count_file:
  assumes "keeps_files C view" "count_file view s n" "n < 2 ^ 31" "view w = view (gworld s)"
  shows "read_boot_count C w 0 = word_of_nat n"
proof (cases "view (gworld s) kBootCountPath")
  case None
  then show ?thesis using assms by (simp add: read_boot_count_def keeps_filesD(4) count_file_def)
next
  case (Some bs)
  have "length (dec_nat n) \<le> 10" using assms(3) by (intro dec_nat_length) simp_all
  then show ?thesis
    using assms Some strtol_int_dec_nat [OF assms(3)]
    by (simp add: read_boot_count_def keeps_filesD(4) count_file_def take_map digits_c_str comp_def)
qed

lemma WatchdogOnBoot_counts:
  assumes "keeps_files C view" "count_file view s n" "Suc n < 2 ^ 31"
  defines "s' \<equiv> WatchdogOnBoot C (s\<lparr>g_boot_count := 0\<rparr>)"
  shows "g_boot_count s' = word_of_nat (Suc n) \<and> count_file view s' (Suc n)"
proof -
  let ?w = "EnsureDir C (gworld s)"
  have v: "view ?w = view (gworld s)" by (simp add: EnsureDir_def keeps_filesD(1) [OF assms(1)])
  have r: "read_boot_count C ?w 0 + 1 = (word_of_nat (Suc n) :: i32)"
    using read_boot_count_file [OF assms(1,2) _ v] assms(3) by simp
  have "sint (word_of_nat (Suc n) :: i32) = int (Suc n)"
    using assms(3) by (simp only: signed_of_nat) (simp add: signed_take_bit_int_eq_self)
  then have "dec_int (sint (word_of_nat (Suc n) :: i32)) = dec_nat (Suc n)"
    by (simp add: dec_int_def del: of_nat_Suc)
  then show ?thesis
    using JournalAppend_texts(3) [OF assms(1)] write_boot_count_view [OF assms(1)] r
    by (simp add: s'_def WatchdogOnBoot_def Let_def count_file_def del: of_nat_Suc)
qed

lemma dec_nat_0: "dec_nat 0 = ''0''"
  by code_simp

lemma watch_run_counts:
  assumes "keeps_files C view" "view w kBootCountPath = None" "length es < 2 ^ 31"
  defines "s \<equiv> watch_run C es \<lparr>gworld = w, g_boot_count = 0\<rparr>"
  shows "g_boot_count s = word_of_nat (lonely_boots es) \<and> count_file view s (lonely_boots es)"
  unfolding s_def using assms(3)
proof (induction es rule: rev_induct)
  case Nil
  then show ?case using assms(2) by (simp add: watch_run_def lonely_boots_def count_file_def)
next
  case (snoc e es)
  let ?s = "watch_run C es \<lparr>gworld = w, g_boot_count = 0\<rparr>"
  have run: "watch_run C (es @ [d]) x = watch_step C d (watch_run C es x)" for d x by (simp add: watch_run_def)
  have IH: "g_boot_count ?s = word_of_nat (lonely_boots es)" "count_file view ?s (lonely_boots es)"
    using snoc by auto
  have le: "lonely_boots es \<le> length es"
    using length_takeWhile_le [of "\<lambda>e. e = Boot" "rev es"] by (simp add: lonely_boots_def)
  show ?case
  proof (cases e)
    case Boot
    then have "lonely_boots (es @ [e]) = Suc (lonely_boots es)" by (simp add: lonely_boots_def)
    then show ?thesis using WatchdogOnBoot_counts [OF assms(1) IH(2)] le snoc.prems Boot run by simp
  next
    case Connect
    then have l: "lonely_boots (es @ [e]) = 0" by (simp add: lonely_boots_def)
    have z: "unat (word_of_nat (lonely_boots es) :: i32) = lonely_boots es"
      using le snoc.prems by (simp add: unat_of_nat take_bit_nat_eq_self)
    then have "word_of_nat (lonely_boots es) = (0 :: i32) \<longleftrightarrow> lonely_boots es = 0" by (auto simp: unat_eq_0 [symmetric])
    then have "g_boot_count ?s = 0 \<longleftrightarrow> lonely_boots es = 0" by (simp only: IH(1))
    then consider "g_boot_count ?s = 0" "lonely_boots es = 0" | "g_boot_count ?s \<noteq> 0" by auto
    then show ?thesis
    proof cases
      case 1
      then show ?thesis using IH(2) l Connect by (simp add: run WatchdogOnConnect_def)
    next
      case 2
      have "count_file view \<lparr>gworld = write_boot_count C ''0'' (gworld ?s), g_boot_count = 0\<rparr> 0"
        unfolding count_file_def guards.select_convs write_boot_count_view [OF assms(1)] by (simp add: dec_nat_0)
      then show ?thesis using 2 l Connect by (simp add: run WatchdogOnConnect_def)
    qed
  qed
qed

section \<open>Properties\<close>



text \<open>
  The boot watchdog counts what it says. Over any history of fewer than \<open>2 ^ 31\<close> boots and
  connections, starting from no counter file, what \<^verbatim>\<open>watchdog\<close> reports is the number of boots since
  the last connection, across restarts and through the file's text, and it says healthy exactly
  when the current boot has been connected to.
\<close>

theorem watchdog_counts:
  assumes "keeps_files C view" "view w kBootCountPath = None" "length es < 2 ^ 31"
    and "j = reply_json (snd (fst (WatchdogStatus req (watch_run C es \<lparr>gworld = w, g_boot_count = 0\<rparr>))))"
  shows "idx j ''boots_without_connection'' = JInt (word_of_nat (lonely_boots es)) \<and>
    idx j ''healthy'' = JBool (lonely_boots es = 0)"
proof -
  have le: "lonely_boots es < 2 ^ 31"
    using length_takeWhile_le [of "\<lambda>e. e = Boot" "rev es"] assms(3) by (simp add: lonely_boots_def)
  then have "sint (word_of_nat (lonely_boots es) :: i32) = int (lonely_boots es)"
    by (simp add: signed_of_nat signed_take_bit_int_eq_self)
  then have "of_i32 (word_of_nat (lonely_boots es)) = word_of_nat (lonely_boots es)"
    by (simp add: of_i32_def scast_eq)
  moreover have "word_of_nat (lonely_boots es) = (0 :: i32) \<longleftrightarrow> lonely_boots es = 0"
    using le by (auto simp: unat_eq_0 [symmetric] unat_of_nat take_bit_nat_eq_self)
  ultimately show ?thesis
    using watch_run_counts [OF assms(1-3)] assms(4)
    by (simp add: WatchdogStatus_def success_def success_out_def json_fields_def)
qed

theorem watchdog_counts_witness:
  "idx (reply_json (snd (fst (WatchdogStatus \<lparr>req_msg = JNull, req_payload = [], req_cfg = default_config\<rparr>
     (watch_run ram_card [Boot, Connect, Boot, Boot, Boot] \<lparr>gworld = (\<lambda>_. None), g_boot_count = 0\<rparr>)))))
     ''boots_without_connection'' = JInt 3"
  using watchdog_counts [OF ram_card_keeps, of "\<lambda>_. None" "[Boot, Connect, Boot, Boot, Boot]", OF _ _ refl]
  by (simp add: lonely_boots_def)

text \<open>
  The preflight verdict. The check says unsafe exactly when the battery can be read and is below
  thirty percent. A battery that cannot be read counts as safe, although the same reply then warns,
  off the charger, as if it were empty.
\<close>

theorem preflight_verdict:
  "let j = reply_json (snd (fst (PreflightCheck C req s))) in
   idx j ''safe_for_irreversible_ops'' =
     JBool (case battery_charge C (gworld s) of None \<Rightarrow> True | Some c \<Rightarrow> 30 \<le> c) \<and>
   (JStr charger_warning \<in> set (as_array (idx j ''warnings'')) \<longleftrightarrow>
      charger_connected C (gworld s) = Some False \<and>
      (case battery_charge C (gworld s) of None \<Rightarrow> True | Some c \<Rightarrow> c < 50)) \<and>
   (JStr sysmmc_warning \<in> set (as_array (idx j ''warnings'')) \<longleftrightarrow> \<not> is_emummc (req_cfg req))"
  by (cases "battery_charge C (gworld s)"; cases "charger_connected C (gworld s)"; cases "card_free C (gworld s)")
    (auto simp: PreflightCheck_def Let_def success_def success_out_def json_fields_def not_less
      charger_warning_def sysmmc_warning_def space_warning_def battery_warning_def
      kMinBatteryPercentForRiskyOps_def)

text \<open>
  Reading the journal gives the end of the current file only: its last \<^verbatim>\<open>max_bytes\<close> bytes, and
  whether something precedes them. Right after a rotation there is no current file, and the reply
  claims that nothing mutating was ever logged.
\<close>

theorem journal_read_tail:
  assumes "keeps_files C view" "sint (to_i32 (as_int 16384 (arg req ''max_bytes''))) = int n" "256 \<le> n" "n \<le> 48000"
    and "j = reply_json (snd (fst (JournalRead C req s)))"
  shows "idx j ''content'' =
      JStr (string_of_bytes (drop (length (log_now view (gworld s)) - n) (log_now view (gworld s)))) \<and>
    (view (gworld s) kJournalPath \<noteq> None \<longrightarrow>
      idx j ''truncated'' = JBool (n < length (log_now view (gworld s)))) \<and>
    (\<forall>op detail w. gworld s = JournalAppend C op detail w \<and>
        kJournalMaxBytes < length (log_now view w @ entry_bytes C op detail w) \<longrightarrow>
      idx j ''note'' = JStr ''no journal yet (nothing mutating has been logged)'')"
proof (cases "view (gworld s) kJournalPath")
  case None
  then show ?thesis
    using assms by (simp add: JournalRead_def keeps_filesD(4) Let_def success_def success_out_def
        json_fields_def file_text_def)
next
  case (Some bs)
  have "gworld s = JournalAppend C op detail w \<and>
      kJournalMaxBytes < length (log_now view w @ entry_bytes C op detail w) \<longrightarrow> False" for op detail w
    using JournalAppend_view [OF assms(1), of op detail w] Some by auto
  then show ?thesis
    using assms Some by (auto simp: JournalRead_def keeps_filesD(4) Let_def success_def success_out_def
        json_fields_def file_text_def)
qed

theorem journal_read_tail_witness:
  "let w = [kJournalPath \<mapsto> replicate 300 65];
       j = reply_json (snd (fst (JournalRead ram_card
             \<lparr>req_msg = json_fields [(''max_bytes'', JInt 256)], req_payload = [], req_cfg = default_config\<rparr>
             \<lparr>gworld = w, g_boot_count = 0\<rparr>)))
   in idx j ''content'' = JStr (replicate 256 (CHR ''A'')) \<and> idx j ''truncated'' = JBool True"
proof -
  have "chr_of 65 = CHR ''A''" by code_simp
  then show ?thesis
    using journal_read_tail [OF ram_card_keeps, of "\<lparr>req_msg = json_fields [(''max_bytes'', JInt 256)],
        req_payload = [], req_cfg = default_config\<rparr>" 256, OF _ _ _ refl,
        of "\<lparr>gworld = [kJournalPath \<mapsto> replicate 300 65], g_boot_count = 0\<rparr>"]
    by (simp add: json_fields_def to_i32_def file_text_def)
qed

end
