(* ===== verification/Path.thy ===== *)
theory Path
  imports Interfaces
begin

text \<open>
  The path policy (\<^verbatim>\<open>path.hpp\<close>, \<^verbatim>\<open>path.cpp\<close>) of every filesystem command: the normaliser that
  refuses traversal, and the map onto the SD card's device name. The lemmas say which paths are
  accepted, that the result is canonical, and what the accepted path denotes to a file system that
  resolves dot and dot-dot segments itself.
\<close>

section \<open>The normaliser\<close>

definition is_slash :: "char \<Rightarrow> bool" where
  "is_slash c \<longleftrightarrow> c = CHR ''/''"

text \<open>The segment that starts at \<^verbatim>\<open>i\<close>, and the text after the slash that ends it.\<close>

definition seg_of :: "string \<Rightarrow> string" where
  "seg_of s = takeWhile (\<lambda>c. \<not> is_slash c) s"

definition after_seg :: "string \<Rightarrow> string" where
  "after_seg s = drop (length (seg_of s) + 1) s"

lemma after_seg_shorter: "s \<noteq> [] \<Longrightarrow> length (after_seg s) < length s"
  by (cases s) (simp_all add: after_seg_def)

text \<open>The \<^verbatim>\<open>while\<close> loop: the text from \<^verbatim>\<open>i\<close> on, and the parts collected so far.\<close>

function norm_loop :: "string \<Rightarrow> string list \<Rightarrow> string list option" where
  "norm_loop s parts =
     (if s = [] then Some parts
      else if seg_of s = ''..'' then None
      else norm_loop (after_seg s)
             (if seg_of s \<noteq> [] \<and> seg_of s \<noteq> ''.'' then parts @ [seg_of s] else parts))"
  by pat_completeness auto
termination
  by (relation "measure (\<lambda>(s, parts). length s)") (auto simp: after_seg_shorter)

declare norm_loop.simps [simp del]

fun join_slash :: "string list \<Rightarrow> string" where
  "join_slash [] = []"
| "join_slash [p] = p"
| "join_slash (p # q # ps) = p @ CHR ''/'' # join_slash (q # ps)"

definition NormalizePath :: "string \<Rightarrow> string option" where
  "NormalizePath s =
     (if s = [] \<or> hd s \<noteq> CHR ''/'' then None
      else case norm_loop s [] of
             None \<Rightarrow> None
           | Some parts \<Rightarrow> Some (CHR ''/'' # join_slash parts))"

definition ResolveSdPath :: "string \<Rightarrow> string option" where
  "ResolveSdPath s =
     (case NormalizePath s of None \<Rightarrow> None | Some norm \<Rightarrow> Some (''sdmc:'' @ norm))"

section \<open>Segments\<close>

text \<open>All segments of a path, empty ones included.\<close>

function segments :: "string \<Rightarrow> string list" where
  "segments s = (if s = [] then [] else seg_of s # segments (after_seg s))"
  by pat_completeness auto
termination
  by (relation "measure length") (auto simp: after_seg_shorter)

declare segments.simps [simp del]

definition plain_seg :: "string \<Rightarrow> bool" where
  "plain_seg g \<longleftrightarrow> g \<noteq> [] \<and> g \<noteq> ''.''"

definition clean_seg :: "string \<Rightarrow> bool" where
  "clean_seg g \<longleftrightarrow> g \<noteq> [] \<and> g \<noteq> ''.'' \<and> g \<noteq> ''..'' \<and> CHR ''/'' \<notin> set g"

lemma segments_Nil [simp]: "segments [] = []"
  by (simp add: segments.simps)

lemma seg_no_slash: "CHR ''/'' \<notin> set (seg_of s)"
  by (auto simp: seg_of_def is_slash_def dest: set_takeWhileD)

text \<open>The loop keeps the segments that are neither empty nor a dot, and fails on a dot-dot.\<close>

lemma norm_loop_spec:
  "norm_loop s parts =
     (if ''..'' \<in> set (segments s) then None
      else Some (parts @ filter plain_seg (segments s)))"
proof (induction s parts rule: norm_loop.induct)
  case (1 s parts)
  then show ?case
    by (simp add: norm_loop.simps [of s] segments.simps [of s] plain_seg_def [of "seg_of s"])
qed

lemma segments_clean:
  "g \<in> set (segments s) \<Longrightarrow> CHR ''/'' \<notin> set g"
  by (induction s rule: segments.induct)
    (metis empty_iff list.set(1) segments.simps seg_no_slash set_ConsD)

text \<open>Cutting a joined list of clean segments gives the list back.\<close>

lemma seg_of_prefix:
  "CHR ''/'' \<notin> set g \<Longrightarrow> seg_of (g @ CHR ''/'' # s) = g \<and> after_seg (g @ CHR ''/'' # s) = s"
proof -
  assume "CHR ''/'' \<notin> set g"
  then have "seg_of (g @ CHR ''/'' # s) = g"
    unfolding seg_of_def is_slash_def by (intro takeWhile_append_stop) auto
  then show ?thesis by (simp add: after_seg_def)
qed

lemma seg_of_whole: "CHR ''/'' \<notin> set g \<Longrightarrow> seg_of g = g \<and> after_seg g = []"
proof -
  assume "CHR ''/'' \<notin> set g"
  then have "seg_of g = g" by (auto simp: seg_of_def is_slash_def takeWhile_eq_all_conv)
  then show ?thesis by (simp add: after_seg_def)
qed

lemma segments_prefix: "CHR ''/'' \<notin> set g \<Longrightarrow> segments (g @ CHR ''/'' # s) = g # segments s"
  using seg_of_prefix [of g s] by (simp add: segments.simps [of "g @ CHR ''/'' # s"])

lemma segments_single: "CHR ''/'' \<notin> set g \<Longrightarrow> g \<noteq> [] \<Longrightarrow> segments g = [g]"
  using seg_of_whole [of g] by (simp add: segments.simps [of g])

lemma segments_join: "\<forall>g \<in> set gs. clean_seg g \<Longrightarrow> segments (join_slash gs) = gs"
  by (induction gs rule: join_slash.induct) (auto simp: clean_seg_def segments_prefix segments_single)

lemma segments_slash: "segments (CHR ''/'' # s) = [] # segments s"
  using segments_prefix [of "[]" s] by simp

section \<open>What is accepted, and as what\<close>

definition norm_parts :: "string \<Rightarrow> string list" where
  "norm_parts s = filter plain_seg (segments s)"

lemma NormalizePath_spec:
  "NormalizePath s =
     (if s \<noteq> [] \<and> hd s = CHR ''/'' \<and> ''..'' \<notin> set (segments s)
      then Some (CHR ''/'' # join_slash (norm_parts s)) else None)"
  by (simp add: NormalizePath_def norm_loop_spec norm_parts_def)

lemma norm_parts_clean:
  "''..'' \<notin> set (segments s) \<Longrightarrow> g \<in> set (norm_parts s) \<Longrightarrow> clean_seg g"
  by (auto simp: norm_parts_def plain_seg_def clean_seg_def dest: segments_clean)

text \<open>Canonical paths: a slash and clean segments joined by single slashes.\<close>

definition canonical :: "string \<Rightarrow> bool" where
  "canonical q \<longleftrightarrow> (\<exists>gs. q = CHR ''/'' # join_slash gs \<and> (\<forall>g \<in> set gs. clean_seg g))"

lemma NormalizePath_canonical: "NormalizePath s = Some q \<Longrightarrow> canonical q"
  using norm_parts_clean by (auto simp: NormalizePath_spec canonical_def split: if_splits)

lemma canonical_fixed: "canonical q \<Longrightarrow> NormalizePath q = Some q"
proof -
  assume "canonical q"
  then obtain gs where q: "q = CHR ''/'' # join_slash gs" and gs: "\<forall>g \<in> set gs. clean_seg g"
    by (auto simp: canonical_def)
  have segs: "segments q = [] # gs" using gs by (simp add: q segments_slash segments_join)
  have "filter plain_seg gs = gs" using gs by (auto simp: filter_id_conv plain_seg_def clean_seg_def)
  then have "norm_parts q = gs" by (simp add: norm_parts_def segs plain_seg_def)
  moreover have "''..'' \<notin> set (segments q)" using gs by (auto simp: segs clean_seg_def)
  ultimately show ?thesis by (simp add: NormalizePath_spec q)
qed

section \<open>What a file system makes of it\<close>

text \<open>
  The directory a path leads to, resolved one segment at a time from a start directory (a list of
  names from the device root down) as a hierarchical file system does: an empty segment and a dot
  stay, a dot-dot climbs (and stays at the device root), a name descends.
\<close>

fun walk :: "string list \<Rightarrow> string list \<Rightarrow> string list" where
  "walk dir [] = dir"
| "walk dir (g # gs) =
     walk (if g = [] \<or> g = ''.'' then dir else if g = ''..'' then butlast dir else dir @ [g]) gs"

lemma walk_no_dotdot: "''..'' \<notin> set gs \<Longrightarrow> walk dir gs = dir @ filter plain_seg gs"
  by (induction gs arbitrary: dir) (auto simp: plain_seg_def)

lemma walk_normalized:
  assumes "NormalizePath s = Some q"
  shows "walk dir (segments q) = dir @ norm_parts s" "walk dir (segments q) = walk dir (segments s)"
proof -
  from assms have nd: "''..'' \<notin> set (segments s)" and q: "q = CHR ''/'' # join_slash (norm_parts s)"
    by (auto simp: NormalizePath_spec split: if_splits)
  have clean: "\<forall>g \<in> set (norm_parts s). clean_seg g" using norm_parts_clean [OF nd] by blast
  then have segs: "segments q = [] # norm_parts s" by (simp add: q segments_slash segments_join)
  have "''..'' \<notin> set (segments q)" using clean by (auto simp: segs clean_seg_def)
  moreover have "filter plain_seg (segments q) = norm_parts s"
    using clean by (auto simp: segs plain_seg_def clean_seg_def filter_id_conv)
  ultimately show "walk dir (segments q) = dir @ norm_parts s" by (simp add: walk_no_dotdot)
  moreover have "walk dir (segments s) = dir @ norm_parts s"
    using walk_no_dotdot [OF nd] by (simp add: norm_parts_def)
  ultimately show "walk dir (segments q) = walk dir (segments s)" by simp
qed

section \<open>The path as a C string\<close>

text \<open>
  The handlers pass \<^verbatim>\<open>dev.c_str()\<close> on, which ends at the first NUL. A JSON string can carry a NUL
  (\<^verbatim>\<open>\u0000\<close>), so what the file system sees is a prefix of the accepted path, cut inside one
  segment. \<open>confined\<close> is what is left of the policy then: the device is the given one, and no
  segment but the last can be a dot-dot.
\<close>

definition confined :: "string \<Rightarrow> string \<Rightarrow> bool" where
  "confined dev d \<longleftrightarrow> starts_with (dev @ '':/'') d \<and> ''..'' \<notin> set (butlast (segments d))"

lemma seg_of_append:
  "CHR ''/'' \<in> set t \<Longrightarrow> seg_of (t @ u) = seg_of t \<and> after_seg (t @ u) = after_seg t @ u"
proof -
  assume a: "CHR ''/'' \<in> set t"
  then have s: "seg_of (t @ u) = seg_of t"
    by (auto simp: seg_of_def is_slash_def takeWhile_append1)
  have "seg_of t \<noteq> t" using seg_no_slash [of t] a by metis
  then have "length (seg_of t) < length t"
    by (metis length_takeWhile_le order_le_less seg_of_def takeWhile_eq_take take_all_iff order_refl)
  then show ?thesis by (simp add: after_seg_def s)
qed

lemma segments_prefix_butlast: "set (butlast (segments t)) \<subseteq> set (segments (t @ u))"
proof (induction t rule: segments.induct)
  case (1 t)
  show ?case
  proof (cases "CHR ''/'' \<in> set t")
    case True
    then have ne: "t \<noteq> []" by auto
    have "segments (t @ u) = seg_of t # segments (after_seg t @ u)"
      using ne seg_of_append [OF True] by (simp add: segments.simps [of "t @ u"])
    then show ?thesis using 1 ne by (auto simp: segments.simps [of t])
  next
    case False
    show ?thesis
    proof (cases "t = []")
      case False
      with \<open>CHR ''/'' \<notin> set t\<close> show ?thesis by (simp add: segments_single)
    qed simp
  qed
qed

lemma c_str_prefix: "\<exists>u. s = c_str s @ u"
  by (metis c_str_def takeWhile_dropWhile_id)

lemma canonical_segments: "canonical q \<Longrightarrow> ''..'' \<notin> set (segments q)"
  using canonical_fixed by (fastforce simp: NormalizePath_spec split: if_splits)

lemma device_segments:
  "CHR ''/'' \<notin> set dev \<Longrightarrow> hd q = CHR ''/'' \<Longrightarrow> q \<noteq> [] \<Longrightarrow> segments (dev @ q) = dev # tl (segments q)"
  by (cases q) (simp_all add: segments_prefix segments_slash)

section \<open>Paths the handlers build from accepted ones\<close>

text \<open>
  The invariant of a device path as a \<^verbatim>\<open>std::string\<close>, before it is cut at a NUL: it starts with
  the device and has no dot-dot segment. It is kept when a directory entry's name is appended.
\<close>

definition stays :: "string \<Rightarrow> string \<Rightarrow> bool" where
  "stays dev d \<longleftrightarrow> starts_with (dev @ '':/'') d \<and> ''..'' \<notin> set (segments d)"

lemma segments_append_slash:
  "set (segments (t @ CHR ''/'' # u)) \<subseteq> insert [] (set (segments t) \<union> set (segments u))"
proof (induction t rule: segments.induct)
  case (1 t)
  show ?case
  proof (cases "CHR ''/'' \<in> set t")
    case True
    then have ne: "t \<noteq> []" by auto
    have "segments (t @ CHR ''/'' # u) = seg_of t # segments (after_seg t @ CHR ''/'' # u)"
      using ne seg_of_append [OF True] by (simp add: segments.simps [of "t @ CHR ''/'' # u"])
    then show ?thesis using 1 ne by (auto simp: segments.simps [of t])
  next
    case False
    then show ?thesis
      by (cases "t = []") (auto simp: segments_slash segments_prefix segments_single)
  qed
qed

lemma stays_child:
  assumes "stays dev d" "CHR ''/'' \<notin> set name" "name \<noteq> ''..''"
  shows "stays dev (d @ CHR ''/'' # name)"
proof -
  have "set (segments name) \<subseteq> {name}"
    using assms(2) by (cases "name = []") (simp_all add: segments_single)
  then have "''..'' \<notin> set (segments (d @ CHR ''/'' # name))"
    using segments_append_slash [of d name] assms by (auto simp: stays_def)
  then show ?thesis using assms(1) by (auto simp: stays_def starts_with_iff)
qed

lemma starts_with_c_str:
  assumes "starts_with p s" "\<forall>c \<in> set p. code c \<noteq> 0"
  shows "starts_with p (c_str s)"
  using assms by (auto simp: starts_with_iff c_str_def takeWhile_append)

lemma stays_confined:
  assumes "stays dev d" "\<forall>c \<in> set dev. code c \<noteq> 0"
  shows "confined dev (c_str d)"
proof -
  obtain u where u: "d = c_str d @ u" using c_str_prefix by blast
  have "''..'' \<notin> set (butlast (segments (c_str d)))"
    using segments_prefix_butlast [of "c_str d" u] u assms(1) by (auto simp: stays_def)
  moreover have "starts_with (dev @ '':/'') (c_str d)"
    using assms by (intro starts_with_c_str) (auto simp: stays_def)
  ultimately show ?thesis by (simp add: confined_def)
qed

lemma NormalizePath_stays:
  assumes "NormalizePath s = Some q" "CHR ''/'' \<notin> set dev"
  shows "stays dev (dev @ '':'' @ q)"
proof -
  let ?dev = "dev @ '':''"
  have can: "canonical q" using assms(1) by (rule NormalizePath_canonical)
  then obtain r where q: "q = CHR ''/'' # r" by (auto simp: canonical_def)
  have nd: "CHR ''/'' \<notin> set ?dev" using assms(2) by simp
  have "segments (?dev @ q) = ?dev # tl (segments q)"
    using device_segments [OF nd] q by simp
  moreover have "''..'' \<notin> set (segments q)" using can by (rule canonical_segments)
  moreover have "?dev \<noteq> ''..''" by (cases dev) (auto simp: Cons_eq_append_conv)
  ultimately show ?thesis by (simp add: stays_def starts_with_iff q segments_slash)
qed

interpretation sd_paths: path_policy ResolveSdPath "confined ''sdmc''"
  by unfold_locales
    (use NormalizePath_stays [where dev = "''sdmc''"] in
      \<open>auto simp: ResolveSdPath_def intro!: stays_confined split: option.splits\<close>)

section \<open>Properties\<close>

text \<open>
  C9. The policy decides exactly: a path is accepted if and only if it starts with a slash and has
  no dot-dot segment; the result is canonical (one slash between non-empty segments, no dot
  segments), is accepted again unchanged, and leads from any directory to the same place as the
  original text, below that directory.
\<close>

theorem NormalizePath_decides:
  "case NormalizePath s of
     None \<Rightarrow> s = [] \<or> hd s \<noteq> CHR ''/'' \<or> ''..'' \<in> set (segments s)
   | Some q \<Rightarrow> s \<noteq> [] \<and> hd s = CHR ''/'' \<and> ''..'' \<notin> set (segments s) \<and>
       canonical q \<and> NormalizePath q = Some q \<and>
       walk dir (segments q) = walk dir (segments s) \<and>
       walk dir (segments q) = dir @ filter plain_seg (segments s)"
proof (cases "NormalizePath s")
  case None
  then show ?thesis by (auto simp: NormalizePath_spec split: if_splits)
next
  case (Some q)
  then show ?thesis
    using walk_normalized [OF Some, of dir] NormalizePath_canonical [OF Some]
      canonical_fixed [of q]
    by (auto simp: norm_parts_def) (auto simp: NormalizePath_spec split: if_splits)
qed

theorem NormalizePath_decides_witness:
  "''..'' \<in> set (segments ''/a/../b'') \<and>
   walk [''r''] (segments ''/a/b'') = walk [''r''] (segments ''/a//./b'')"
proof -
  have "NormalizePath ''/a/../b'' = None" "NormalizePath ''/a//./b'' = Some ''/a/b''" by code_simp+
  then show ?thesis
    using NormalizePath_decides [of "''/a/../b''" "[]"] NormalizePath_decides [of "''/a//./b''" "[''r'']"]
    by simp
qed

text \<open>
  What reaches the file system stays on the card: for every accepted path the C string handed
  on names the SD device and has no dot-dot segment except possibly its last.
\<close>

theorem ResolveSdPath_confined:
  assumes "ResolveSdPath s = Some d"
  shows "starts_with ''sdmc:/'' (c_str d) \<and> ''..'' \<notin> set (butlast (segments (c_str d)))"
  using sd_paths.resolve_inside [OF assms] by (simp add: confined_def)

theorem ResolveSdPath_confined_witness:
  "starts_with ''sdmc:/'' (c_str ''sdmc:/a/b'')"
proof -
  have "ResolveSdPath ''/a//./b'' = Some ''sdmc:/a/b''" by code_simp
  from ResolveSdPath_confined [OF this] show ?thesis by blast
qed

text \<open>
  The exception is real: the policy compares whole segments of a \<^verbatim>\<open>std::string\<close>, but the file
  system gets \<^verbatim>\<open>c_str()\<close>. A segment that continues after a NUL passes the test and arrives as a
  dot-dot, for any accepted prefix.
\<close>

theorem nul_defeats_policy:
  assumes "NormalizePath s = Some q" "CHR 0x00 \<notin> set q" "q \<noteq> ''/''"
  shows "ResolveSdPath (q @ ''/..'' @ [CHR 0x00]) = Some (''sdmc:'' @ q @ ''/..'' @ [CHR 0x00]) \<and>
    c_str (''sdmc:'' @ q @ ''/..'' @ [CHR 0x00]) = ''sdmc:'' @ q @ ''/..''"
proof -
  obtain gs where q: "q = CHR ''/'' # join_slash gs" and gs: "\<forall>g \<in> set gs. clean_seg g"
    using NormalizePath_canonical [OF assms(1)] by (auto simp: canonical_def)
  have ne: "gs \<noteq> []" using q assms(3) by auto
  let ?n = "''..'' @ [CHR 0x00]"
  have join: "join_slash (gs @ [?n]) = join_slash gs @ CHR ''/'' # ?n" if "gs \<noteq> []" for gs
    using that by (induction gs rule: join_slash.induct) simp_all
  have "canonical (q @ CHR ''/'' # ?n)"
    unfolding canonical_def using gs join [OF ne] q
    by (intro exI [of _ "gs @ [?n]"]) (simp add: clean_seg_def)
  then have "ResolveSdPath (q @ CHR ''/'' # ?n) = Some (''sdmc:'' @ q @ CHR ''/'' # ?n)"
    using canonical_fixed by (simp add: ResolveSdPath_def)
  moreover have "code c \<noteq> 0" if "c \<in> set q" for c
  proof -
    have "c \<noteq> CHR 0x00" using assms(2) that by blast
    then have "code c \<noteq> code (CHR 0x00)" by (simp only: of_char_eq_iff not_False_eq_True)
    then show ?thesis by simp
  qed
  then have "c_str ((''sdmc:'' @ q @ ''/..'') @ [CHR 0x00]) = ''sdmc:'' @ q @ ''/..''"
    unfolding c_str_def by (intro takeWhile_append_stop) auto
  ultimately show ?thesis by simp
qed

theorem nul_defeats_policy_witness:
  "ResolveSdPath (''/x/..'' @ [CHR 0x00]) = Some (''sdmc:/x/..'' @ [CHR 0x00])"
proof -
  have "NormalizePath ''/x'' = Some ''/x''" by code_simp
  from nul_defeats_policy [OF this] show ?thesis by simp
qed

end
