(* ===== verification/Filesystem.thy ===== *)
theory Filesystem
  imports ServerLaws Path
begin

text \<open>
  The filesystem commands (\<^verbatim>\<open>handlers/fs.cpp\<close>) and the device resolution of \<^verbatim>\<open>server.cpp\<close>. The file
  system itself (the console's, behind newlib) is a record of functions over an abstract world;
  what the C library adds on top of it (positions, short reads, end of file) is modelled. A file is
  opened for reading as the bytes that can be read and a flag that says a read error, not the end
  of the file, follows them.
\<close>

section \<open>The file system\<close>

datatype dtype = DT_DIR | DT_REG | DT_UNKNOWN

record fstat =
  st_dir :: bool
  st_size :: i64
  st_mtime :: i64

record fsinfo =
  f_frsize :: u64
  f_bsize :: u64
  f_blocks :: u64
  f_bavail :: u64

record 'w fsapi =
  fs_dir :: "'w \<Rightarrow> string \<Rightarrow> (string \<times> dtype) list option"
  fs_stat :: "'w \<Rightarrow> string \<Rightarrow> fstat option"
  fs_open_read :: "'w \<Rightarrow> string \<Rightarrow> (byte list \<times> bool) option"
  fs_create :: "string \<Rightarrow> 'w \<Rightarrow> bool \<times> 'w"
  fs_can_update :: "'w \<Rightarrow> string \<Rightarrow> bool"
  fs_pwrite :: "string \<Rightarrow> nat \<Rightarrow> byte list \<Rightarrow> 'w \<Rightarrow> nat \<times> 'w"
  fs_mkdir :: "string \<Rightarrow> 'w \<Rightarrow> bool \<times> 'w"
  fs_remove :: "string \<Rightarrow> 'w \<Rightarrow> bool \<times> 'w"
  fs_rmdir :: "string \<Rightarrow> 'w \<Rightarrow> bool \<times> 'w"
  fs_rename :: "string \<Rightarrow> string \<Rightarrow> 'w \<Rightarrow> bool \<times> 'w"
  fs_statvfs :: "'w \<Rightarrow> string \<Rightarrow> fsinfo option"

text \<open>What a handler can change: the file system, and whether a save is mounted (\<^verbatim>\<open>g_save_mounted\<close>).\<close>

record 'w store =
  disk :: 'w
  save_mounted :: bool

definition on_disk :: "('w \<Rightarrow> 'a \<times> 'w) \<Rightarrow> 'w store \<Rightarrow> 'a \<times> 'w store" where
  "on_disk f s = (let (r, w) = f (disk s) in (r, s\<lparr>disk := w\<rparr>))"

section \<open>Devices\<close>

definition ResolveDevicePath :: "bool \<Rightarrow> string \<Rightarrow> string \<Rightarrow> (string \<times> bool) option" where
  "ResolveDevicePath mounted device path =
     (case NormalizePath path of
        None \<Rightarrow> None
      | Some norm \<Rightarrow>
          if device = [] \<or> device = ''sd'' \<or> device = ''sdmc'' then Some (''sdmc:'' @ norm, True)
          else if device = ''save'' then
            if \<not> mounted then None else Some (''save_ro:'' @ norm, False)
          else None)"

definition request_path :: "bool \<Rightarrow> string \<Rightarrow> request \<Rightarrow> (string \<times> bool) option" where
  "request_path mounted dflt req =
     ResolveDevicePath mounted (as_string ''sd'' (arg req ''device'')) (as_string dflt (arg req ''path''))"

definition child :: "string \<Rightarrow> string \<Rightarrow> string" where
  "child dev name = dev @ CHR ''/'' # name"

definition is_dot :: "string \<Rightarrow> bool" where
  "is_dot name \<longleftrightarrow> name = ''.'' \<or> name = ''..''"

definition kind_name :: "bool \<Rightarrow> string" where
  "kind_name d = (if d then ''dir'' else ''file'')"

section \<open>Reading\<close>

definition EntryType :: "'w fsapi \<Rightarrow> 'w \<Rightarrow> dtype \<Rightarrow> string \<Rightarrow> string" where
  "EntryType A w t full =
     (case t of
        DT_DIR \<Rightarrow> ''dir''
      | DT_REG \<Rightarrow> ''file''
      | DT_UNKNOWN \<Rightarrow>
          (case fs_stat A w (c_str full) of
             Some st \<Rightarrow> kind_name (st_dir st)
           | None \<Rightarrow> ''file''))"

definition list_entry :: "'w fsapi \<Rightarrow> 'w \<Rightarrow> string \<Rightarrow> string \<times> dtype \<Rightarrow> json" where
  "list_entry A w dev e =
     (let (name, t) = e; full = child dev name;
          j = json_fields [(''name'', JStr name), (''type'', JStr (EntryType A w t full))]
      in case fs_stat A w (c_str full) of
           None \<Rightarrow> j
         | Some st \<Rightarrow> set_field ''mtime'' (JInt (st_mtime st)) (set_field ''size'' (JInt (st_size st)) j))"

definition FsList :: "'w fsapi \<Rightarrow> request \<Rightarrow> 'w store \<Rightarrow> (bool \<times> reply) \<times> 'w store" where
  "FsList A req s =
     (case request_path (save_mounted s) ''/'' req of
        None \<Rightarrow> (Fail ''bad_path'' ''invalid path, or unknown/unmounted device'', s)
      | Some (dev, _) \<Rightarrow>
          (case fs_dir A (disk s) (c_str dev) of
             None \<Rightarrow> (Fail ''not_found'' ''cannot open directory'', s)
           | Some es \<Rightarrow>
               (success [(''entries'', JArr (map (list_entry A (disk s) dev)
                           (filter (\<lambda>(name, _). \<not> is_dot name) es)))], s)))"

text \<open>\<^verbatim>\<open>fseek(f, offset, SEEK_SET)\<close>: a negative offset fails and leaves the position at the start.\<close>

definition seek_pos :: "i64 \<Rightarrow> nat" where
  "seek_pos offset = (if offset <s 0 then 0 else unat offset)"

definition read_len :: "i64 \<Rightarrow> nat" where
  "read_len len = (if len <s 0 \<or> (2 ^ 20) <s len then 2 ^ 20 else unat len)"

definition FsRead :: "'w fsapi \<Rightarrow> request \<Rightarrow> 'w store \<Rightarrow> (bool \<times> reply) \<times> 'w store" where
  "FsRead A req s =
     (case request_path (save_mounted s) '''' req of
        None \<Rightarrow> (Fail ''bad_path'' ''invalid path, or unknown/unmounted device'', s)
      | Some (dev, _) \<Rightarrow>
          let offset = as_int 0 (arg req ''offset'');
              len = read_len (as_int (2 ^ 20) (arg req ''len''))
          in case fs_open_read A (disk s) (c_str dev) of
               None \<Rightarrow> (Fail ''not_found'' ''cannot open file'', s)
             | Some (content, err) \<Rightarrow>
                 let got = take len (drop (seek_pos offset) content);
                     eof = (length got < len \<and> \<not> err)
                 in (success_out [(''eof'', JBool (eof \<or> length got < len))] got, s))"

definition FsStat :: "'w fsapi \<Rightarrow> request \<Rightarrow> 'w store \<Rightarrow> (bool \<times> reply) \<times> 'w store" where
  "FsStat A req s =
     (case request_path (save_mounted s) '''' req of
        None \<Rightarrow> (Fail ''bad_path'' ''invalid path, or unknown/unmounted device'', s)
      | Some (dev, _) \<Rightarrow>
          (case fs_stat A (disk s) (c_str dev) of
             None \<Rightarrow> (Fail ''not_found'' ''no such path'', s)
           | Some st \<Rightarrow>
               (success [(''type'', JStr (kind_name (st_dir st))), (''size'', JInt (st_size st)),
                         (''mtime'', JInt (st_mtime st))], s)))"

definition FsMounts :: "request \<Rightarrow> 'w store \<Rightarrow> (bool \<times> reply) \<times> 'w store" where
  "FsMounts req s =
     (let sd = json_fields [(''name'', JStr ''/''), (''device'', JStr ''sdmc''), (''writable'', JBool True)];
          nand = json_fields [(''name'', JStr ''nand:user''), (''device'', JStr ''bis:UserDataRoot''),
                         (''writable'', JBool False), (''access'', JStr ''nand.read only'')]
      in (success [(''mounts'', JArr ([sd] @ (if allow_nand_write (req_cfg req) \<or> True then [nand] else [])))], s))"

definition FsFreeSpace :: "'w fsapi \<Rightarrow> request \<Rightarrow> 'w store \<Rightarrow> (bool \<times> reply) \<times> 'w store" where
  "FsFreeSpace A req s =
     (case ResolveDevicePath (save_mounted s) (as_string ''sd'' (arg req ''device'')) ''/'' of
        None \<Rightarrow> (Fail ''bad_device'' ''unknown or unmounted device'', s)
      | Some (dev, writable) \<Rightarrow>
          (case fs_statvfs A (disk s) (c_str dev) of
             None \<Rightarrow> (Fail ''io_error'' ''cannot stat the filesystem'', s)
           | Some st \<Rightarrow>
               let bsize = (if f_frsize st \<noteq> 0 then f_frsize st else f_bsize st);
                   ttl = f_blocks st * bsize;
                   avail = f_bavail st * bsize
               in (success [(''device'', JStr (as_string ''sd'' (arg req ''device''))),
                            (''writable'', JBool writable), (''total_bytes'', JInt ttl),
                            (''free_bytes'', JInt avail), (''used_bytes'', JInt (ttl - avail))], s)))"

section \<open>Hashing\<close>

text \<open>libnx's streaming SHA-256: create, update, finish.\<close>

record 'c sha256_api =
  sha_create :: 'c
  sha_update :: "'c \<Rightarrow> byte list \<Rightarrow> 'c"
  sha_hash :: "'c \<Rightarrow> byte list"

text \<open>The loop reads pieces of 64 KiB until \<^verbatim>\<open>fread\<close> gives nothing.\<close>

function hash_loop :: "'c sha256_api \<Rightarrow> byte list \<Rightarrow> 'c \<Rightarrow> nat \<Rightarrow> 'c \<times> nat" where
  "hash_loop H content ctx ttl =
     (if content = [] then (ctx, ttl)
      else hash_loop H (drop (64 * 1024) content) (sha_update H ctx (take (64 * 1024) content))
             (ttl + length (take (64 * 1024) content)))"
  by pat_completeness auto
termination
  by (relation "measure (\<lambda>(H, content, ctx, ttl). length content)") auto

declare hash_loop.simps [simp del]

definition FsHash :: "'w fsapi \<Rightarrow> 'c sha256_api \<Rightarrow> request \<Rightarrow> 'w store \<Rightarrow> (bool \<times> reply) \<times> 'w store" where
  "FsHash A H req s =
     (case request_path (save_mounted s) '''' req of
        None \<Rightarrow> (Fail ''bad_path'' ''invalid path, or unknown/unmounted device'', s)
      | Some (dev, _) \<Rightarrow>
          if as_string ''sha256'' (arg req ''algo'') \<noteq> ''sha256''
          then (Fail ''bad_arg'' ''only sha256 is supported'', s)
          else (case fs_open_read A (disk s) (c_str dev) of
                  None \<Rightarrow> (Fail ''not_found'' ''cannot open file'', s)
                | Some (content, err) \<Rightarrow>
                    let (ctx, ttl) = hash_loop H content (sha_create H) 0
                    in if err then (Fail ''io_error'' ''read failed while hashing'', s)
                       else (success [(''ok'', JBool True), (''sha256'', JStr (hex_bytes (sha_hash H ctx))),
                                      (''size'', JInt (word_of_nat ttl))], s)))"

section \<open>Writing\<close>

definition RequireWritableSd :: "request \<Rightarrow> (bool \<times> reply) + string" where
  "RequireWritableSd req =
     (let device = as_string ''sd'' (arg req ''device'')
      in if device \<noteq> ''sd'' \<and> device \<noteq> ''sdmc'' then
           Inl (FailS ''read_only_device''
             (''device '' @ quoted device @ '' is mounted read-only; only the SD card (device='' @
              [CHR 0x22] @ ''sd'' @ [CHR 0x22] @ '') can be written to''))
         else case ResolveSdPath (as_string '''' (arg req ''path'')) of
                None \<Rightarrow> Inl (Fail ''bad_path'' ''invalid or unsafe path'')
              | Some dev \<Rightarrow> Inr dev)"

text \<open>Offset 0 truncates; another offset updates in place and creates only where that fails.\<close>

definition open_for_write :: "'w fsapi \<Rightarrow> string \<Rightarrow> i64 \<Rightarrow> 'w \<Rightarrow> bool \<times> 'w" where
  "open_for_write A path offset w =
     (if offset = 0 then fs_create A path w
      else if fs_can_update A w path then (True, w)
      else fs_create A path w)"

definition FsWrite :: "'w fsapi \<Rightarrow> request \<Rightarrow> 'w store \<Rightarrow> (bool \<times> reply) \<times> 'w store" where
  "FsWrite A req s =
     (case RequireWritableSd req of
        Inl e \<Rightarrow> (e, s)
      | Inr dev \<Rightarrow>
          let offset = as_int 0 (arg req ''offset'');
              (opened, s) = on_disk (open_for_write A (c_str dev) offset) s
          in if \<not> opened then (Fail ''io_error'' ''cannot open file for writing'', s)
             else let (n, s) = on_disk (fs_pwrite A (c_str dev) (seek_pos offset) (req_payload req)) s
                  in (success [(''written'', JInt (word_of_nat n))], s))"

definition FsDelete :: "'w fsapi \<Rightarrow> request \<Rightarrow> 'w store \<Rightarrow> (bool \<times> reply) \<times> 'w store" where
  "FsDelete A req s =
     (case RequireWritableSd req of
        Inl e \<Rightarrow> (e, s)
      | Inr dev \<Rightarrow>
          (case fs_stat A (disk s) (c_str dev) of
             None \<Rightarrow> (Fail ''not_found'' ''no such path'', s)
           | Some st \<Rightarrow>
               let (r, s) = on_disk ((if st_dir st then fs_rmdir A else fs_remove A) (c_str dev)) s
               in if \<not> r then (Fail ''io_error'' ''delete failed'', s)
                  else (success [(''ok'', JBool True)], s)))"

definition FsMkdir :: "'w fsapi \<Rightarrow> request \<Rightarrow> 'w store \<Rightarrow> (bool \<times> reply) \<times> 'w store" where
  "FsMkdir A req s =
     (case RequireWritableSd req of
        Inl e \<Rightarrow> (e, s)
      | Inr dev \<Rightarrow>
          let (r, s) = on_disk (fs_mkdir A (c_str dev)) s
          in if \<not> r then (Fail ''io_error'' ''mkdir failed'', s)
             else (success [(''ok'', JBool True)], s))"

definition FsRename :: "'w fsapi \<Rightarrow> request \<Rightarrow> 'w store \<Rightarrow> (bool \<times> reply) \<times> 'w store" where
  "FsRename A req s =
     (let device = as_string ''sd'' (arg req ''device'')
      in if device \<noteq> ''sd'' \<and> device \<noteq> ''sdmc'' then
           (Fail ''read_only_device''
             (''rename is only possible on the SD card (device='' @ [CHR 0x22] @ ''sd'' @ [CHR 0x22] @ '')''), s)
         else case ResolveSdPath (as_string '''' (arg req ''from'')) of
                None \<Rightarrow> (Fail ''bad_path'' ''invalid or unsafe path'', s)
              | Some from_dev \<Rightarrow>
                  (case ResolveSdPath (as_string '''' (arg req ''to'')) of
                     None \<Rightarrow> (Fail ''bad_path'' ''invalid or unsafe path'', s)
                   | Some to_dev \<Rightarrow>
                       let (r, s) = on_disk (fs_rename A (c_str from_dev) (c_str to_dev)) s
                       in if \<not> r then (Fail ''io_error'' ''rename failed'', s)
                          else (success [(''ok'', JBool True)], s)))"

section \<open>Searching\<close>

definition kMaxWalkDepth :: nat where "kMaxWalkDepth = 12"

record find_ctx =
  needle :: string
  files_only :: bool
  flimit :: nat
  scanned :: nat
  max_scan :: nat
  found :: nat
  fout :: "json list"

definition Lower :: "string \<Rightarrow> string" where
  "Lower s = map lower_char s"

definition find_full :: "find_ctx \<Rightarrow> bool" where
  "find_full ctx \<longleftrightarrow> found ctx \<ge> flimit ctx \<or> scanned ctx \<ge> max_scan ctx"

definition child_log :: "string \<Rightarrow> string \<Rightarrow> string" where
  "child_log logical name = (if logical = ''/'' then CHR ''/'' # name else logical @ CHR ''/'' # name)"

definition entry_is_dir :: "'w fsapi \<Rightarrow> 'w \<Rightarrow> string \<Rightarrow> dtype \<Rightarrow> bool" where
  "entry_is_dir A w path t =
     (t = DT_DIR \<or>
      (t = DT_UNKNOWN \<and> (case fs_stat A w (c_str path) of Some st \<Rightarrow> st_dir st | None \<Rightarrow> False)))"

text \<open>What one entry adds before the descent: it is counted, and reported where it matches.\<close>

definition find_visit ::
  "'w fsapi \<Rightarrow> 'w \<Rightarrow> string \<Rightarrow> string \<Rightarrow> string \<Rightarrow> bool \<Rightarrow> find_ctx \<Rightarrow> find_ctx" where
  "find_visit A w dev logical name is_dir ctx =
     (let ctx = ctx\<lparr>scanned := Suc (scanned ctx)\<rparr>;
          matches = (needle ctx = [] \<or> contains (needle ctx) (Lower name))
      in if matches \<and> \<not> (files_only ctx \<and> is_dir) then
           let e = json_fields [(''path'', JStr (child_log logical name)), (''type'', JStr (kind_name is_dir))];
               e = (if \<not> is_dir then
                      (case fs_stat A w (c_str (child dev name)) of
                         None \<Rightarrow> e | Some st \<Rightarrow> set_field ''size'' (JInt (st_size st)) e)
                    else e)
           in ctx\<lparr>fout := fout ctx @ [e], found := Suc (found ctx)\<rparr>
         else ctx)"

text \<open>
  The recursion: \<open>k\<close> is the number of levels left, \<open>k = 0\<close> being \<^verbatim>\<open>depth > kMaxWalkDepth\<close>. Once
  the context is full it stays full, so the \<^verbatim>\<open>break\<close> is passing over the remaining entries.
\<close>

primrec WalkFind :: "nat \<Rightarrow> 'w fsapi \<Rightarrow> 'w \<Rightarrow> string \<Rightarrow> string \<Rightarrow> find_ctx \<Rightarrow> find_ctx" where
  "WalkFind 0 A w dev logical ctx = ctx"
| "WalkFind (Suc k) A w dev logical ctx =
     (if find_full ctx then ctx
      else case fs_dir A w (c_str dev) of
        None \<Rightarrow> ctx
      | Some es \<Rightarrow>
          foldl (\<lambda>ctx (name, t).
              if find_full ctx then ctx
              else if is_dot name then ctx
              else let is_dir = entry_is_dir A w (child dev name) t;
                       ctx = find_visit A w dev logical name is_dir ctx
                   in if is_dir then WalkFind k A w (child dev name) (child_log logical name) ctx
                      else ctx) ctx es)"

text \<open>\<^verbatim>\<open>(int)req[..].as_int(d)\<close>, replaced by the default where it is outside 1 to the maximum.\<close>

definition clamp_limit :: "nat \<Rightarrow> nat \<Rightarrow> json \<Rightarrow> nat" where
  "clamp_limit dflt maximum v =
     (let n = sint (to_i32 (as_int (word_of_nat dflt) v))
      in if n < 1 \<or> n > int maximum then dflt else nat n)"

definition FsFind :: "'w fsapi \<Rightarrow> request \<Rightarrow> 'w store \<Rightarrow> (bool \<times> reply) \<times> 'w store" where
  "FsFind A req s =
     (case request_path (save_mounted s) ''/'' req of
        None \<Rightarrow> (Fail ''bad_path'' ''invalid path or unknown device'', s)
      | Some (dev, _) \<Rightarrow>
          let ctx = \<lparr>needle = Lower (as_string '''' (arg req ''name_contains'')),
                     files_only = as_bool False (arg req ''files_only''),
                     flimit = clamp_limit 200 2000 (arg req ''limit''),
                     scanned = 0, max_scan = 40000, found = 0, fout = []\<rparr>;
              ctx = WalkFind (Suc kMaxWalkDepth) A (disk s) dev (as_string ''/'' (arg req ''path'')) ctx
          in (success ([(''scanned'', JInt (word_of_nat (scanned ctx))),
                        (''count'', JInt (word_of_nat (found ctx)))] @
                       (if found ctx \<ge> flimit ctx then [(''truncated_by_limit'', JBool True)] else []) @
                       (if scanned ctx \<ge> max_scan ctx then [(''truncated_by_scan_cap'', JBool True)] else []) @
                       [(''matches'', JArr (fout ctx))]), s))"

record grep_state =
  gline :: string
  lineno :: nat
  goffset :: nat
  line_start :: nat
  gfound :: nat
  gmatches :: "json list"
  gtruncated :: bool

definition shown_line :: "string \<Rightarrow> string" where
  "shown_line line = (if length line > 300 then take 300 line @ ''...'' else line)"

definition grep_match :: "nat \<Rightarrow> nat \<Rightarrow> string \<Rightarrow> json" where
  "grep_match no start line =
     json_fields [(''line'', JInt (word_of_nat no)), (''offset'', JInt (word_of_nat start)),
             (''text'', JStr (shown_line line))]"

fun grep_loop :: "bool \<Rightarrow> string \<Rightarrow> nat \<Rightarrow> byte list \<Rightarrow> grep_state \<Rightarrow> grep_state" where
  "grep_loop ic ndl limit [] g = g"
| "grep_loop ic ndl limit (b # bs) g =
     (let g = g\<lparr>goffset := Suc (goffset g)\<rparr>; ch = chr_of b
      in if ch = CHR 0x0A then
           let g = g\<lparr>lineno := Suc (lineno g)\<rparr>;
               hay = (if ic then Lower (gline g) else gline g)
           in if contains ndl hay then
                if gfound g \<ge> limit then g\<lparr>gtruncated := True\<rparr>
                else grep_loop ic ndl limit bs
                       (g\<lparr>gmatches := gmatches g @ [grep_match (lineno g) (line_start g) (gline g)],
                          gfound := Suc (gfound g), gline := [], line_start := goffset g\<rparr>)
              else grep_loop ic ndl limit bs (g\<lparr>gline := [], line_start := goffset g\<rparr>)
         else if ch \<noteq> CHR 0x0D then
           grep_loop ic ndl limit bs
             (if length (gline g) < 4096 then g\<lparr>gline := gline g @ [ch]\<rparr> else g)
         else grep_loop ic ndl limit bs g)"

definition grep_start :: grep_state where
  "grep_start = \<lparr>gline = [], lineno = 0, goffset = 0, line_start = 0, gfound = 0, gmatches = [],
     gtruncated = False\<rparr>"

definition FsGrep :: "'w fsapi \<Rightarrow> request \<Rightarrow> 'w store \<Rightarrow> (bool \<times> reply) \<times> 'w store" where
  "FsGrep A req s =
     (case request_path (save_mounted s) '''' req of
        None \<Rightarrow> (Fail ''bad_path'' ''invalid path or unknown device'', s)
      | Some (dev, _) \<Rightarrow>
          let pattern = as_string '''' (arg req ''pattern'')
          in if pattern = [] then (Fail ''bad_arg'' (''need a '' @ quoted ''pattern''), s)
             else let ic = as_bool False (arg req ''ignore_case'');
                      limit = clamp_limit 100 1000 (arg req ''limit'')
                  in case fs_open_read A (disk s) (c_str dev) of
                       None \<Rightarrow> (Fail ''not_found'' ''cannot open file'', s)
                     | Some (content, _) \<Rightarrow>
                         let g = grep_loop ic (if ic then Lower pattern else pattern) limit content grep_start
                         in (success ([(''lines_scanned'', JInt (word_of_nat (lineno g))),
                                       (''count'', JInt (word_of_nat (gfound g)))] @
                                      (if gtruncated g then [(''truncated'', JBool True)] else []) @
                                      [(''matches'', JArr (gmatches g))]), s))"

end
