(* ===== verification/FilesystemLaws.thy ===== *)
theory FilesystemLaws
  imports Filesystem
begin

text \<open>
  What the filesystem commands guarantee: the dispatcher's contract, confinement to the devices the
  policy names, and the functional behaviour of transfers, hashing and the two searches.
\<close>

section \<open>The handler contract\<close>

lemma read_len_bound: "read_len len \<le> kMaxBinary"
  by (auto simp: read_len_def kMaxBinary_def word_sless_alt not_less unat_of_sint)

lemma RequireWritableSd_error: "RequireWritableSd req = Inl e \<Longrightarrow> keeps_contract e"
  by (auto simp: RequireWritableSd_def Let_def split: if_splits option.splits)

interpretation fs_list: command_handler "FsList A"
  by unfold_locales (simp add: FsList_def split: option.split)

interpretation fs_read: command_handler "FsRead A"
proof
  show "keeps_contract (fst (FsRead A req w))" for req w
    using read_len_bound [of "as_int (2 ^ 20) (arg req ''len'')"]
    by (auto simp: FsRead_def Let_def split: option.split)
qed

interpretation fs_stat: command_handler "FsStat A"
  by unfold_locales (simp add: FsStat_def split: option.split)

interpretation fs_mounts: command_handler FsMounts
  by unfold_locales (simp add: FsMounts_def Let_def)

interpretation fs_freespace: command_handler "FsFreeSpace A"
  by unfold_locales (simp add: FsFreeSpace_def Let_def split: option.split)

interpretation fs_hash: command_handler "FsHash A H"
  by unfold_locales (simp add: FsHash_def Let_def split: option.split prod.split)

interpretation fs_write: command_handler "FsWrite A"
  by unfold_locales
     (auto simp: FsWrite_def Let_def RequireWritableSd_error split: sum.split prod.split)

interpretation fs_delete: command_handler "FsDelete A"
  by unfold_locales
     (auto simp: FsDelete_def Let_def RequireWritableSd_error split: sum.split option.split prod.split)

interpretation fs_mkdir: command_handler "FsMkdir A"
  by unfold_locales
     (auto simp: FsMkdir_def Let_def RequireWritableSd_error split: sum.split prod.split)

interpretation fs_rename: command_handler "FsRename A"
  by unfold_locales (simp add: FsRename_def Let_def split: option.split prod.split)

interpretation fs_find: command_handler "FsFind A"
  by unfold_locales (auto simp: FsFind_def Let_def split: option.split)

interpretation fs_grep: command_handler "FsGrep A"
  by unfold_locales (auto simp: FsGrep_def Let_def split: option.split)

section \<open>Confinement\<close>

text \<open>The C strings a resolved path can become, whatever is appended to it below.\<close>

definition inside :: "string \<Rightarrow> bool" where
  "inside p \<longleftrightarrow> confined ''sdmc'' p \<or> confined ''save_ro'' p"

definition good_dev :: "string \<Rightarrow> bool" where
  "good_dev d \<longleftrightarrow> stays ''sdmc'' d \<or> stays ''save_ro'' d"

lemma good_inside [intro]: "good_dev d \<Longrightarrow> inside (c_str d)"
  unfolding good_dev_def inside_def by (auto intro!: stays_confined)

lemma ResolveDevicePath_good: "ResolveDevicePath m device path = Some (d, wr) \<Longrightarrow> good_dev d"
  using NormalizePath_stays [where dev = "''sdmc''"] NormalizePath_stays [where dev = "''save_ro''"]
  by (auto simp: ResolveDevicePath_def good_dev_def split: option.splits if_splits)

lemma ResolveSdPath_good: "ResolveSdPath path = Some d \<Longrightarrow> good_dev d"
  using NormalizePath_stays [where dev = "''sdmc''"]
  by (auto simp: ResolveSdPath_def good_dev_def split: option.splits)

lemma RequireWritableSd_good: "RequireWritableSd req = Inr d \<Longrightarrow> good_dev d"
  by (auto simp: RequireWritableSd_def Let_def dest: ResolveSdPath_good split: if_splits option.splits)

interpretation devices: path_policy "\<lambda>p. map_option fst (ResolveDevicePath m device p)" inside
  by unfold_locales (auto dest: ResolveDevicePath_good)

lemma request_path_good: "request_path m dflt req = Some (d, wr) \<Longrightarrow> good_dev d"
  by (auto simp: request_path_def dest: ResolveDevicePath_good)

lemma good_child:
  "good_dev d \<Longrightarrow> CHR ''/'' \<notin> set name \<Longrightarrow> \<not> is_dot name \<Longrightarrow> good_dev (child d name)"
  by (auto simp: good_dev_def child_def is_dot_def stays_child)

text \<open>
  Two file systems that agree on the paths inside the devices; the names a directory lists have no
  slash in them.
\<close>

definition agree_inside :: "'w fsapi \<Rightarrow> 'w fsapi \<Rightarrow> bool" where
  "agree_inside A B \<longleftrightarrow>
     (\<forall>p. inside p \<longrightarrow>
        (\<forall>w. fs_dir A w p = fs_dir B w p \<and> fs_stat A w p = fs_stat B w p \<and>
             fs_open_read A w p = fs_open_read B w p \<and> fs_can_update A w p = fs_can_update B w p \<and>
             fs_statvfs A w p = fs_statvfs B w p) \<and>
        fs_create A p = fs_create B p \<and> fs_pwrite A p = fs_pwrite B p \<and>
        fs_mkdir A p = fs_mkdir B p \<and> fs_remove A p = fs_remove B p \<and> fs_rmdir A p = fs_rmdir B p \<and>
        (\<forall>q. inside q \<longrightarrow> fs_rename A p q = fs_rename B p q))"

definition plain_names :: "'w fsapi \<Rightarrow> bool" where
  "plain_names A \<longleftrightarrow>
     (\<forall>w p es name t. fs_dir A w p = Some es \<longrightarrow> (name, t) \<in> set es \<longrightarrow> CHR ''/'' \<notin> set name)"

lemma agree_good:
  assumes "agree_inside A B" "good_dev d"
  shows "fs_dir A w (c_str d) = fs_dir B w (c_str d)" "fs_stat A w (c_str d) = fs_stat B w (c_str d)"
    "fs_open_read A w (c_str d) = fs_open_read B w (c_str d)"
    "fs_can_update A w (c_str d) = fs_can_update B w (c_str d)"
    "fs_statvfs A w (c_str d) = fs_statvfs B w (c_str d)" "fs_create A (c_str d) = fs_create B (c_str d)"
    "fs_pwrite A (c_str d) = fs_pwrite B (c_str d)" "fs_mkdir A (c_str d) = fs_mkdir B (c_str d)"
    "fs_remove A (c_str d) = fs_remove B (c_str d)" "fs_rmdir A (c_str d) = fs_rmdir B (c_str d)"
    "good_dev e \<Longrightarrow> fs_rename A (c_str d) (c_str e) = fs_rename B (c_str d) (c_str e)"
  using assms good_inside by (auto simp: agree_inside_def)

lemma entry_agree:
  assumes "agree_inside A B" "good_dev d" "CHR ''/'' \<notin> set name" "\<not> is_dot name"
  shows "list_entry A w d (name, t) = list_entry B w d (name, t)"
    "entry_is_dir A w (child d name) t = entry_is_dir B w (child d name) t"
    "find_visit A w d l name b ctx = find_visit B w d l name b ctx"
  using agree_good(2) [OF assms(1) good_child [OF assms(2-4)]]
  by (simp_all add: list_entry_def EntryType_def entry_is_dir_def find_visit_def Let_def
      split: dtype.split option.split)

lemma WalkFind_agree:
  assumes "agree_inside A B" "plain_names A"
  shows "good_dev d \<Longrightarrow> WalkFind k A w d l ctx = WalkFind k B w d l ctx"
proof (induction k arbitrary: d l ctx)
  case (Suc k)
  show ?case
  proof (cases "fs_dir A w (c_str d)")
    case None
    then show ?thesis using agree_good(1) [OF assms(1) Suc.prems] by simp
  next
    case (Some es)
    have names: "\<forall>(name, t) \<in> set es. CHR ''/'' \<notin> set name"
      using assms(2) Some unfolding plain_names_def by blast
    show ?thesis
      using Some agree_good(1) [OF assms(1) Suc.prems, of w] names Suc.IH
        entry_agree [OF assms(1) Suc.prems] good_child [OF Suc.prems]
      by (auto simp: Let_def intro!: foldl_cong)
  qed
qed simp

section \<open>Transfers\<close>

text \<open>Writing \<open>bs\<close> at a position: a gap past the end is filled with zeros.\<close>

definition overwrite :: "byte list \<Rightarrow> nat \<Rightarrow> byte list \<Rightarrow> byte list" where
  "overwrite c pos bs =
     take pos (c @ replicate (pos - length c) 0) @ bs @ drop (pos + length bs) c"

text \<open>
  What the transfers rely on: a created file is empty, a file that can be read can be updated, and
  the bytes a write accepts are the bytes read back.
\<close>

definition stores_files :: "'w fsapi \<Rightarrow> bool" where
  "stores_files A \<longleftrightarrow>
     (\<forall>p w w'. fs_create A p w = (True, w') \<longrightarrow> fs_open_read A w' p = Some ([], False)) \<and>
     (\<forall>p w c. fs_open_read A w p = Some (c, False) \<longrightarrow> fs_can_update A w p) \<and>
     (\<forall>p w c pos bs n w'. fs_open_read A w p = Some (c, False) \<longrightarrow> fs_pwrite A p pos bs w = (n, w') \<longrightarrow>
        n \<le> length bs \<and> fs_open_read A w' p = Some (overwrite c pos (take n bs), False))"

lemma overwrite_append: "overwrite c (length c) bs = c @ bs"
  by (simp add: overwrite_def)

text \<open>A client's upload: the chunks in order at running offsets, each required to be written whole.\<close>

definition write_request :: "agent_config \<Rightarrow> string \<Rightarrow> nat \<Rightarrow> byte list \<Rightarrow> request" where
  "write_request cfg path off bs =
     \<lparr>req_msg = json_fields [(''path'', JStr path), (''offset'', JInt (word_of_nat off))],
      req_payload = bs, req_cfg = cfg\<rparr>"

definition read_request :: "agent_config \<Rightarrow> string \<Rightarrow> nat \<Rightarrow> nat \<Rightarrow> request" where
  "read_request cfg path off len =
     \<lparr>req_msg = json_fields [(''path'', JStr path), (''offset'', JInt (word_of_nat off)),
        (''len'', JInt (word_of_nat len))],
      req_payload = [], req_cfg = cfg\<rparr>"

fun upload :: "'w fsapi \<Rightarrow> agent_config \<Rightarrow> string \<Rightarrow> nat \<Rightarrow> byte list list \<Rightarrow> 'w store \<Rightarrow> 'w store option" where
  "upload A cfg path off [] s = Some s"
| "upload A cfg path off (bs # bss) s =
     (case FsWrite A (write_request cfg path off bs) s of
        ((ok, r), s') \<Rightarrow>
          if ok \<and> idx (reply_json r) ''written'' = JInt (word_of_nat (length bs))
          then upload A cfg path (off + length bs) bss s' else None)"

lemma word63: "n < 2 ^ 63 \<Longrightarrow> \<not> (word_of_nat n :: i64) <s 0 \<and> unat (word_of_nat n :: i64) = n"
  by (simp add: word_sless_alt signed_of_nat signed_take_bit_int_eq_self unat_of_nat take_bit_eq_mod)

lemma seek_pos_nat: "n < 2 ^ 63 \<Longrightarrow> seek_pos (word_of_nat n) = n"
  using word63 [of n] by (simp add: seek_pos_def)

lemma word_of_nat_inject63:
  "m < 2 ^ 63 \<Longrightarrow> n < 2 ^ 63 \<Longrightarrow> (word_of_nat m :: i64) = word_of_nat n \<longleftrightarrow> m = n"
  using word63 by metis

lemma write_step:
  assumes A: "stores_files A" and dev: "ResolveSdPath path = Some dev"
    and pre: "off = 0 \<or> fs_open_read A (disk s) (c_str dev) = Some (c, False)" "length c = off"
    and small: "off < 2 ^ 63" "length bs < 2 ^ 63"
    and w: "FsWrite A (write_request cfg path off bs) s = ((ok, r), s')"
    and full: "ok" "idx (reply_json r) ''written'' = JInt (word_of_nat (length bs))"
  shows "fs_open_read A (disk s') (c_str dev) = Some (c @ bs, False)"
proof -
  let ?req = "write_request cfg path off bs"
  have req: "RequireWritableSd ?req = Inr dev" "as_int 0 (arg ?req ''offset'') = word_of_nat off"
    "req_payload ?req = bs"
    using dev by (simp_all add: RequireWritableSd_def write_request_def json_fields_def as_string_def as_int_def)
  obtain ro w1 where o: "open_for_write A (c_str dev) (word_of_nat off) (disk s) = (ro, w1)"
    by (cases "open_for_write A (c_str dev) (word_of_nat off) (disk s)")
  have ro: "ro" using w full req o by (auto simp: FsWrite_def on_disk_def Let_def Fail_def split: if_splits)
  obtain n w2 where p: "fs_pwrite A (c_str dev) (seek_pos (word_of_nat off)) bs w1 = (n, w2)"
    by (cases "fs_pwrite A (c_str dev) (seek_pos (word_of_nat off)) bs w1")
  have s': "disk s' = w2" and r: "r = snd (success [(''written'', JInt (word_of_nat n))])"
    using w req o ro p by (auto simp: FsWrite_def on_disk_def Let_def success_def success_out_def)
  have read1: "fs_open_read A w1 (c_str dev) = Some (c, False)"
  proof (cases "off = 0")
    case True
    then have "fs_create A (c_str dev) (disk s) = (True, w1)"
      using o ro by (simp add: open_for_write_def)
    then show ?thesis using A True pre(2) by (simp add: stores_files_def)
  next
    case False
    then have rd: "fs_open_read A (disk s) (c_str dev) = Some (c, False)" using pre by simp
    then have "fs_can_update A (disk s) (c_str dev)" using A unfolding stores_files_def by blast
    moreover have "(word_of_nat off :: i64) \<noteq> 0"
      using False small word_of_nat_inject63 [of off 0] by simp
    ultimately show ?thesis using o rd by (simp add: open_for_write_def)
  qed
  then have after: "n \<le> length bs \<and> fs_open_read A w2 (c_str dev) = Some (overwrite c off (take n bs), False)"
    using A p seek_pos_nat [OF small(1)] unfolding stores_files_def by metis
  then have "n = length bs"
    using full(2) r small(2) word_of_nat_inject63 [of n "length bs"]
    by (simp add: success_def success_out_def json_fields_def)
  then show ?thesis using after s' pre(2) overwrite_append [of c bs] by simp
qed

lemma upload_content:
  assumes A: "stores_files A" and dev: "ResolveSdPath path = Some dev"
    and small: "off + length (concat bss) < 2 ^ 63"
    and pre: "off = 0 \<or> fs_open_read A (disk s) (c_str dev) = Some (c, False)" "length c = off"
    and up: "upload A cfg path off bss s = Some s'" "bss \<noteq> []"
  shows "fs_open_read A (disk s') (c_str dev) = Some (c @ concat bss, False)"
  using assms(3-)
proof (induction bss arbitrary: off s c)
  case (Cons bs bss)
  obtain ok r s1 where w: "FsWrite A (write_request cfg path off bs) s = ((ok, r), s1)"
    by (metis prod.collapse)
  have up: "ok" "idx (reply_json r) ''written'' = JInt (word_of_nat (length bs))"
    "upload A cfg path (off + length bs) bss s1 = Some s'"
    using Cons.prems(4) w by (auto split: if_splits)
  have one: "fs_open_read A (disk s1) (c_str dev) = Some (c @ bs, False)"
    using Cons.prems by (intro write_step [OF A dev _ _ _ _ w up(1,2)]) simp_all
  show ?case
  proof (cases "bss = []")
    case True
    then show ?thesis using up(3) one by simp
  next
    case False
    then show ?thesis
      using Cons.IH [of "off + length bs" s1 "c @ bs"] Cons.prems one up(3) by simp
  qed
qed simp

lemma read_len_small: "len \<le> 2 ^ 20 \<Longrightarrow> read_len (word_of_nat len) = len"
proof -
  assume "len \<le> 2 ^ 20"
  then have "sint (word_of_nat len :: i64) = int len" "unat (word_of_nat len :: i64) = len"
    using word63 [of len] sint_word_of_nat [of len] by (simp_all add: kMaxBinary_def)
  with \<open>len \<le> 2 ^ 20\<close> show ?thesis by (simp add: read_len_def word_sless_alt)
qed

lemma FsRead_content:
  assumes "ResolveSdPath path = Some dev" "fs_open_read A (disk s) (c_str dev) = Some (c, False)"
    and "off < 2 ^ 63" "len \<le> 2 ^ 20"
  shows "FsRead A (read_request cfg path off len) s =
    (success_out [(''eof'', JBool (length c - off < len))] (take len (drop off c)), s)"
proof -
  obtain q where "NormalizePath path = Some q" "dev = ''sdmc:'' @ q"
    using assms(1) by (auto simp: ResolveSdPath_def split: option.splits)
  then have "request_path (save_mounted s) '''' (read_request cfg path off len) = Some (dev, True)"
    by (simp add: request_path_def read_request_def json_fields_def as_string_def ResolveDevicePath_def)
  then show ?thesis
    using assms(2-) seek_pos_nat [of off] read_len_small [of len]
    by (auto simp: FsRead_def Let_def read_request_def json_fields_def as_int_def min_def)
qed

section \<open>Line search\<close>

text \<open>
  The reference: the newline-terminated lines of a file with their offsets, the text a line is
  searched and shown as (carriage returns dropped, at most 4096 characters), and the numbered lines
  that contain the pattern.
\<close>

definition not_nl :: "byte \<Rightarrow> bool" where
  "not_nl b \<longleftrightarrow> chr_of b \<noteq> CHR 0x0A"

function complete_lines :: "nat \<Rightarrow> byte list \<Rightarrow> (nat \<times> byte list) list" where
  "complete_lines start bs =
     (case dropWhile not_nl bs of
        [] \<Rightarrow> []
      | nl # rest \<Rightarrow>
          (start, takeWhile not_nl bs) #
          complete_lines (start + Suc (length (takeWhile not_nl bs))) rest)"
  by pat_completeness auto
termination
proof (relation "measure (\<lambda>(start, bs). length bs)", goal_cases)
  case (2 start bs nl rest)
  then show ?case using length_dropWhile_le [of not_nl bs] by simp
qed simp

declare complete_lines.simps [simp del]

definition line_text :: "byte list \<Rightarrow> string" where
  "line_text raw = take 4096 (filter (\<lambda>c. c \<noteq> CHR 0x0D) (string_of_bytes raw))"

definition line_hit :: "bool \<Rightarrow> string \<Rightarrow> byte list \<Rightarrow> bool" where
  "line_hit ic ndl raw \<longleftrightarrow> contains ndl (if ic then Lower (line_text raw) else line_text raw)"

text \<open>The matches from line number \<open>no\<close> on.\<close>

fun hits :: "bool \<Rightarrow> string \<Rightarrow> nat \<Rightarrow> (nat \<times> byte list) list \<Rightarrow> json list" where
  "hits ic ndl no [] = []"
| "hits ic ndl no ((start, raw) # ls) =
     (if line_hit ic ndl raw then [grep_match (Suc no) start (line_text raw)] else []) @
     hits ic ndl (Suc no) ls"

lemma grep_loop_line:
  assumes "\<forall>b \<in> set raw. not_nl b" "length (gline g) \<le> 4096"
  shows "grep_loop ic ndl limit (raw @ bs) g =
    grep_loop ic ndl limit bs
      (g\<lparr>gline := take 4096 (gline g @ filter (\<lambda>c. c \<noteq> CHR 0x0D) (string_of_bytes raw)),
         goffset := goffset g + length raw\<rparr>)"
  using assms
proof (induction raw arbitrary: g)
  case Nil
  then show ?case by simp
next
  case (Cons b raw)
  have nl: "chr_of b \<noteq> CHR 0x0A" using Cons.prems by (simp add: not_nl_def)
  show ?case
  proof (cases "chr_of b = CHR 0x0D")
    case True
    then show ?thesis using Cons by (simp add: Let_def)
  next
    case False
    show ?thesis
    proof (cases "length (gline g) < 4096")
      case True
      let ?g = "g\<lparr>goffset := Suc (goffset g), gline := gline g @ [chr_of b]\<rparr>"
      have "grep_loop ic ndl limit ((b # raw) @ bs) g = grep_loop ic ndl limit (raw @ bs) ?g"
        using nl False True by (simp add: Let_def)
      then show ?thesis using Cons.IH [of ?g] Cons.prems False True by simp
    next
      case full: False
      let ?g = "g\<lparr>goffset := Suc (goffset g)\<rparr>"
      have "grep_loop ic ndl limit ((b # raw) @ bs) g = grep_loop ic ndl limit (raw @ bs) ?g"
        using nl False full by (simp add: Let_def)
      moreover have "length (gline g) = 4096" using full Cons.prems(2) by simp
      ultimately show ?thesis using Cons.IH [of ?g] Cons.prems by simp
    qed
  qed
qed

text \<open>At the start of a line.\<close>

definition at_line :: "grep_state \<Rightarrow> bool" where
  "at_line g \<longleftrightarrow> gline g = [] \<and> line_start g = goffset g \<and> \<not> gtruncated g"

lemma grep_loop_lines:
  assumes "at_line g" "gfound g \<le> limit"
  shows "let g' = grep_loop ic ndl limit bs g; hs = hits ic ndl (lineno g) (complete_lines (goffset g) bs) in
    gmatches g' = gmatches g @ take (limit - gfound g) hs \<and>
    gfound g' = gfound g + min (limit - gfound g) (length hs) \<and>
    (gtruncated g' \<longleftrightarrow> limit - gfound g < length hs) \<and>
    (\<not> gtruncated g' \<longrightarrow> lineno g' = lineno g + length (complete_lines (goffset g) bs))"
  using assms
proof (induction "length bs" arbitrary: bs g rule: less_induct)
  case less
  let ?raw = "takeWhile not_nl bs"
  have raw: "\<forall>b \<in> set ?raw. not_nl b" by (auto dest: set_takeWhileD)
  show ?case
  proof (cases "dropWhile not_nl bs")
    case Nil
    have "bs = ?raw" using Nil by (metis append_Nil2 takeWhile_dropWhile_id)
    then have "grep_loop ic ndl limit bs g =
        g\<lparr>gline := take 4096 (gline g @ filter (\<lambda>c. c \<noteq> CHR 0x0D) (string_of_bytes ?raw)),
          goffset := goffset g + length ?raw\<rparr>"
      using grep_loop_line [OF raw, of g ic ndl limit "[]"] less.prems by (simp add: at_line_def)
    moreover have "complete_lines (goffset g) bs = []"
      by (subst complete_lines.simps) (simp only: Nil list.case)
    ultimately show ?thesis using less.prems by (simp add: at_line_def Let_def)
  next
    case (Cons nl rest)
    note split = dropWhile_eq_Cons_conv [THEN iffD1, OF Cons]
    have nl: "chr_of nl = CHR 0x0A" using conjunct2 [OF split] by (simp add: not_nl_def)
    note bs = conjunct1 [OF split]
    have short: "length rest < length bs" using arg_cong [OF bs, of length] by simp
    let ?off = "goffset g + Suc (length ?raw)"
    have cl: "complete_lines (goffset g) bs = (goffset g, ?raw) # complete_lines ?off rest"
      using Cons by (simp add: complete_lines.simps [of _ bs])
    let ?g1 = "g\<lparr>gline := line_text ?raw, goffset := goffset g + length ?raw\<rparr>"
    have g1: "grep_loop ic ndl limit bs g = grep_loop ic ndl limit (nl # rest) ?g1"
      using grep_loop_line [OF raw, of g ic ndl limit "nl # rest"] less.prems bs
      by (simp add: at_line_def line_text_def del: grep_loop.simps)
    let ?g2 = "?g1\<lparr>goffset := ?off, lineno := Suc (lineno g)\<rparr>"
    show ?thesis
    proof (cases "line_hit ic ndl ?raw")
      case hit: True
      show ?thesis
      proof (cases "gfound g \<ge> limit")
        case True
        then have "grep_loop ic ndl limit bs g = ?g2\<lparr>gtruncated := True\<rparr>"
          unfolding g1 using nl hit by (cases ic) (simp_all add: Let_def line_hit_def)
        then show ?thesis using True hit cl less.prems by (simp add: Let_def)
      next
        case False
        let ?g3 = "?g2\<lparr>gmatches := gmatches g @ [grep_match (Suc (lineno g)) (goffset g) (line_text ?raw)],
          gfound := Suc (gfound g), gline := [], line_start := ?off\<rparr>"
        have "grep_loop ic ndl limit bs g = grep_loop ic ndl limit rest ?g3"
          unfolding g1 using nl hit False less.prems
          by (cases ic) (simp_all add: Let_def line_hit_def at_line_def)
        moreover have "at_line ?g3" "gfound ?g3 \<le> limit" using less.prems False by (simp_all add: at_line_def)
        moreover have "limit - gfound g = Suc (limit - Suc (gfound g))" using False by simp
        ultimately show ?thesis
          using less.hyps [OF short, of ?g3] hit cl by (simp add: Let_def)
      qed
    next
      case False
      let ?g3 = "?g2\<lparr>gline := [], line_start := ?off\<rparr>"
      have "grep_loop ic ndl limit bs g = grep_loop ic ndl limit rest ?g3"
        unfolding g1 using nl False by (cases ic) (simp_all add: Let_def line_hit_def)
      moreover have "at_line ?g3" "gfound ?g3 \<le> limit" using less.prems by (simp_all add: at_line_def)
      ultimately show ?thesis
        using less.hyps [OF short, of ?g3] False cl by (simp add: Let_def)
    qed
  qed
qed

section \<open>The recursive search\<close>

text \<open>
  What holds of a search context all along: the counts are within their bounds, the count is the
  number of results, and every result carries a path whose last name matches.
\<close>

definition find_hit :: "find_ctx \<Rightarrow> json \<Rightarrow> bool" where
  "find_hit ctx e \<longleftrightarrow>
     (\<exists>l name. idx e ''path'' = JStr (child_log l name) \<and>
        (needle ctx = [] \<or> contains (needle ctx) (Lower name)))"

definition find_ok :: "find_ctx \<Rightarrow> bool" where
  "find_ok ctx \<longleftrightarrow> found ctx = length (fout ctx) \<and> found ctx \<le> flimit ctx \<and>
     scanned ctx \<le> max_scan ctx \<and> (\<forall>e \<in> set (fout ctx). find_hit ctx e)"

definition same_search :: "find_ctx \<Rightarrow> find_ctx \<Rightarrow> bool" where
  "same_search a b \<longleftrightarrow> needle a = needle b \<and> files_only a = files_only b \<and> flimit a = flimit b \<and>
     max_scan a = max_scan b"

lemma find_visit_ok:
  assumes "find_ok ctx" "\<not> find_full ctx"
  shows "find_ok (find_visit A w dev l name b ctx) \<and> same_search (find_visit A w dev l name b ctx) ctx"
  using assms
  by (auto simp: find_visit_def Let_def find_ok_def find_full_def same_search_def find_hit_def
      json_fields_def split: option.split)

lemma WalkFind_ok:
  "find_ok ctx \<Longrightarrow> find_ok (WalkFind k A w dev l ctx) \<and> same_search (WalkFind k A w dev l ctx) ctx"
proof (induction k arbitrary: dev l ctx)
  case 0
  then show ?case by (simp add: same_search_def)
next
  case (Suc k)
  let ?f = "\<lambda>ctx (name, t).
    if find_full ctx then ctx
    else if is_dot name then ctx
    else let is_dir = entry_is_dir A w (child dev name) t; ctx = find_visit A w dev l name is_dir ctx
         in if is_dir then WalkFind k A w (child dev name) (child_log l name) ctx else ctx"
  have step: "find_ok (?f c e) \<and> same_search (?f c e) c" if ok: "find_ok c" for c and e :: "string \<times> dtype"
  proof (cases e)
    case (Pair name t)
    let ?b = "entry_is_dir A w (child dev name) t"
    show ?thesis
      using Pair ok find_visit_ok [OF ok, of A w dev l name ?b]
        Suc.IH [of "find_visit A w dev l name ?b c" "child dev name" "child_log l name"]
      by (auto simp: Let_def same_search_def)
  qed
  have fold: "find_ok (foldl ?f c es) \<and> same_search (foldl ?f c es) c" if "find_ok c" for c es
    using that
  proof (induction es arbitrary: c)
    case (Cons e es)
    from step [OF Cons.prems, of e] Cons.IH [of "?f c e"] show ?case
      by (auto simp: same_search_def)
  qed (simp add: same_search_def)
  show ?case
    using Suc.prems fold [OF Suc.prems] by (auto simp: same_search_def split: option.split)
qed

section \<open>Hashing\<close>

definition streams :: "'c sha256_api \<Rightarrow> (byte list \<Rightarrow> byte list) \<Rightarrow> bool" where
  "streams H sha \<longleftrightarrow> (\<forall>ps. sha_hash H (foldl (sha_update H) (sha_create H) ps) = sha (concat ps))"

lemma hash_loop_pieces:
  "\<exists>ps. hash_loop H content ctx n = (foldl (sha_update H) ctx ps, n + length content) \<and> concat ps = content"
proof (induction H content ctx n rule: hash_loop.induct)
  case (1 H content ctx n)
  show ?case
  proof (cases "content = []")
    case True
    then show ?thesis by (intro exI [of _ "[]"]) (simp add: hash_loop.simps)
  next
    case False
    let ?p = "take (64 * 1024) content" and ?r = "drop (64 * 1024) content"
    obtain ps where "hash_loop H ?r (sha_update H ctx ?p) (n + length ?p) =
        (foldl (sha_update H) (sha_update H ctx ?p) ps, (n + length ?p) + length ?r)" "concat ps = ?r"
      using 1 False by blast
    moreover have "hash_loop H content ctx n = hash_loop H ?r (sha_update H ctx ?p) (n + length ?p)"
      using False by (subst hash_loop.simps) (simp only: if_False)
    moreover have "length ?p + length ?r = length content" by simp
    ultimately show ?thesis by (intro exI [of _ "?p # ps"]) simp
  qed
qed

section \<open>A file system in memory\<close>

text \<open>To evaluate on: files by path, every write accepted.\<close>

definition ram_fs :: "(string \<Rightarrow> byte list option) fsapi" where
  "ram_fs =
     \<lparr>fs_dir = (\<lambda>w p. None), fs_stat = (\<lambda>w p. None),
      fs_open_read = (\<lambda>w p. map_option (\<lambda>c. (c, False)) (w p)),
      fs_create = (\<lambda>p w. (True, w(p \<mapsto> []))),
      fs_can_update = (\<lambda>w p. w p \<noteq> None),
      fs_pwrite = (\<lambda>p pos bs w. case w p of None \<Rightarrow> (0, w)
         | Some c \<Rightarrow> (length bs, w(p \<mapsto> overwrite c pos bs))),
      fs_mkdir = (\<lambda>p w. (False, w)), fs_remove = (\<lambda>p w. (True, w(p := None))),
      fs_rmdir = (\<lambda>p w. (False, w)),
      fs_rename = (\<lambda>p q w. case w p of None \<Rightarrow> (False, w) | Some c \<Rightarrow> (True, w(q \<mapsto> c, p := None))),
      fs_statvfs = (\<lambda>w p. None)\<rparr>"

lemma ram_fs_stores: "stores_files ram_fs"
  unfolding stores_files_def ram_fs_def by (auto split: option.splits)

lemma ram_fs_names: "plain_names ram_fs"
  by (simp add: plain_names_def ram_fs_def)

lemma agree_refl: "agree_inside A A"
  by (simp add: agree_inside_def)

definition empty_store :: "(string \<Rightarrow> byte list option) store" where
  "empty_store = \<lparr>disk = Map.empty, save_mounted = False\<rparr>"

section \<open>Properties\<close>

text \<open>
  C11. An upload reads back. If a client writes a file in any chunks at running offsets and every
  reply reports the chunk written whole, then reading any range of it returns exactly those bytes
  of the concatenation, up to 1 MiB at a time, and says end of file exactly when fewer bytes than
  asked for were left. Whatever the file held before is gone.
\<close>

theorem upload_reads_back:
  assumes "stores_files A" "ResolveSdPath path = Some dev" "bss \<noteq> []" "length (concat bss) < 2 ^ 63"
    and "upload A cfg path 0 bss s = Some s'" "off < 2 ^ 63" "len \<le> 2 ^ 20"
  shows "FsRead A (read_request cfg path off len) s' =
    (success_out [(''eof'', JBool (length (concat bss) - off < len))]
       (take len (drop off (concat bss))), s')"
proof -
  have "fs_open_read A (disk s') (c_str dev) = Some ([] @ concat bss, False)"
    using assms by (intro upload_content [where off = 0]) simp_all
  then show ?thesis using FsRead_content [OF assms(2) _ assms(6,7)] by simp
qed

theorem upload_reads_back_witness:
  "\<exists>s'. upload ram_fs default_config ''/a'' 0 [[1, 2], [3]] empty_store = Some s' \<and>
     FsRead ram_fs (read_request default_config ''/a'' 1 5) s' =
       (success_out [(''eof'', JBool True)] [2, 3], s')"
proof -
  have d: "ResolveSdPath ''/a'' = Some ''sdmc:/a''" by code_simp
  have sd: "c_str ''sdmc:/a'' = ''sdmc:/a''" by simp
  have one: "FsWrite ram_fs (write_request default_config ''/a'' 0 [1, 2]) empty_store =
      (success [(''written'', JInt 2)], \<lparr>disk = [''sdmc:/a'' \<mapsto> [1, 2]], save_mounted = False\<rparr>)"
    by (simp add: FsWrite_def RequireWritableSd_def write_request_def json_fields_def d sd as_string_def
        as_int_def on_disk_def open_for_write_def ram_fs_def empty_store_def seek_pos_def overwrite_def
        word_sless_alt Let_def del: c_str_simps)
  have two: "FsWrite ram_fs (write_request default_config ''/a'' 2 [3])
      \<lparr>disk = [''sdmc:/a'' \<mapsto> [1, 2]], save_mounted = False\<rparr> =
      (success [(''written'', JInt 1)], \<lparr>disk = [''sdmc:/a'' \<mapsto> [1, 2, 3]], save_mounted = False\<rparr>)"
    by (simp add: FsWrite_def RequireWritableSd_def write_request_def json_fields_def d sd as_string_def
        as_int_def on_disk_def open_for_write_def ram_fs_def seek_pos_def overwrite_def
        word_sless_alt Let_def del: c_str_simps)
  have up: "upload ram_fs default_config ''/a'' 0 [[1, 2], [3]] empty_store =
      Some \<lparr>disk = [''sdmc:/a'' \<mapsto> [1, 2, 3]], save_mounted = False\<rparr>"
    using one two by (simp add: success_def success_out_def json_fields_def numeral_2_eq_2)
  from upload_reads_back [OF ram_fs_stores d _ _ up, of 1 5] up show ?thesis by simp
qed



text \<open>
  C12. Only the SD card is written to: a mutating command that names any other device is refused and
  changes nothing, rather than being carried out on the card.
\<close>

theorem only_sd_is_written:
  assumes "as_string ''sd'' (arg req ''device'') \<notin> {''sd'', ''sdmc''}"
  shows "\<forall>h \<in> {FsWrite A, FsDelete A, FsMkdir A, FsRename A}.
    snd (h req s) = s \<and> \<not> fst (fst (h req s)) \<and>
    idx (idx (reply_json (snd (fst (h req s)))) ''error'') ''code'' = JStr ''read_only_device''"
  using assms
  by (simp add: FsWrite_def FsDelete_def FsMkdir_def FsRename_def RequireWritableSd_def Let_def
      FailS_def Fail_def error_json_def)

theorem only_sd_is_written_witness:
  "snd (FsWrite ram_fs \<lparr>req_msg = json_fields [(''device'', JStr ''save'')], req_payload = [1],
     req_cfg = default_config\<rparr> empty_store) = empty_store"
  using only_sd_is_written [of "\<lparr>req_msg = json_fields [(''device'', JStr ''save'')], req_payload = [1],
     req_cfg = default_config\<rparr>" ram_fs empty_store]
  by (simp add: json_fields_def as_string_def)

text \<open>
  C20. The byte-at-a-time line search computes the reference: over the newline-terminated lines of
  the content, it reports the first matches up to the limit with their line numbers, offsets and
  texts, says truncated exactly when there are more, and otherwise has counted every line. Bytes
  after the last newline are not searched.
\<close>

theorem grep_reference:
  "let g = grep_loop ic ndl limit content grep_start;
       hs = hits ic ndl 0 (complete_lines 0 content) in
   gmatches g = take limit hs \<and> gfound g = min limit (length hs) \<and>
   (gtruncated g \<longleftrightarrow> limit < length hs) \<and>
   (gtruncated g \<or> lineno g = length (complete_lines 0 content))"
  using grep_loop_lines [of grep_start limit ic ndl content]
  by (auto simp: grep_start_def at_line_def Let_def)

text \<open>
  The on-console search is bounded and sound: at most the limit (and never more than 2000)
  results, at most 40000 entries looked at and 13 levels entered, the reported count is the number
  of results, and every result names a file whose name contains the pattern, case ignored.
\<close>

theorem find_bounded:
  assumes "request_path (save_mounted s) ''/'' req = Some (dev, wr)"
  shows "\<exists>ctx :: find_ctx. FsFind A req s =
      (success ([(''scanned'', JInt (word_of_nat (scanned ctx))), (''count'', JInt (word_of_nat (found ctx)))] @
         (if found ctx \<ge> flimit ctx then [(''truncated_by_limit'', JBool True)] else []) @
         (if scanned ctx \<ge> max_scan ctx then [(''truncated_by_scan_cap'', JBool True)] else []) @
         [(''matches'', JArr (fout ctx))]), s) \<and>
    found ctx = length (fout ctx) \<and> found ctx \<le> flimit ctx \<and> flimit ctx \<le> 2000 \<and>
    scanned ctx \<le> 40000 \<and>
    (\<forall>e \<in> set (fout ctx). \<exists>l name. idx e ''path'' = JStr (child_log l name) \<and>
       (needle ctx = [] \<or> contains (needle ctx) (Lower name)))"
proof -
  let ?ctx = "\<lparr>needle = Lower (as_string '''' (arg req ''name_contains'')),
     files_only = as_bool False (arg req ''files_only''),
     flimit = clamp_limit 200 2000 (arg req ''limit''),
     scanned = 0, max_scan = 40000, found = 0, fout = []\<rparr>"
  let ?r = "WalkFind (Suc kMaxWalkDepth) A (disk s) dev (as_string ''/'' (arg req ''path'')) ?ctx"
  have "find_ok ?ctx" by (simp add: find_ok_def)
  from WalkFind_ok [OF this, of "Suc kMaxWalkDepth" A "disk s" dev "as_string ''/'' (arg req ''path'')"]
  have r: "find_ok ?r" "same_search ?r ?ctx" by (simp_all del: WalkFind.simps)
  have "clamp_limit 200 2000 v \<le> 2000" for v by (simp add: clamp_limit_def Let_def) linarith
  then show ?thesis
    using assms r
    by (intro exI [of _ ?r])
       (simp add: FsFind_def Let_def find_ok_def find_hit_def same_search_def del: WalkFind.simps)
qed

theorem find_bounded_witness:
  "\<exists>ctx :: find_ctx. fst (fst (FsFind ram_fs (read_request default_config ''/a'' 0 1) empty_store)) \<and> scanned ctx \<le> 40000"
proof -
  have "NormalizePath ''/a'' = Some ''/a''" by code_simp
  then have "request_path (save_mounted empty_store) ''/'' (read_request default_config ''/a'' 0 1) =
      Some (''sdmc:/a'', True)"
    by (simp add: request_path_def read_request_def json_fields_def as_string_def ResolveDevicePath_def)
  from find_bounded [OF this, of ram_fs] show ?thesis by (auto simp: success_def success_out_def)
qed

text \<open>
  The streamed hash is the hash of the file: whatever the file's size, the digest and size
  \<^verbatim>\<open>fs.hash\<close> reports are those of the whole content, given that feeding SHA-256 piecewise equals
  hashing the concatenation; and a read error is never reported as a hash.
\<close>

theorem hash_of_content:
  assumes "streams H sha" "FsHash A H req s = ((True, r), s')"
  shows "s' = s \<and> (\<exists>dev content. fs_open_read A (disk s) (c_str dev) = Some (content, False) \<and>
    idx (reply_json r) ''sha256'' = JStr (hex_bytes (sha content)) \<and>
    idx (reply_json r) ''size'' = JInt (word_of_nat (length content)))"
proof -
  obtain dev wr where p: "request_path (save_mounted s) '''' req = Some (dev, wr)"
    using assms(2) by (auto simp: FsHash_def Fail_def split: option.splits)
  obtain content err where o: "fs_open_read A (disk s) (c_str dev) = Some (content, err)"
    using assms(2) p by (auto simp: FsHash_def Fail_def split: option.splits if_splits)
  obtain ps where ps: "hash_loop H content (sha_create H) 0 =
      (foldl (sha_update H) (sha_create H) ps, 0 + length content)" "concat ps = content"
    using hash_loop_pieces [of H content "sha_create H" 0] by blast
  have "sha_hash H (foldl (sha_update H) (sha_create H) ps) = sha content"
    using assms(1) ps(2) by (auto simp: streams_def)
  then show ?thesis
    using assms(2) p o ps(1)
    by (auto simp: FsHash_def Fail_def success_def success_out_def json_fields_def split: if_splits) blast
qed

theorem hash_of_content_witness:
  "\<exists>r s'. FsHash ram_fs \<lparr>sha_create = [], sha_update = (@), sha_hash = take 32\<rparr>
     (read_request default_config ''/a'' 0 1) (empty_store\<lparr>disk := [''sdmc:/a'' \<mapsto> [7, 8]]\<rparr>) = ((True, r), s') \<and>
   idx (reply_json r) ''size'' = JInt 2"
proof -
  let ?H = "\<lparr>sha_create = [], sha_update = (@), sha_hash = take 32\<rparr> :: byte list sha256_api"
  let ?s = "empty_store\<lparr>disk := [''sdmc:/a'' \<mapsto> [7, 8]]\<rparr>"
  let ?req = "read_request default_config ''/a'' 0 1"
  have fold: "foldl (@) a ps = a @ concat ps" for a :: "byte list" and ps
    by (induction ps arbitrary: a) simp_all
  then have st: "streams ?H (take 32)" by (simp add: streams_def)
  have "NormalizePath ''/a'' = Some ''/a''" by code_simp
  then have p: "request_path False '''' ?req = Some (''sdmc:/a'', True)"
    by (simp add: request_path_def read_request_def json_fields_def as_string_def ResolveDevicePath_def)
  have algo: "as_string ''sha256'' (arg ?req ''algo'') = ''sha256''"
    by (simp add: read_request_def json_fields_def as_string_def)
  obtain ctx n where h: "hash_loop ?H [7, 8] [] 0 = (ctx, n)" by (cases "hash_loop ?H [7, 8] [] 0")
  then have "FsHash ram_fs ?H ?req ?s = (success [(''ok'', JBool True),
      (''sha256'', JStr (hex_bytes (sha_hash ?H ctx))), (''size'', JInt (word_of_nat n))], ?s)"
    using p algo by (simp add: FsHash_def ram_fs_def empty_store_def)
  then obtain r where r: "FsHash ram_fs ?H ?req ?s = ((True, r), ?s)"
    by (simp add: success_def success_out_def)
  have "fs_open_read ram_fs (disk ?s) (c_str dev) = Some (c, False) \<Longrightarrow> c = [7, 8]" for dev c
    by (auto simp: ram_fs_def empty_store_def split: if_splits)
  with hash_of_content [OF st r] r show ?thesis by fastforce
qed

end
