(* ===== verification/SaveData.thy ===== *)
theory SaveData
  imports FilesystemLaws
begin

text \<open>
  Save data: enumeration and the read-only mount (\<^verbatim>\<open>handlers/savedata.cpp\<close>), backup, restore and the
  NAND reader (\<^verbatim>\<open>handlers/fs.cpp\<close>). The console's save services are a record of functions; the
  recursive copy works on the file system of the filesystem component and is given fuel, as the
  depth of a directory tree has no bound in the code.
\<close>

section \<open>The save services\<close>

type_synonym account_uid = "u64 \<times> u64"

record save_info =
  save_data_id :: u64
  save_space :: byte
  save_type :: byte
  save_uid :: account_uid
  system_save_id :: u64
  application_id :: u64
  save_size :: i64
  save_index :: u16

text \<open>libnx's enumerations.\<close>

record nx_save =
  Type_System :: byte
  Type_Account :: byte
  Type_Bcat :: byte
  Type_Device :: byte
  Type_Temporary :: byte
  Type_Cache :: byte
  Type_SystemBcat :: byte
  Space_System :: byte
  Space_User :: byte
  Space_SdSystem :: byte
  Space_Temporary :: byte
  Space_SdUser :: byte
  Space_ProperSystem :: byte
  Space_SafeMode :: byte
  Bis_UserDataRoot :: u32
  Rc_NotFound :: u32

text \<open>
  \<open>info_batches\<close> is what the successive reads of a fresh reader give: \<open>None\<close> a failing read, an empty
  list a read that found nothing. Mounting gives libnx's result code, 0 for success.
\<close>

record 'w save_api =
  info_batches :: "'w \<Rightarrow> save_info list option list option"
  save_unmount :: "string \<Rightarrow> 'w \<Rightarrow> 'w"
  mount_ro :: "string \<Rightarrow> u64 \<Rightarrow> account_uid \<Rightarrow> 'w \<Rightarrow> u32 \<times> 'w"
  mount_system :: "string \<Rightarrow> byte \<Rightarrow> u64 \<Rightarrow> account_uid \<Rightarrow> 'w \<Rightarrow> u32 \<times> 'w"
  mount_rw :: "string \<Rightarrow> u64 \<Rightarrow> account_uid \<Rightarrow> 'w \<Rightarrow> u32 \<times> 'w"
  commit_device :: "string \<Rightarrow> 'w \<Rightarrow> u32 \<times> 'w"
  bis_open :: "u32 \<Rightarrow> 'w \<Rightarrow> bool"
  bis_read :: "u32 \<Rightarrow> string \<Rightarrow> i64 \<Rightarrow> nat \<Rightarrow> 'w \<Rightarrow> byte list option option"

definition kSaveMountName :: string where
  "kSaveMountName = ''save_ro''"

section \<open>Enumeration\<close>

definition SaveTypeName :: "nx_save \<Rightarrow> byte \<Rightarrow> string" where
  "SaveTypeName N t =
     (if t = Type_System N then ''system''
      else if t = Type_Account N then ''account''
      else if t = Type_Bcat N then ''bcat''
      else if t = Type_Device N then ''device''
      else if t = Type_Temporary N then ''temporary''
      else if t = Type_Cache N then ''cache''
      else if t = Type_SystemBcat N then ''system_bcat''
      else ''unknown'')"

definition SpaceName :: "nx_save \<Rightarrow> byte \<Rightarrow> string" where
  "SpaceName N s =
     (if s = Space_System N then ''system''
      else if s = Space_User N then ''user''
      else if s = Space_SdSystem N then ''sd_system''
      else if s = Space_Temporary N then ''temporary''
      else if s = Space_SdUser N then ''sd_user''
      else if s = Space_ProperSystem N then ''proper_system''
      else if s = Space_SafeMode N then ''safe_mode''
      else ''unknown'')"

definition SetHex64 :: "string \<Rightarrow> u64 \<Rightarrow> string \<times> json" where
  "SetHex64 key v = (key, JStr (fmt_016lx v))"

definition save_json :: "nx_save \<Rightarrow> save_info \<Rightarrow> json" where
  "save_json N s =
     json_fields
       ([SetHex64 ''save_data_id'' (save_data_id s), (''type'', JStr (SaveTypeName N (save_type s))),
         (''space'', JStr (SpaceName N (save_space s)))] @
        (if application_id s \<noteq> 0 then [SetHex64 ''application_id'' (application_id s)] else []) @
        (if system_save_id s \<noteq> 0 then [SetHex64 ''system_save_data_id'' (system_save_id s)] else []) @
        [(''size'', JInt (save_size s)), (''index'', JInt (ucast (save_index s)))] @
        (if fst (save_uid s) \<noteq> 0 \<or> snd (save_uid s) \<noteq> 0
         then [SetHex64 ''uid_hi'' (fst (save_uid s)), SetHex64 ''uid_lo'' (snd (save_uid s))] else []))"

record save_scan =
  ss_total :: nat
  ss_listed :: nat
  ss_arr :: "json list"

definition scan_save :: "nx_save \<Rightarrow> string \<Rightarrow> nat \<Rightarrow> save_scan \<Rightarrow> save_info \<Rightarrow> save_scan" where
  "scan_save N want_type limit c s =
     (let c = c\<lparr>ss_total := Suc (ss_total c)\<rparr>
      in if want_type \<noteq> [] \<and> want_type \<noteq> SaveTypeName N (save_type s) then c
         else if ss_listed c \<ge> limit then c
         else c\<lparr>ss_listed := Suc (ss_listed c), ss_arr := ss_arr c @ [save_json N s]\<rparr>)"

fun scan_batches :: "nx_save \<Rightarrow> string \<Rightarrow> nat \<Rightarrow> save_info list option list \<Rightarrow> save_scan \<Rightarrow> save_scan" where
  "scan_batches N want_type limit [] c = c"
| "scan_batches N want_type limit (None # bs) c = c"
| "scan_batches N want_type limit (Some infos # bs) c =
     (if infos = [] then c
      else scan_batches N want_type limit bs (foldl (scan_save N want_type limit) c infos))"

definition SaveList :: "'w save_api \<Rightarrow> nx_save \<Rightarrow> request \<Rightarrow> 'w store \<Rightarrow> (bool \<times> reply) \<times> 'w store" where
  "SaveList V N req s =
     (let want_type = as_string [] (arg req ''type'');
          limit = clamp_limit 400 2000 (arg req ''limit'')
      in case info_batches V (disk s) of
           None \<Rightarrow> (Fail ''fs_failed'' ''cannot open the save-data info reader'', s)
         | Some bs \<Rightarrow>
             let c = scan_batches N want_type limit bs \<lparr>ss_total = 0, ss_listed = 0, ss_arr = []\<rparr>
             in (success
                   ([(''total'', JInt (word_of_nat (ss_total c))), (''listed'', JInt (word_of_nat (ss_listed c)))] @
                    (if ss_listed c < ss_total c \<and> want_type = [] then [(''truncated'', JBool True)] else []) @
                    [(''saves'', JArr (ss_arr c))]), s))"

section \<open>Mounting\<close>

definition hex_arg :: "request \<Rightarrow> string \<Rightarrow> u64" where
  "hex_arg req k = strtoull16 (c_str (as_string ''0'' (arg req k)))"

definition mount_spaces :: "nx_save \<Rightarrow> string \<Rightarrow> byte list" where
  "mount_spaces N space =
     (if space = ''system'' then [Space_System N]
      else if space = ''sd_system'' then [Space_SdSystem N]
      else if space = ''proper_system'' then [Space_ProperSystem N]
      else [Space_System N, Space_SdSystem N, Space_ProperSystem N])"

text \<open>The spaces are tried in order until one mounts; the last result code stays.\<close>

fun try_spaces :: "'w save_api \<Rightarrow> u64 \<Rightarrow> account_uid \<Rightarrow> byte list \<Rightarrow> u32 \<Rightarrow> 'w \<Rightarrow> u32 \<times> 'w" where
  "try_spaces V sys_id uid [] rc w = (rc, w)"
| "try_spaces V sys_id uid (sp # sps) rc w =
     (let (rc, w) = mount_system V kSaveMountName sp sys_id uid w
      in if rc = 0 then (rc, w) else try_spaces V sys_id uid sps rc w)"

definition mount_failed_text :: "u32 \<Rightarrow> string" where
  "mount_failed_text rc = take 255
     (''cannot mount that save (rc=0x'' @ fmt_08x rc @ ''). Common causes: the system already holds it open '' @
      em_dash @ '' settings, account and similar system saves are mounted by their owning service and '' @
      ''cannot be opened twice; a wrong uid for an account save (take it from save.list); or the title '' @
      ''simply has no save data.'')"

definition SaveMount :: "'w save_api \<Rightarrow> nx_save \<Rightarrow> request \<Rightarrow> 'w store \<Rightarrow> (bool \<times> reply) \<times> 'w store" where
  "SaveMount V N req s =
     (let s = s\<lparr>disk := save_unmount V kSaveMountName (disk s)\<rparr>;
          tid = hex_arg req ''tid'';
          sys_id = hex_arg req ''system_save_data_id'';
          uid = (hex_arg req ''uid_hi'', hex_arg req ''uid_lo'')
      in if sys_id = 0 \<and> tid = 0 then (Fail ''bad_arg'' ''need tid or system_save_data_id'', s)
         else
           let (rc, w) = (if sys_id \<noteq> 0
                          then try_spaces V sys_id uid (mount_spaces N (as_string [] (arg req ''space''))) (Rc_NotFound N) (disk s)
                          else mount_ro V kSaveMountName tid uid (disk s));
               s = s\<lparr>disk := w\<rparr>
           in if rc \<noteq> 0 then (Fail ''mount_failed'' (mount_failed_text rc), s)
              else (success [(''ok'', JBool True), (''device'', JStr ''save''), (''mode'', JStr ''read-only''),
                      (''note'', JStr (''browse with fs.list / fs.read using device='' @ [CHR 0x22] @ ''save'' @ [CHR 0x22]))],
                    s\<lparr>save_mounted := True\<rparr>))"

definition SaveUnmount :: "'w save_api \<Rightarrow> request \<Rightarrow> 'w store \<Rightarrow> (bool \<times> reply) \<times> 'w store" where
  "SaveUnmount V req s =
     (success [(''ok'', JBool True)],
      s\<lparr>disk := save_unmount V kSaveMountName (disk s), save_mounted := False\<rparr>)"

section \<open>The NAND reader\<close>

text \<open>\<open>bis_read\<close>: no file, a failing read, or the bytes read, at most as many as asked for.\<close>

definition NandRead :: "'w save_api \<Rightarrow> nx_save \<Rightarrow> request \<Rightarrow> 'w store \<Rightarrow> (bool \<times> reply) \<times> 'w store" where
  "NandRead V N req s =
     (let path = as_string [] (arg req ''path'')
      in if path = [] \<or> hd path \<noteq> CHR ''/'' \<or> contains ''..'' path then (Fail ''bad_path'' ''invalid path'', s)
         else
           let part = (ucast (as_int (ucast (Bis_UserDataRoot N)) (arg req ''partition'')) :: u32);
               len = read_len (as_int (2 ^ 20) (arg req ''len''))
           in if \<not> bis_open V part (disk s) then (Fail ''bis_failed'' ''cannot open BIS partition'', s)
              else case bis_read V part (c_str path) (as_int 0 (arg req ''offset'')) len (disk s) of
                     None \<Rightarrow> (Fail ''not_found'' ''cannot open NAND file'', s)
                   | Some None \<Rightarrow> (Fail ''io_error'' ''NAND read failed'', s)
                   | Some (Some bs) \<Rightarrow>
                       let bs = take len bs
                       in (success_out [(''eof'', JBool (length bs < len))] bs, s))"

section \<open>The recursive copy\<close>

text \<open>
  The copy loop of one file, \<open>pos\<close> being the output's position: a short write moves it less, and
  the loop goes on.
\<close>

function copy_loop :: "'w fsapi \<Rightarrow> string \<Rightarrow> nat \<Rightarrow> byte list \<Rightarrow> 'w \<Rightarrow> 'w" where
  "copy_loop A d pos content w =
     (if content = [] then w
      else let (n, w) = fs_pwrite A d pos (take (64 * 1024) content) w
           in copy_loop A d (pos + n) (drop (64 * 1024) content) w)"
  by pat_completeness auto
termination
  by (relation "measure (\<lambda>(A, d, pos, content, w). length content)") auto

declare copy_loop.simps [simp del]

text \<open>Both files are opened, the output truncating, before either is tested.\<close>

definition copy_file :: "'w fsapi \<Rightarrow> string \<Rightarrow> string \<Rightarrow> 'w \<Rightarrow> bool \<times> 'w" where
  "copy_file A s d w =
     (let inp = fs_open_read A w s;
          (opened, w) = fs_create A d w
      in case inp of
           Some (content, _) \<Rightarrow> if opened then (True, copy_loop A d 0 content w) else (False, w)
         | None \<Rightarrow> (False, w))"

fun copy_entries ::
  "(string \<Rightarrow> string \<Rightarrow> 'w \<Rightarrow> (bool \<times> 'w) option) \<Rightarrow> 'w fsapi \<Rightarrow> string \<Rightarrow> string \<Rightarrow>
   (string \<times> dtype) list \<Rightarrow> bool \<Rightarrow> 'w \<Rightarrow> (bool \<times> 'w) option" where
  "copy_entries sub A src dst [] ok w = Some (ok, w)"
| "copy_entries sub A src dst ((name, t) # es) ok w =
     (if is_dot name then copy_entries sub A src dst es ok w
      else case fs_stat A w (c_str (child src name)) of
        None \<Rightarrow> copy_entries sub A src dst es ok w
      | Some st \<Rightarrow>
          if st_dir st then
            (case sub (child src name) (child dst name) w of
               None \<Rightarrow> None
             | Some (r, w) \<Rightarrow> copy_entries sub A src dst es (ok \<and> r) w)
          else
            (let (r, w) = copy_file A (c_str (child src name)) (c_str (child dst name)) w
             in copy_entries sub A src dst es (ok \<and> r) w))"

primrec CopyTree :: "nat \<Rightarrow> 'w fsapi \<Rightarrow> string \<Rightarrow> string \<Rightarrow> 'w \<Rightarrow> (bool \<times> 'w) option" where
  "CopyTree 0 A src dst w = None"
| "CopyTree (Suc k) A src dst w =
     (let w = snd (fs_mkdir A (c_str dst) w)
      in case fs_dir A w (c_str src) of
           None \<Rightarrow> Some (False, w)
         | Some es \<Rightarrow> copy_entries (CopyTree k A) A src dst es True w)"

section \<open>Backup and restore\<close>

definition backup_dir :: "request \<Rightarrow> string" where
  "backup_dir req = ''sdmc:/switch-agentd/saves/'' @ as_string [] (arg req ''tid'')"

definition uid_args :: "request \<Rightarrow> account_uid" where
  "uid_args req = (as_int 0 (arg req ''uid_lo''), as_int 0 (arg req ''uid_hi''))"

definition BackupSave ::
  "nat \<Rightarrow> 'w fsapi \<Rightarrow> 'w save_api \<Rightarrow> request \<Rightarrow> 'w store \<Rightarrow> ((bool \<times> reply) \<times> 'w store) option" where
  "BackupSave fuel A V req s =
     (let tid = hex_arg req ''tid''
      in if tid = 0 then Some (Fail ''bad_arg'' ''missing tid'', s)
         else
           let (rc, w) = mount_rw V ''save'' tid (uid_args req) (disk s)
           in if rc \<noteq> 0 then Some (Fail ''mount_failed'' ''cannot mount save data'', s\<lparr>disk := w\<rparr>)
              else
                let w = snd (fs_mkdir A ''sdmc:/switch-agentd'' w);
                    w = snd (fs_mkdir A ''sdmc:/switch-agentd/saves'' w)
                in case CopyTree fuel A ''save:/'' (backup_dir req) w of
                     None \<Rightarrow> None
                   | Some (ok, w) \<Rightarrow>
                       let s = s\<lparr>disk := save_unmount V ''save'' w\<rparr>
                       in if \<not> ok then Some (Fail ''io_error'' ''backup copy failed'', s)
                          else Some (success [(''ok'', JBool True), (''path'', JStr (backup_dir req))], s))"

definition RestoreSave ::
  "nat \<Rightarrow> 'w fsapi \<Rightarrow> 'w save_api \<Rightarrow> request \<Rightarrow> 'w store \<Rightarrow> ((bool \<times> reply) \<times> 'w store) option" where
  "RestoreSave fuel A V req s =
     (let tid = hex_arg req ''tid''
      in if tid = 0 then Some (Fail ''bad_arg'' ''missing tid'', s)
         else
           let (rc, w) = mount_rw V ''save'' tid (uid_args req) (disk s)
           in if rc \<noteq> 0 then Some (Fail ''mount_failed'' ''cannot mount save data'', s\<lparr>disk := w\<rparr>)
              else case CopyTree fuel A (backup_dir req) ''save:/'' w of
                     None \<Rightarrow> None
                   | Some (ok, w) \<Rightarrow>
                       let (rc, w) = (if ok then commit_device V ''save'' w else (rc, w));
                           s = s\<lparr>disk := save_unmount V ''save'' w\<rparr>
                       in if \<not> ok \<or> rc \<noteq> 0 then Some (Fail ''io_error'' ''restore/commit failed'', s)
                          else Some (success [(''ok'', JBool True)], s))"

end
