(* ===== verification/CopyTree.thy ===== *)
theory CopyTree
  imports SaveDataLaws
begin

text \<open>
  The recursive copy behind save backup and restore: it changes nothing outside its target, and
  where the file system writes what it is given, reporting success means that every file of the
  source tree is in the target with the same content.
\<close>

section \<open>Paths below a directory\<close>

definition under :: "string \<Rightarrow> string \<Rightarrow> bool" where
  "under d q \<longleftrightarrow> (\<exists>r. q = d @ r \<and> (r = [] \<or> hd r = CHR ''/''))"

definition good_name :: "string \<Rightarrow> bool" where
  "good_name n \<longleftrightarrow> n \<noteq> [] \<and> \<not> is_dot n \<and> CHR ''/'' \<notin> set n \<and> CHR 0x00 \<notin> set n"

definition disjoint_trees :: "string \<Rightarrow> string \<Rightarrow> bool" where
  "disjoint_trees s d \<longleftrightarrow> (\<forall>q. \<not> (under s q \<and> under d q))"

abbreviation locate :: "string \<Rightarrow> string list \<Rightarrow> string" where
  "locate d ns \<equiv> foldl child d ns"

lemma under_refl [simp]: "under d d"
  by (simp add: under_def)

lemma under_child: "under (child d n) q \<Longrightarrow> under d q"
  by (auto simp: under_def child_def)

lemma under_locate: "under d (locate d ns)"
proof (induction ns rule: rev_induct)
  case (snoc n ns)
  then show ?case by (auto simp: under_def child_def hd_append)
qed simp

lemma under_siblings:
  assumes "good_name a" "good_name b" "under (child d a) q" "under (child d b) q"
  shows "a = b"
proof -
  obtain r1 r2 where r: "q = child d a @ r1" "r1 = [] \<or> hd r1 = CHR ''/''"
    "q = child d b @ r2" "r2 = [] \<or> hd r2 = CHR ''/''"
    using assms(3,4) unfolding under_def by blast
  then have "a @ r1 = b @ r2" by (simp add: child_def)
  moreover have "takeWhile (\<lambda>c. c \<noteq> CHR ''/'') (a @ r1) = a" "takeWhile (\<lambda>c. c \<noteq> CHR ''/'') (b @ r2) = b"
    using assms(1,2) r by (auto intro!: takeWhile_append_stop simp: good_name_def)
  ultimately show ?thesis by metis
qed

lemma disjoint_child: "disjoint_trees s d \<Longrightarrow> disjoint_trees (child s n) (child d m)"
  by (auto simp: disjoint_trees_def dest: under_child)

lemma code_0_iff: "code c = 0 \<longleftrightarrow> c = CHR 0x00"
  using of_char_eq_iff [of c "CHR 0x00"] by simp

lemma c_str_no_nul: "CHR 0x00 \<notin> set s \<Longrightarrow> c_str s = s"
  by (rule c_str_id) (metis code_0_iff)

lemma c_str_child: "CHR 0x00 \<notin> set d \<Longrightarrow> good_name n \<Longrightarrow> c_str (child d n) = child d n"
  by (rule c_str_no_nul) (auto simp: child_def good_name_def)

lemma nul_child: "CHR 0x00 \<notin> set d \<Longrightarrow> good_name n \<Longrightarrow> CHR 0x00 \<notin> set (child d n)"
  by (auto simp: child_def good_name_def)

section \<open>The file system as a tree\<close>

datatype node = Folder | File "byte list"

text \<open>
  Documented behaviour of the file system: the calls change only the path they name; what is
  listed are names, and all of them; a file is read whole, created empty, and extended by all that
  is written.
\<close>

definition tree_calls :: "'w fsapi \<Rightarrow> ('w \<Rightarrow> string \<Rightarrow> node option) \<Rightarrow> bool" where
  "tree_calls A view \<longleftrightarrow>
     (\<forall>p w q. q \<noteq> p \<longrightarrow> view (snd (fs_mkdir A p w)) q = view w q) \<and>
     (\<forall>p w q. q \<noteq> p \<longrightarrow> view (snd (fs_create A p w)) q = view w q) \<and>
     (\<forall>p n bs w q. q \<noteq> p \<longrightarrow> view (snd (fs_pwrite A p n bs w)) q = view w q) \<and>
     (\<forall>w d es. fs_dir A w d = Some es \<longrightarrow> (\<forall>n \<in> fst ` set es. is_dot n \<or> good_name n))"

definition tree_contents :: "'w fsapi \<Rightarrow> ('w \<Rightarrow> string \<Rightarrow> node option) \<Rightarrow> bool" where
  "tree_contents A view \<longleftrightarrow>
     (\<forall>p w. fst (fs_create A p w) \<longrightarrow> view (snd (fs_create A p w)) p = Some (File [])) \<and>
     (\<forall>p w old bs. view w p = Some (File old) \<longrightarrow>
        fst (fs_pwrite A p (length old) bs w) = length bs \<and>
        view (snd (fs_pwrite A p (length old) bs w)) p = Some (File (old @ bs))) \<and>
     (\<forall>w p. map_option st_dir (fs_stat A w p) = map_option (\<lambda>x. x = Folder) (view w p)) \<and>
     (\<forall>w p c e. fs_open_read A w p = Some (c, e) \<longrightarrow> view w p = Some (File c)) \<and>
     (\<forall>w d es n. fs_dir A w d = Some es \<and> good_name n \<and> view w (child d n) \<noteq> None \<longrightarrow> n \<in> fst ` set es)"

section \<open>Nothing outside the target changes\<close>

lemma tree_callsD:
  assumes "tree_calls A view"
  shows "q \<noteq> p \<Longrightarrow> view (snd (fs_mkdir A p w)) q = view w q"
    and "q \<noteq> p \<Longrightarrow> view (snd (fs_create A p w)) q = view w q"
    and "q \<noteq> p \<Longrightarrow> view (snd (fs_pwrite A p n bs w)) q = view w q"
    and "fs_dir A w d = Some es \<Longrightarrow> (name, t) \<in> set es \<Longrightarrow> is_dot name \<or> good_name name"
proof -
  show "q \<noteq> p \<Longrightarrow> view (snd (fs_mkdir A p w)) q = view w q"
    "q \<noteq> p \<Longrightarrow> view (snd (fs_create A p w)) q = view w q"
    "q \<noteq> p \<Longrightarrow> view (snd (fs_pwrite A p n bs w)) q = view w q"
    using assms by (simp_all add: tree_calls_def)
  assume "fs_dir A w d = Some es" "(name, t) \<in> set es"
  then show "is_dot name \<or> good_name name" using assms by (fastforce simp: tree_calls_def)
qed

lemma copy_loop_frame:
  assumes "tree_calls A view" "q \<noteq> d"
  shows "view (copy_loop A d pos content w) q = view w q"
proof (induction content arbitrary: pos w rule: length_induct)
  case (1 content)
  show ?case
  proof (cases "content = []")
    case False
    obtain n w1 where p: "fs_pwrite A d pos (take (64 * 1024) content) w = (n, w1)" by fastforce
    have "length (drop (64 * 1024) content) < length content" using False by simp
    then have "view (copy_loop A d (pos + n) (drop (64 * 1024) content) w1) q = view w1 q" using 1 by blast
    then show ?thesis
      using tree_callsD(3) [OF assms, of pos "take (64 * 1024) content" w] p False
      by (subst copy_loop.simps) simp
  qed (subst copy_loop.simps, simp)
qed

lemma copy_file_frame:
  "tree_calls A view \<Longrightarrow> q \<noteq> d \<Longrightarrow> view (snd (copy_file A s d w)) q = view w q"
  using tree_callsD(2) [of A view q d w]
  by (auto simp: copy_file_def Let_def copy_loop_frame split: option.split prod.split)

text \<open>A directory's copy, given what the copies of its directories change.\<close>

definition changes_only_target ::
  "('w \<Rightarrow> string \<Rightarrow> node option) \<Rightarrow> (string \<Rightarrow> string \<Rightarrow> 'w \<Rightarrow> (bool \<times> 'w) option) \<Rightarrow> bool" where
  "changes_only_target view sub \<longleftrightarrow>
     (\<forall>s d w r w' q. sub s d w = Some (r, w') \<and> CHR 0x00 \<notin> set d \<and> \<not> under d q \<longrightarrow> view w' q = view w q)"

lemma copy_entries_frame:
  assumes "tree_calls A view" "changes_only_target view sub" "CHR 0x00 \<notin> set dst"
    and "\<And>n t. (n, t) \<in> set es \<Longrightarrow> is_dot n \<or> good_name n"
    and "copy_entries sub A src dst es ok w = Some (r, w')"
    and "\<And>n t. (n, t) \<in> set es \<Longrightarrow> good_name n \<Longrightarrow> \<not> under (child dst n) q"
  shows "view w' q = view w q"
  using assms(4-)
proof (induction es arbitrary: ok w)
  case (Cons e es)
  obtain n t where e: "e = (n, t)" by (cases e)
  have IH: "copy_entries sub A src dst es ok' v = Some (r, w') \<Longrightarrow> view w' q = view v q" for ok' v
    using Cons.IH [of ok' v] Cons.prems(1,3) by (meson list.set_intros(2))
  show ?case
  proof (cases "is_dot n \<or> fs_stat A w (c_str (child src n)) = None")
    case True
    then show ?thesis using IH [of ok w] Cons.prems(2) e by (auto split: if_splits)
  next
    case False
    then have g: "good_name n" and nu: "\<not> under (child dst n) q" using Cons.prems(1,3) e by auto
    obtain st where st: "fs_stat A w (c_str (child src n)) = Some st" using False by auto
    show ?thesis
    proof (cases "st_dir st")
      case True
      then obtain r1 w1 where s: "sub (child src n) (child dst n) w = Some (r1, w1)"
        "copy_entries sub A src dst es (ok \<and> r1) w1 = Some (r, w')"
        using Cons.prems(2) st False e by (auto split: option.splits)
      have "view w1 q = view w q"
        using assms(2) s(1) nul_child [OF assms(3) g] nu unfolding changes_only_target_def by blast
      then show ?thesis using IH [OF s(2)] by simp
    next
      case nd: False
      obtain r1 w1 where c: "copy_file A (c_str (child src n)) (c_str (child dst n)) w = (r1, w1)" by fastforce
      then have s: "copy_entries sub A src dst es (ok \<and> r1) w1 = Some (r, w')"
        using Cons.prems(2) st False nd e by simp
      have "q \<noteq> child dst n" using nu by auto
      then have "view w1 q = view w q"
        using copy_file_frame [OF assms(1), of q "c_str (child dst n)" "c_str (child src n)" w] c
          c_str_child [OF assms(3) g] by simp
      then show ?thesis using IH [OF s] by simp
    qed
  qed
qed simp

lemma CopyTree_frame:
  assumes "tree_calls A view"
  shows "changes_only_target view (CopyTree k A)"
proof (induction k)
  case 0
  show ?case by (simp add: changes_only_target_def)
next
  case (Suc k)
  show ?case
    unfolding changes_only_target_def
  proof (intro allI impI, elim conjE)
    fix s d w r w' q
    assume c: "CopyTree (Suc k) A s d w = Some (r, w')" and z: "CHR 0x00 \<notin> set d" and q: "\<not> under d q"
    let ?w = "snd (fs_mkdir A (c_str d) w)"
    have "c_str d = d" using z by (rule c_str_no_nul)
    moreover have "q \<noteq> d" using q by auto
    ultimately have m: "view ?w q = view w q" using tree_callsD(1) [OF assms, of q d w] by simp
    show "view w' q = view w q"
    proof (cases "fs_dir A ?w (c_str s)")
      case None
      then show ?thesis using c m by (simp add: Let_def)
    next
      case (Some es)
      then have "copy_entries (CopyTree k A) A s d es True ?w = Some (r, w')" using c by (simp add: Let_def)
      from copy_entries_frame [OF assms Suc z _ this, of q] tree_callsD(4) [OF assms Some] q m
      show ?thesis by (auto dest: under_child)
    qed
  qed
qed

section \<open>A successful copy is complete\<close>

lemma tree_contentsD:
  assumes "tree_contents A view"
  shows "fst (fs_create A p w) \<Longrightarrow> view (snd (fs_create A p w)) p = Some (File [])"
    and "view w p = Some (File old) \<Longrightarrow> fst (fs_pwrite A p (length old) bs w) = length bs"
    and "view w p = Some (File old) \<Longrightarrow> view (snd (fs_pwrite A p (length old) bs w)) p = Some (File (old @ bs))"
    and "map_option st_dir (fs_stat A w p) = map_option (\<lambda>x. x = Folder) (view w p)"
    and "fs_open_read A w p = Some (c, e) \<Longrightarrow> view w p = Some (File c)"
    and "fs_dir A w d = Some es \<Longrightarrow> good_name n \<Longrightarrow> view w (child d n) \<noteq> None \<Longrightarrow> n \<in> fst ` set es"
  using assms by (simp_all add: tree_contents_def)

lemma copy_loop_content:
  assumes "tree_contents A view"
  shows "view w d = Some (File old) \<Longrightarrow>
    view (copy_loop A d (length old) content w) d = Some (File (old @ content))"
proof (induction content arbitrary: old w rule: length_induct)
  case (1 content)
  show ?case
  proof (cases "content = []")
    case True
    then show ?thesis using 1(2) by (subst copy_loop.simps) simp
  next
    case False
    let ?c = "take (64 * 1024) content"
    obtain n w1 where p: "fs_pwrite A d (length old) ?c w = (n, w1)" by fastforce
    have w1: "n = length ?c" "view w1 d = Some (File (old @ ?c))"
      using tree_contentsD(2,3) [OF assms 1(2), of ?c] p by simp_all
    have "length (drop (64 * 1024) content) < length content" using False by simp
    with 1(1) w1(2) have "view (copy_loop A d (length (old @ ?c)) (drop (64 * 1024) content) w1) d =
        Some (File ((old @ ?c) @ drop (64 * 1024) content))" by blast
    moreover have "copy_loop A d (length old) content w =
        copy_loop A d (length (old @ ?c)) (drop (64 * 1024) content) w1"
      using p False w1(1) by (subst copy_loop.simps) simp
    ultimately show ?thesis by simp
  qed
qed

lemma copy_file_content:
  assumes "tree_contents A view" "copy_file A s d w = (True, w')"
  shows "\<exists>c. view w s = Some (File c) \<and> view w' d = Some (File c)"
proof -
  obtain opened w1 where cr: "fs_create A d w = (opened, w1)" by fastforce
  then obtain c e where c: "fs_open_read A w s = Some (c, e)" opened "w' = copy_loop A d 0 c w1"
    using assms(2) by (auto simp: copy_file_def Let_def split: option.splits if_splits)
  then have "view w1 d = Some (File [])" using tree_contentsD(1) [OF assms(1), of d w] cr by simp
  from copy_loop_content [OF assms(1) this, of c] c tree_contentsD(5) [OF assms(1)]
  show ?thesis by auto
qed

text \<open>The files of the tree below a path, by the names that lead to them.\<close>

fun file_at :: "('w \<Rightarrow> string \<Rightarrow> node option) \<Rightarrow> 'w \<Rightarrow> string \<Rightarrow> string list \<Rightarrow> byte list \<Rightarrow> bool" where
  "file_at view w d [] bs \<longleftrightarrow> view w d = Some (File bs)"
| "file_at view w d (n # ns) bs \<longleftrightarrow>
     view w d = Some Folder \<and> good_name n \<and> file_at view w (child d n) ns bs"

lemma file_at_exists: "file_at view w d ns bs \<Longrightarrow> view w d \<noteq> None"
  by (cases ns) auto

lemma file_at_cong:
  "(\<And>q. under d q \<Longrightarrow> view w q = view v q) \<Longrightarrow> file_at view w d ns bs = file_at view v d ns bs"
proof (induction ns arbitrary: d)
  case (Cons n ns)
  have "file_at view w (child d n) ns bs = file_at view v (child d n) ns bs"
    using Cons.prems by (intro Cons.IH) (blast dest: under_child)
  then show ?case using Cons.prems by simp
qed simp

definition copies_all :: "('w \<Rightarrow> string \<Rightarrow> node option) \<Rightarrow> (string \<Rightarrow> string \<Rightarrow> 'w \<Rightarrow> (bool \<times> 'w) option) \<Rightarrow> bool" where
  "copies_all view sub \<longleftrightarrow>
     (\<forall>s d w w' n ns bs. sub s d w = Some (True, w') \<and> CHR 0x00 \<notin> set s \<and> CHR 0x00 \<notin> set d \<and>
        disjoint_trees s d \<and> file_at view w s (n # ns) bs \<longrightarrow> view w' (locate d (n # ns)) = Some (File bs))"

lemma copies_allD:
  assumes "copies_all view sub" "sub s d w = Some (True, w')" "CHR 0x00 \<notin> set s" "CHR 0x00 \<notin> set d"
    and "disjoint_trees s d" "file_at view w s (n # ns) bs"
  shows "view w' (locate d (n # ns)) = Some (File bs)"
  using assms(1) [unfolded copies_all_def, rule_format, of s d w w' n ns bs] assms(2-) by blast

lemma copy_entries_ok: "copy_entries sub A src dst es ok w = Some (True, w') \<Longrightarrow> ok"
  by (induction es arbitrary: ok w) (fastforce simp: Let_def split: if_splits option.splits prod.splits)+

lemma copy_entries_head:
  assumes "tree_contents A view" "copies_all view sub"
    and "CHR 0x00 \<notin> set src" "CHR 0x00 \<notin> set dst" "disjoint_trees src dst"
    and "copy_entries sub A src dst ((n, t) # es) ok w = Some (True, w')"
    and "good_name n" "file_at view w (child src n) ns bs"
  shows "\<exists>ok' w1. copy_entries sub A src dst es ok' w1 = Some (True, w') \<and>
    view w1 (locate dst (n # ns)) = Some (File bs)"
proof -
  have c: "c_str (child src n) = child src n" "c_str (child dst n) = child dst n"
    using assms(3,4,7) by (simp_all add: c_str_child)
  have nd: "\<not> is_dot n" using assms(7) by (simp add: good_name_def)
  have S: "map_option st_dir (fs_stat A w (child src n)) = map_option (\<lambda>x. x = Folder) (view w (child src n))"
    by (rule tree_contentsD(4) [OF assms(1)])
  then obtain st where st: "fs_stat A w (child src n) = Some st"
    using file_at_exists [OF assms(8)] by (cases "fs_stat A w (child src n)") auto
  show ?thesis
  proof (cases ns)
    case (Cons m ms)
    then have "st_dir st" using S st assms(8) by simp
    then obtain r1 w1 where s: "sub (child src n) (child dst n) w = Some (r1, w1)"
      "copy_entries sub A src dst es (ok \<and> r1) w1 = Some (True, w')"
      using assms(6) c st nd by (auto split: option.splits)
    then have r1 using copy_entries_ok by fast
    then have "view w1 (locate (child dst n) (m # ms)) = Some (File bs)"
      using s(1) assms(8) Cons
      by (intro copies_allD [OF assms(2) _ nul_child [OF assms(3,7)] nul_child [OF assms(4,7)]
            disjoint_child [OF assms(5)]]) auto
    then show ?thesis using s(2) Cons by auto
  next
    case Nil
    then have "\<not> st_dir st" using S st assms(8) by simp
    moreover obtain r1 w1 where f: "copy_file A (child src n) (child dst n) w = (r1, w1)" by fastforce
    ultimately have s: "copy_entries sub A src dst es (ok \<and> r1) w1 = Some (True, w')"
      using assms(6) c st nd by simp
    then have r1 using copy_entries_ok by fast
    then show ?thesis using copy_file_content [OF assms(1), of "child src n" "child dst n" w w1] f s assms(8) Nil
      by auto
  qed
qed

lemma copy_entries_complete:
  assumes "tree_calls A view" "tree_contents A view" "changes_only_target view sub" "copies_all view sub"
    and z: "CHR 0x00 \<notin> set src" "CHR 0x00 \<notin> set dst" "disjoint_trees src dst"
    and "\<And>n t. (n, t) \<in> set es \<Longrightarrow> is_dot n \<or> good_name n"
    and "copy_entries sub A src dst es ok w = Some (True, w')"
    and "n \<in> fst ` set es" "good_name n" "file_at view w (child src n) ns bs"
  shows "view w' (locate dst (n # ns)) = Some (File bs)"
  using assms(8-)
proof (induction es arbitrary: ok w)
  case (Cons e es)
  obtain m t where e: "e = (m, t)" by (cases e)
  have names: "\<And>n t. (n, t) \<in> set es \<Longrightarrow> is_dot n \<or> good_name n" using Cons.prems(1) by (meson list.set_intros(2))
  show ?case
  proof (cases "n \<in> fst ` set es")
    case True
    obtain ok1 w1 where s: "copy_entries sub A src dst es ok1 w1 = Some (True, w')"
      and frame: "\<And>q. under src q \<Longrightarrow> view w1 q = view w q"
    proof (cases "is_dot m \<or> fs_stat A w (c_str (child src m)) = None")
      case True
      then show thesis using that [of ok w] Cons.prems(2) e by (auto split: if_splits)
    next
      case False
      then obtain st where st: "fs_stat A w (c_str (child src m)) = Some st" by auto
      have m: "good_name m" using False Cons.prems(1) e by auto
      obtain r1 w1 where one: "copy_entries sub A src dst [(m, t)] ok w = Some (r1, w1)"
        and s: "copy_entries sub A src dst es r1 w1 = Some (True, w')"
        using Cons.prems(2) st False e by (auto split: option.splits prod.splits if_splits)
      have "view w1 q = view w q" if "under src q" for q
        using that z(3) m
        by (intro copy_entries_frame [OF assms(1,3) z(2) _ one])
           (auto simp: disjoint_trees_def dest: under_child)
      then show thesis using that s by blast
    qed
    have "file_at view w1 (child src n) ns bs"
      using file_at_cong [of "child src n" view w1 w] frame Cons.prems(5) by (blast dest: under_child)
    then show ?thesis using Cons.IH [OF names s True Cons.prems(4)] by simp
  next
    case False
    then have n: "m = n" using Cons.prems(3) e by auto
    obtain ok1 w1 where s: "copy_entries sub A src dst es ok1 w1 = Some (True, w')"
      "view w1 (locate dst (n # ns)) = Some (File bs)"
      using copy_entries_head [OF assms(2,4) z, of n t es ok w w' ns bs] Cons.prems(2,4,5) e n by auto
    have "\<not> under (child dst n') (locate dst (n # ns))" if "(n', t') \<in> set es" "good_name n'" for n' t'
      using that False under_siblings [OF _ Cons.prems(4), of n'] under_locate [of "child dst n" ns] by force
    from copy_entries_frame [OF assms(1,3) z(2) names s(1) this] s(2) show ?thesis by simp
  qed
qed simp

lemma CopyTree_complete:
  assumes "tree_calls A view" "tree_contents A view"
  shows "copies_all view (CopyTree k A)"
proof (induction k)
  case 0
  show ?case by (simp add: copies_all_def)
next
  case (Suc k)
  show ?case
    unfolding copies_all_def
  proof (intro allI impI, elim conjE)
    fix s d w w' n ns bs
    assume c: "CopyTree (Suc k) A s d w = Some (True, w')" and z: "CHR 0x00 \<notin> set s" "CHR 0x00 \<notin> set d"
      and dj: "disjoint_trees s d" and f: "file_at view w s (n # ns) bs"
    let ?w = "snd (fs_mkdir A (c_str d) w)"
    have "view ?w q = view w q" if "under s q" for q
    proof -
      have "q \<noteq> d" using that dj unfolding disjoint_trees_def by (metis under_refl)
      from tree_callsD(1) [OF assms(1) this, of w] show ?thesis unfolding c_str_no_nul [OF z(2)] .
    qed
    from file_at_cong [of s view ?w w, OF this] f have f: "file_at view ?w s (n # ns) bs" by (simp only:)
    obtain es where es: "fs_dir A ?w (c_str s) = Some es"
      and ce: "copy_entries (CopyTree k A) A s d es True ?w = Some (True, w')"
      using c by (auto simp: Let_def split: option.splits)
    have "n \<in> fst ` set es"
      using tree_contentsD(6) [OF assms(2), of ?w s es n] es f file_at_exists c_str_no_nul [OF z(1)] by fastforce
    then show "view w' (locate d (n # ns)) = Some (File bs)"
      using copy_entries_complete [OF assms CopyTree_frame [OF assms(1)] Suc z dj tree_callsD(4) [OF assms(1) es] ce]
        f by auto
  qed
qed

section \<open>The copy returns\<close>

text \<open>
  No folder below the source has a path longer than \<open>L\<close>, the longest the file system knows; each level
  of the recursion lengthens the path, so fuel above \<open>L\<close> is never used up.
\<close>

definition short_paths :: "('w \<Rightarrow> string \<Rightarrow> node option) \<Rightarrow> nat \<Rightarrow> 'w \<Rightarrow> string \<Rightarrow> bool" where
  "short_paths view L w s \<longleftrightarrow> (\<forall>q. under s q \<and> view w q = Some Folder \<longrightarrow> length q \<le> L)"

lemma short_paths_cong:
  "(\<And>q. under s q \<Longrightarrow> view v q = view w q) \<Longrightarrow> short_paths view L w s \<Longrightarrow> short_paths view L v s"
  unfolding short_paths_def by auto

lemma short_paths_child: "short_paths view L w s \<Longrightarrow> short_paths view L w (child s n)"
  by (auto simp: short_paths_def dest: under_child)

definition returns_on :: "('w \<Rightarrow> string \<Rightarrow> node option) \<Rightarrow> nat \<Rightarrow> nat \<Rightarrow> (string \<Rightarrow> string \<Rightarrow> 'w \<Rightarrow> (bool \<times> 'w) option) \<Rightarrow> bool" where
  "returns_on view L k sub \<longleftrightarrow>
     (\<forall>s d w. L < length s + k \<and> length s \<le> L \<and> CHR 0x00 \<notin> set s \<and> CHR 0x00 \<notin> set d \<and>
        disjoint_trees s d \<and> short_paths view L w s \<longrightarrow> sub s d w \<noteq> None)"

lemma copy_entries_returns:
  assumes "tree_calls A view" "tree_contents A view" "changes_only_target view sub" "returns_on view L k sub"
    and z: "CHR 0x00 \<notin> set src" "CHR 0x00 \<notin> set dst" "disjoint_trees src dst"
    and "L < length src + Suc k"
    and "\<And>n t. (n, t) \<in> set es \<Longrightarrow> is_dot n \<or> good_name n" "short_paths view L w src"
  shows "copy_entries sub A src dst es ok w \<noteq> None"
  using assms(9-)
proof (induction es arbitrary: ok w)
  case (Cons e es)
  obtain n t where e: "e = (n, t)" by (cases e)
  have names: "\<And>n t. (n, t) \<in> set es \<Longrightarrow> is_dot n \<or> good_name n" using Cons.prems(1) by (meson list.set_intros(2))
  show ?case
  proof (cases "is_dot n \<or> fs_stat A w (c_str (child src n)) = None")
    case True
    then show ?thesis using Cons.IH [OF names Cons.prems(2)] e by auto
  next
    case False
    then have g: "good_name n" using Cons.prems(1) e by auto
    obtain st where st: "fs_stat A w (c_str (child src n)) = Some st" using False by auto
    have next_short: "short_paths view L v src" if "copy_entries sub A src dst [(n, t)] ok w = Some (r, v)" for r v
    proof (rule short_paths_cong [OF _ Cons.prems(2)])
      fix q assume "under src q"
      then show "view v q = view w q"
        using z(3) g by (intro copy_entries_frame [OF assms(1,3) z(2) _ that]) (auto simp: disjoint_trees_def dest: under_child)
    qed
    show ?thesis
    proof (cases "st_dir st")
      case True
      then have "view w (child src n) = Some Folder"
        using tree_contentsD(4) [OF assms(2), of w "child src n"] st c_str_child [OF z(1) g]
        by (cases "view w (child src n)") auto
      then have l: "length (child src n) \<le> L"
        using Cons.prems(2) under_locate [of src "[n]"] unfolding short_paths_def by auto
      have "L < length (child src n) + k" using assms(8) by (simp add: child_def)
      then have "sub (child src n) (child dst n) w \<noteq> None"
        using assms(4) l nul_child [OF z(1) g] nul_child [OF z(2) g] disjoint_child [OF z(3)]
          short_paths_child [OF Cons.prems(2)]
        unfolding returns_on_def by blast
      then obtain r1 w1 where r1: "sub (child src n) (child dst n) w = Some (r1, w1)" by auto
      have "short_paths view L w1 src" using next_short [of "ok \<and> r1" w1] st True False r1 by simp
      then show ?thesis using Cons.IH [OF names] st True False r1 e by simp
    next
      case nd: False
      obtain r1 w1 where c: "copy_file A (c_str (child src n)) (c_str (child dst n)) w = (r1, w1)" by fastforce
      have "short_paths view L w1 src" using next_short [of "ok \<and> r1" w1] st nd False c by simp
      then show ?thesis using Cons.IH [OF names] st nd False c e by simp
    qed
  qed
qed simp

lemma CopyTree_returns:
  assumes "tree_calls A view" "tree_contents A view"
  shows "returns_on view L k (CopyTree k A)"
proof (induction k)
  case 0
  show ?case by (simp add: returns_on_def)
next
  case (Suc k)
  show ?case
    unfolding returns_on_def
  proof (intro allI impI, elim conjE)
    fix s d w
    assume l: "L < length s + Suc k" "length s \<le> L" and z: "CHR 0x00 \<notin> set s" "CHR 0x00 \<notin> set d"
      and dj: "disjoint_trees s d" and sh: "short_paths view L w s"
    let ?w = "snd (fs_mkdir A (c_str d) w)"
    have "view ?w q = view w q" if "under s q" for q
    proof -
      have "q \<noteq> d" using that dj unfolding disjoint_trees_def by (metis under_refl)
      from tree_callsD(1) [OF assms(1) this, of w] show ?thesis unfolding c_str_no_nul [OF z(2)] .
    qed
    from short_paths_cong [of s view ?w w, OF this] sh have sh: "short_paths view L ?w s" by (simp only:)
    show "CopyTree (Suc k) A s d w \<noteq> None"
    proof (cases "fs_dir A ?w (c_str s)")
      case None
      then show ?thesis by (simp add: Let_def)
    next
      case (Some es)
      from copy_entries_returns [OF assms CopyTree_frame [OF assms(1)] Suc z dj l(1) tree_callsD(4) [OF assms(1) Some] sh]
      show ?thesis using Some by (simp add: Let_def)
    qed
  qed
qed

section \<open>A card and a save in memory\<close>

type_synonym tree = "(string \<times> node) list"

definition tree_names :: "tree \<Rightarrow> string \<Rightarrow> string list" where
  "tree_names w d = filter good_name
     (map (\<lambda>(p, _). drop (Suc (length d)) p) (filter (\<lambda>(p, _). take (Suc (length d)) p = d @ ''/'') w))"

definition put_node :: "string \<Rightarrow> node \<Rightarrow> tree \<Rightarrow> tree" where
  "put_node p n w = (p, n) # filter (\<lambda>(q, _). q \<noteq> p) w"

definition ram_tree :: "tree fsapi" where
  "ram_tree =
     \<lparr>fs_dir = (\<lambda>w d. if map_of w d = Some Folder then Some (map (\<lambda>n. (n, DT_UNKNOWN)) (tree_names w d)) else None),
      fs_stat = (\<lambda>w p. map_option (\<lambda>n. \<lparr>st_dir = (n = Folder), st_size = 0, st_mtime = 0\<rparr>) (map_of w p)),
      fs_open_read = (\<lambda>w p. case map_of w p of Some (File bs) \<Rightarrow> Some (bs, False) | _ \<Rightarrow> None),
      fs_create = (\<lambda>p w. if map_of w p = Some Folder then (False, w) else (True, put_node p (File []) w)),
      fs_can_update = (\<lambda>w p. False),
      fs_pwrite = (\<lambda>p pos bs w. case map_of w p of
          Some (File old) \<Rightarrow> (length bs, put_node p (File (take pos old @ bs)) w) | _ \<Rightarrow> (0, w)),
      fs_mkdir = (\<lambda>p w. if map_of w p = None then (True, put_node p Folder w) else (False, w)),
      fs_remove = (\<lambda>p w. (False, w)), fs_rmdir = (\<lambda>p w. (False, w)), fs_rename = (\<lambda>p q w. (False, w)),
      fs_statvfs = (\<lambda>w p. None)\<rparr>"

lemma map_of_put_node: "map_of (put_node p n w) q = (if q = p then Some n else map_of w q)"
proof -
  have "map_of (filter (\<lambda>(q, _). q \<noteq> p) w) q = (if q = p then None else map_of w q)"
    by (induction w) auto
  then show ?thesis by (simp add: put_node_def)
qed

lemma tree_names_all: "map_of w (child d n) \<noteq> None \<Longrightarrow> good_name n \<Longrightarrow> n \<in> set (tree_names w d)"
  by (force simp: tree_names_def child_def dest: map_of_SomeD)

lemma ram_tree_calls: "tree_calls ram_tree map_of"
  by (auto simp: tree_calls_def ram_tree_def map_of_put_node tree_names_def split: option.split node.split if_splits)

lemma ram_tree_contents: "tree_contents ram_tree map_of"
  unfolding tree_contents_def
proof (intro conjI allI impI)
  show "map_option st_dir (fs_stat ram_tree w p) = map_option (\<lambda>x. x = Folder) (map_of w p)" for w p
    by (cases "map_of w p") (simp_all add: ram_tree_def)
  show "n \<in> fst ` set es"
    if "fs_dir ram_tree w d = Some es \<and> good_name n \<and> map_of w (child d n) \<noteq> None" for w d es n
    using that tree_names_all [of w d n] by (force simp: ram_tree_def split: if_splits)
qed (auto simp: ram_tree_def map_of_put_node split: if_splits option.splits node.splits)

text \<open>A console whose save is always there and whose mounts all succeed.\<close>

definition tree_saves :: "tree save_api" where
  "tree_saves =
     \<lparr>info_batches = (\<lambda>w. None), save_unmount = (\<lambda>_ w. w), mount_ro = (\<lambda>_ _ _ w. (0, w)),
      mount_system = (\<lambda>_ _ _ _ w. (0, w)), mount_rw = (\<lambda>_ _ _ w. (0, w)),
      commit_device = (\<lambda>_ w. (0, w)), bis_open = (\<lambda>_ _. False), bis_read = (\<lambda>_ _ _ _ _. None)\<rparr>"

section \<open>Properties\<close>



text \<open>
  A backup's directory is not subject to the path policy. The number a backup or restore mounts
  is only the leading hex digits of \<^verbatim>\<open>tid\<close>, but the directory is the whole text: with dot-dot
  segments after the first slash the copy runs on a directory that every filesystem command would
  refuse, anywhere on the card.
\<close>

theorem backup_escapes:
  assumes "as_string [] (arg req ''tid'') = ''1/../../..'' @ p" "arg req ''tid'' = JStr (''1/../../..'' @ p)"
    and "p = [] \<or> hd p = CHR ''/''" "mount_rw V ''save'' 1 (uid_args req) (disk s) = (0, w)"
    and "w' = snd (fs_mkdir A ''sdmc:/switch-agentd/saves'' (snd (fs_mkdir A ''sdmc:/switch-agentd'' w)))"
  shows "BackupSave fuel A V req s = map_option (\<lambda>(ok, v).
      (if ok then success [(''ok'', JBool True), (''path'', JStr (''sdmc:/switch-agentd/saves/1/../../..'' @ p))]
       else Fail ''io_error'' ''backup copy failed'', s\<lparr>disk := save_unmount V ''save'' v\<rparr>))
      (CopyTree fuel A ''save:/'' (''sdmc:/switch-agentd/saves/1/../../..'' @ p) w') \<and>
    ResolveSdPath (''/switch-agentd/saves/1/../../..'' @ p) = None"
proof -
  have tid: "hex_arg req ''tid'' = 1"
    by (simp add: hex_arg_def assms(2) strtoull16_def is_space_def
        read_sign_def skip_0x_def strtoull_digits_def digit_in_def digit_val_def)
  have "BackupSave fuel A V req s = map_option (\<lambda>(ok, v).
      (if ok then success [(''ok'', JBool True), (''path'', JStr (backup_dir req))]
       else Fail ''io_error'' ''backup copy failed'', s\<lparr>disk := save_unmount V ''save'' v\<rparr>))
      (CopyTree fuel A ''save:/'' (backup_dir req) w')"
    by (simp add: BackupSave_def Let_def tid assms(4,5) split: option.split prod.split)
  moreover have "backup_dir req = ''sdmc:/switch-agentd/saves/1/../../..'' @ p"
    using assms(1) by (simp add: backup_dir_def)
  moreover have "''..'' \<in> set (butlast (segments ''/switch-agentd/saves/1/../../..''))" by code_simp
  then have "''..'' \<in> set (segments (''/switch-agentd/saves/1/../../..'' @ p))"
    using segments_prefix_butlast by blast
  then have "ResolveSdPath (''/switch-agentd/saves/1/../../..'' @ p) = None"
    unfolding ResolveSdPath_def NormalizePath_spec by (simp del: append_Cons)
  ultimately show ?thesis by (simp only:)
qed


theorem backup_escapes_witness:
  "ResolveSdPath (''/switch-agentd/saves/1/../../../atmosphere'') = None"
proof -
  let ?q = "save_request [(''tid'', JStr (''1/../../..'' @ ''/atmosphere''))]"
  have "arg ?q ''tid'' = JStr (''1/../../..'' @ ''/atmosphere'')"
    by (simp add: save_request_def json_fields_def)
  from backup_escapes [OF _ this, of tree_saves "\<lparr>disk = [], save_mounted = False\<rparr>" _ _ ram_tree 1, OF _ _ _ refl]
  show ?thesis by (simp add: save_request_def json_fields_def tree_saves_def)
qed

end
