(* ===== verification/MemSearch.thy ===== *)
theory MemSearch
  imports ServerLaws
begin

text \<open>
  Live memory inspection and the narrowing search (\<^verbatim>\<open>handlers/memsearch.cpp\<close>). The cheat service of
  the console is a record of functions; the target runs on while it is read, so every read may
  change the world. The scan's 64-bit offsets are kept at their width, and the scan loop is given
  fuel: no result means the handler never returns.
\<close>

section \<open>The cheat service\<close>

record extents =
  ex_base :: u64
  ex_size :: u64

record cheat_meta =
  meta_pid :: u64
  meta_title :: u64
  main_nso :: extents
  meta_heap :: extents
  meta_alias :: extents
  address_space :: extents
  build_id :: "byte list"

record memory_info =
  mi_addr :: u64
  mi_size :: u64
  mi_type :: u32
  mi_perm :: u32

text \<open>libnx's constants for permissions and memory types.\<close>

record nx_mem =
  Perm_R :: u32
  Perm_W :: u32
  Perm_X :: u32
  MemType_Heap :: u32
  MemType_Normal :: u32
  MemType_CodeMutable :: u32
  MemType_ModuleCodeMutable :: u32

record 'w cheat_api =
  get_service :: "'w \<Rightarrow> bool"
  has_process :: "'w \<Rightarrow> byte option"
  app_pid :: "'w \<Rightarrow> u64 option"
  force_open :: "u64 \<Rightarrow> 'w \<Rightarrow> bool \<times> 'w"
  read_mem :: "u64 \<Rightarrow> nat \<Rightarrow> 'w \<Rightarrow> byte list option \<times> 'w"
  write_mem :: "u64 \<Rightarrow> byte list \<Rightarrow> 'w \<Rightarrow> bool \<times> 'w"
  get_meta :: "'w \<Rightarrow> cheat_meta option"
  mapping_count :: "'w \<Rightarrow> u64 option"
  mappings :: "nat \<Rightarrow> 'w \<Rightarrow> (memory_info list \<times> u64) option"

section \<open>State\<close>

record candidate =
  cand_addr :: u64
  cand_value :: u64

record 'w hunt =
  hworld :: 'w
  g_open :: bool
  candidates :: "candidate list"
  g_width :: nat
  g_generation :: nat

definition kMaxCandidates :: nat where "kMaxCandidates = 32768"
definition kScanChunk :: nat where "kScanChunk = 64 * 1024"

definition hunt_start :: "'w \<Rightarrow> 'w hunt" where
  "hunt_start w = \<lparr>hworld = w, g_open = False, candidates = [], g_width = 4, g_generation = 0\<rparr>"

section \<open>The service session\<close>

definition no_service :: "bool \<times> reply" where
  "no_service =
     Fail ''no_service''
       (''dmnt:cht unavailable. Atmosph'' @ e_grave @ ''re'' @ [CHR 0x27] @ ''s cheat module must be enabled '' @
        ''(dmnt_cheats_enabled_by_default, or a cheat process force-opened).'')"

text \<open>\<open>None\<close> is success; otherwise the refusal that the handler returns.\<close>

definition Open :: "'w cheat_api \<Rightarrow> 'w hunt \<Rightarrow> (bool \<times> reply) option \<times> 'w hunt" where
  "Open A s =
     (if g_open s then (None, s)
      else if \<not> get_service A (hworld s)
      then (Some no_service, s)
      else (None, s\<lparr>g_open := True\<rparr>))"

definition EnsureCheatProcess :: "'w cheat_api \<Rightarrow> 'w hunt \<Rightarrow> (bool \<times> reply) option \<times> 'w hunt" where
  "EnsureCheatProcess A s =
     (case Open A s of
        (Some e, s) \<Rightarrow> (Some e, s)
      | (None, s) \<Rightarrow>
          (case has_process A (hworld s) of
             None \<Rightarrow> (Some (Fail ''ipc_failed'' ''HasCheatProcess failed''), s)
           | Some present \<Rightarrow>
               if present \<noteq> 0 then (None, s)
               else if app_pid A (hworld s) \<in> {None, Some 0} then
                 (Some (Fail ''no_app'' ''no cheat process and no foreground application to open one on''), s)
               else let (r, w) = force_open A (the (app_pid A (hworld s))) (hworld s);
                        s = s\<lparr>hworld := w\<rparr>
                    in if \<not> r then
                         (Some (Fail ''open_failed'' ''ForceOpenCheatProcess failed for the foreground application''), s)
                       else (None, s)))"

definition with_process ::
  "'w cheat_api \<Rightarrow> 'w hunt \<Rightarrow> ('w hunt \<Rightarrow> (bool \<times> reply) \<times> 'w hunt) \<Rightarrow> (bool \<times> reply) \<times> 'w hunt" where
  "with_process A s k =
     (case EnsureCheatProcess A s of (Some e, s) \<Rightarrow> (e, s) | (None, s) \<Rightarrow> k s)"

text \<open>\<^verbatim>\<open>(int)req[..].as_int(d)\<close>, replaced by the default outside 1 to the maximum.\<close>

definition int_arg :: "request \<Rightarrow> string \<Rightarrow> nat \<Rightarrow> nat \<Rightarrow> nat" where
  "int_arg req k dflt maximum =
     (let n = sint (to_i32 (as_int (word_of_nat dflt) (arg req k)))
      in if n < 1 \<or> n > int maximum then dflt else nat n)"

section \<open>Reading and writing memory\<close>

definition CheatReadMem :: "'w cheat_api \<Rightarrow> request \<Rightarrow> 'w hunt \<Rightarrow> (bool \<times> reply) \<times> 'w hunt" where
  "CheatReadMem A req s =
     with_process A s (\<lambda>s.
       let addr = as_int 0 (arg req ''addr'');
           len = int_arg req ''len'' 256 (2 ^ 20)
       in if addr = 0 then (Fail ''bad_arg'' ''missing addr'', s)
          else case read_mem A addr len (hworld s) of
                 (None, w) \<Rightarrow> (Fail ''read_failed'' ''ReadCheatProcessMemory failed (address not mapped?)'', s\<lparr>hworld := w\<rparr>)
               | (Some bs, w) \<Rightarrow>
                   (success_out [(''addr'', JInt addr), (''len'', JInt (word_of_nat len)),
                      (''paused'', JBool False)] (take len bs), s\<lparr>hworld := w\<rparr>))"

definition CheatWriteMem :: "'w cheat_api \<Rightarrow> request \<Rightarrow> 'w hunt \<Rightarrow> (bool \<times> reply) \<times> 'w hunt" where
  "CheatWriteMem A req s =
     with_process A s (\<lambda>s.
       let addr = as_int 0 (arg req ''addr'')
       in if addr = 0 then (Fail ''bad_arg'' ''missing addr'', s)
          else if req_payload req = [] then (Fail ''bad_arg'' ''no payload to write'', s)
          else let (r, w) = write_mem A addr (req_payload req) (hworld s); s = s\<lparr>hworld := w\<rparr>
               in if \<not> r then (Fail ''write_failed'' ''WriteCheatProcessMemory failed'', s)
                  else (success [(''written'', JInt (word_of_nat (length (req_payload req)))),
                                 (''addr'', JInt addr)], s))"

definition region_json :: "extents \<Rightarrow> json" where
  "region_json e = json_fields [(''base'', JStr (fmt_0xlx (ex_base e))), (''size'', JStr (fmt_0xlx (ex_size e)))]"

definition CheatMeta :: "'w cheat_api \<Rightarrow> request \<Rightarrow> 'w hunt \<Rightarrow> (bool \<times> reply) \<times> 'w hunt" where
  "CheatMeta A req s =
     with_process A s (\<lambda>s.
       case get_meta A (hworld s) of
         None \<Rightarrow> (Fail ''ipc_failed'' ''GetCheatProcessMetadata failed'', s)
       | Some m \<Rightarrow>
           (success [(''process_id'', JInt (meta_pid m)), (''title_id'', JStr (fmt_016lx (meta_title m))),
              (''main_nso'', region_json (main_nso m)), (''heap'', region_json (meta_heap m)),
              (''alias'', region_json (meta_alias m)), (''address_space'', region_json (address_space m)),
              (''main_nso_build_id'', JStr (hex_bytes (build_id m)))], s))"

section \<open>Mappings\<close>

definition GetMappings :: "'w cheat_api \<Rightarrow> 'w \<Rightarrow> memory_info list option" where
  "GetMappings A w =
     (case mapping_count A w of
        None \<Rightarrow> None
      | Some count \<Rightarrow>
          if count = 0 \<or> unat count > 4096 then None
          else (case mappings A (unat count) w of
                  None \<Rightarrow> None
                | Some (mis, got) \<Rightarrow> Some (take (unat (if got < count then got else count)) mis)))"

definition ScannableRegion :: "nx_mem \<Rightarrow> memory_info \<Rightarrow> bool" where
  "ScannableRegion K mi =
     (let t = mi_type mi AND 0xFF
      in mi_perm mi AND Perm_R K \<noteq> 0 \<and> mi_perm mi AND Perm_W K \<noteq> 0 \<and>
         (t = MemType_Heap K \<or> t = MemType_Normal K \<or> t = MemType_CodeMutable K \<or>
          t = MemType_ModuleCodeMutable K))"

definition perm_text :: "nx_mem \<Rightarrow> u32 \<Rightarrow> string" where
  "perm_text K p =
     [if p AND Perm_R K \<noteq> 0 then CHR ''r'' else CHR ''-'',
      if p AND Perm_W K \<noteq> 0 then CHR ''w'' else CHR ''-'',
      if p AND Perm_X K \<noteq> 0 then CHR ''x'' else CHR ''-'']"

definition mapping_json :: "nx_mem \<Rightarrow> memory_info \<Rightarrow> json" where
  "mapping_json K mi =
     json_fields [(''addr'', JStr (fmt_0xlx (mi_addr mi))), (''size'', JStr (fmt_0xlx (mi_size mi))),
       (''perm'', JStr (perm_text K (mi_perm mi))), (''type'', JInt (ucast (mi_type mi AND 0xFF))),
       (''scannable'', JBool (ScannableRegion K mi))]"

record map_count =
  mc_shown :: nat
  mc_scannable :: nat
  mc_rw :: u64
  mc_list :: "json list"

definition count_mapping :: "nx_mem \<Rightarrow> nat \<Rightarrow> map_count \<Rightarrow> memory_info \<Rightarrow> map_count" where
  "count_mapping K limit c mi =
     (let c = (if ScannableRegion K mi
               then c\<lparr>mc_scannable := Suc (mc_scannable c), mc_rw := mc_rw c + mi_size mi\<rparr> else c)
      in if mc_shown c \<ge> limit then c
         else c\<lparr>mc_shown := Suc (mc_shown c), mc_list := mc_list c @ [mapping_json K mi]\<rparr>)"

definition CheatMappings :: "'w cheat_api \<Rightarrow> nx_mem \<Rightarrow> request \<Rightarrow> 'w hunt \<Rightarrow> (bool \<times> reply) \<times> 'w hunt" where
  "CheatMappings A K req s =
     with_process A s (\<lambda>s.
       case GetMappings A (hworld s) of
         None \<Rightarrow> (Fail ''ipc_failed'' ''GetCheatProcessMappings failed'', s)
       | Some maps \<Rightarrow>
           let c = foldl (count_mapping K (int_arg req ''limit'' 60 500))
                     \<lparr>mc_shown = 0, mc_scannable = 0, mc_rw = 0, mc_list = []\<rparr> maps
           in (success [(''total_mappings'', JInt (word_of_nat (length maps))),
                 (''scannable_mappings'', JInt (word_of_nat (mc_scannable c))),
                 (''scannable_bytes'', JInt (mc_rw c)), (''shown'', JInt (word_of_nat (mc_shown c))),
                 (''mappings'', JArr (mc_list c))], s))"

section \<open>The first scan\<close>

definition LoadValue :: "byte list \<Rightarrow> nat \<Rightarrow> u64" where
  "LoadValue p width = word_of_nat (le_val (take width p))"

text \<open>The inner loop over one chunk, from offset \<open>i\<close>: \<open>data\<close> is the chunk from there on. The flag
  says that the candidate table is full.\<close>

function scan_chunk ::
  "nat \<Rightarrow> u64 \<Rightarrow> u64 \<Rightarrow> nat \<Rightarrow> byte list \<Rightarrow> candidate list \<Rightarrow> candidate list \<times> bool" where
  "scan_chunk width want base i data cands =
     (if width = 0 \<or> length data < width then (cands, False)
      else if LoadValue data width = want then
        if length cands \<ge> kMaxCandidates then (cands, True)
        else scan_chunk width want base (i + width) (drop width data)
               (cands @ [\<lparr>cand_addr = base + word_of_nat i, cand_value = want\<rparr>])
      else scan_chunk width want base (i + width) (drop width data) cands)"
  by pat_completeness auto
termination
  by (relation "measure (\<lambda>(width, want, base, i, data, cands). length data)") auto

declare scan_chunk.simps [simp del]

record 'w scan =
  sc_world :: 'w
  sc_cands :: "candidate list"
  sc_truncated :: bool
  sc_budget_hit :: bool
  sc_scanned :: u64

text \<open>The loop over one region; \<^verbatim>\<open>off\<close> is a \<^verbatim>\<open>u64\<close> and wraps.\<close>

fun scan_region ::
  "'w cheat_api \<Rightarrow> nat \<Rightarrow> u64 \<Rightarrow> u64 \<Rightarrow> u64 \<Rightarrow> u64 \<Rightarrow> nat \<Rightarrow> u64 \<Rightarrow> 'w scan \<Rightarrow> 'w scan option" where
  "scan_region A width want budget base rsize 0 off sc = None"
| "scan_region A width want budget base rsize (Suc fuel) off sc =
     (if \<not> off < rsize then Some sc
      else if sc_scanned sc \<ge> budget then Some (sc\<lparr>sc_budget_hit := True\<rparr>)
      else
        let chunk = (if unat (rsize - off) < kScanChunk then unat (rsize - off) else kScanChunk);
            next = off + word_of_nat kScanChunk
        in case read_mem A (base + off) chunk (sc_world sc) of
             (None, w) \<Rightarrow> scan_region A width want budget base rsize fuel next (sc\<lparr>sc_world := w\<rparr>)
           | (Some bs, w) \<Rightarrow>
               let (cands, full) = scan_chunk width want (base + off) 0 (take chunk bs) (sc_cands sc);
                   sc = sc\<lparr>sc_world := w, sc_scanned := sc_scanned sc + word_of_nat chunk,
                           sc_cands := cands, sc_truncated := full\<rparr>
               in if full then Some sc
                  else scan_region A width want budget base rsize fuel next sc)"

fun scan_regions ::
  "'w cheat_api \<Rightarrow> nat \<Rightarrow> u64 \<Rightarrow> u64 \<Rightarrow> nat \<Rightarrow> (u64 \<times> u64) list \<Rightarrow> 'w scan \<Rightarrow> 'w scan option" where
  "scan_regions A width want budget fuel [] sc = Some sc"
| "scan_regions A width want budget fuel ((base, rsize) # rs) sc =
     (if sc_truncated sc \<or> sc_budget_hit sc then Some sc
      else case scan_region A width want budget base rsize fuel 0 sc of
             None \<Rightarrow> None
           | Some sc \<Rightarrow> scan_regions A width want budget fuel rs sc)"

definition in_extent :: "u64 \<Rightarrow> extents \<Rightarrow> bool" where
  "in_extent a e \<longleftrightarrow> a \<ge> ex_base e \<and> a < ex_base e + ex_size e"

definition wanted_region :: "nx_mem \<Rightarrow> cheat_meta \<Rightarrow> string \<Rightarrow> memory_info \<Rightarrow> bool" where
  "wanted_region K m want mi \<longleftrightarrow>
     ScannableRegion K mi \<and>
     (want = ''heap'' \<longrightarrow> in_extent (mi_addr mi) (meta_heap m)) \<and>
     (want = ''main'' \<longrightarrow> in_extent (mi_addr mi) (main_nso m))"

definition search_regions ::
  "'w cheat_api \<Rightarrow> nx_mem \<Rightarrow> request \<Rightarrow> cheat_meta \<Rightarrow> 'w \<Rightarrow> (bool \<times> reply) + (u64 \<times> u64) list" where
  "search_regions A K req m w =
     (if has (req_msg req) ''base'' \<and> has (req_msg req) ''size''
      then Inr [(as_int 0 (arg req ''base''), as_int 0 (arg req ''size''))]
      else case GetMappings A w of
             None \<Rightarrow> Inl (Fail ''ipc_failed'' ''GetCheatProcessMappings failed'')
           | Some maps \<Rightarrow>
               let regions = map (\<lambda>mi. (mi_addr mi, mi_size mi))
                               (filter (wanted_region K m (as_string [] (arg req ''region''))) maps)
               in if regions = [] then
                    Inl (Fail ''no_regions'' (''no readable+writable mappings matched; try region='' @
                      [CHR 0x22, CHR 0x22] @ '' to scan everything writable''))
                  else Inr regions)"

definition begin_reply :: "nat \<Rightarrow> nat \<Rightarrow> 'w scan \<Rightarrow> bool \<times> reply" where
  "begin_reply n_regions width sc =
     success ([(''regions_scanned'', JInt (word_of_nat n_regions))] @
       (if sc_budget_hit sc
        then [(''budget_exhausted'', JBool True),
              (''budget_note'', JStr ''stopped at max_bytes; raise it or narrow with region= if the address you want was not reached'')]
        else []) @
       [(''generation'', JInt 1),
        (''candidates'', JInt (word_of_nat (length (sc_cands sc)))),
        (''bytes_scanned'', JInt (sc_scanned sc)),
        (''width'', JInt (word_of_nat width))] @
       (if sc_truncated sc
        then [(''truncated'', JBool True),
              (''note'', JStr (''hit the candidate cap. Narrow with search.next, or pick a rarer starting value '' @ em_dash @
                '' a truncated set may not contain the address you want.''))]
        else []))"

definition SearchBegin ::
  "nat \<Rightarrow> 'w cheat_api \<Rightarrow> nx_mem \<Rightarrow> request \<Rightarrow> 'w hunt \<Rightarrow> ((bool \<times> reply) \<times> 'w hunt) option" where
  "SearchBegin fuel A K req s =
     (case EnsureCheatProcess A s of
        (Some e, s) \<Rightarrow> Some (e, s)
      | (None, s) \<Rightarrow>
          let wd = sint (to_i32 (as_int 4 (arg req ''width'')))
          in if wd \<noteq> 1 \<and> wd \<noteq> 2 \<and> wd \<noteq> 4 \<and> wd \<noteq> 8
             then Some (Fail ''bad_arg'' ''width must be 1, 2, 4 or 8'', s)
             else
               let width = nat wd; want = as_int 0 (arg req ''value'')
               in case get_meta A (hworld s) of
                    None \<Rightarrow> Some (Fail ''ipc_failed'' ''GetCheatProcessMetadata failed'', s)
                  | Some m \<Rightarrow>
                      (case search_regions A K req m (hworld s) of
                         Inl e \<Rightarrow> Some (e, s)
                       | Inr regions \<Rightarrow>
                           let budget = as_int (512 * 1024 * 1024) (arg req ''max_bytes'')
                           in case scan_regions A width want budget fuel regions
                                \<lparr>sc_world = hworld s, sc_cands = [], sc_truncated = False,
                                 sc_budget_hit = False, sc_scanned = 0\<rparr> of
                                None \<Rightarrow> None
                              | Some sc \<Rightarrow>
                                  Some (begin_reply (length regions) width sc,
                                    s\<lparr>hworld := sc_world sc, candidates := sc_cands sc, g_width := width,
                                       g_generation := 1\<rparr>)))"

section \<open>Narrowing\<close>

text \<open>The operators compare as unsigned values; \<open>None\<close> is an unknown one.\<close>

definition keep_op :: "string \<Rightarrow> u64 \<Rightarrow> u64 \<Rightarrow> u64 \<Rightarrow> bool option" where
  "keep_op op want old now =
     (if op = ''eq'' then Some (now = want)
      else if op = ''ne'' then Some (now \<noteq> want)
      else if op = ''gt'' then Some (now > want)
      else if op = ''lt'' then Some (now < want)
      else if op = ''changed'' then Some (now \<noteq> old)
      else if op = ''unchanged'' then Some (now = old)
      else if op = ''increased'' then Some (now > old)
      else if op = ''decreased'' then Some (now < old)
      else None)"

fun narrow ::
  "'w cheat_api \<Rightarrow> string \<Rightarrow> u64 \<Rightarrow> nat \<Rightarrow> candidate list \<Rightarrow> 'w \<Rightarrow> candidate list option \<times> 'w" where
  "narrow A op want width [] w = (Some [], w)"
| "narrow A op want width (c # cs) w =
     (case read_mem A (cand_addr c) width w of
        (None, w) \<Rightarrow> narrow A op want width cs w
      | (Some raw, w) \<Rightarrow>
          let now = LoadValue raw width
          in case keep_op op want (cand_value c) now of
               None \<Rightarrow> (None, w)
             | Some k \<Rightarrow>
                 (case narrow A op want width cs w of
                    (None, w) \<Rightarrow> (None, w)
                  | (Some kept, w) \<Rightarrow>
                      (Some (if k then \<lparr>cand_addr = cand_addr c, cand_value = now\<rparr> # kept else kept), w)))"

definition SearchNext :: "'w cheat_api \<Rightarrow> request \<Rightarrow> 'w hunt \<Rightarrow> (bool \<times> reply) \<times> 'w hunt" where
  "SearchNext A req s =
     with_process A s (\<lambda>s.
       if candidates s = [] then
         (Fail ''no_search'' ''no active search; call search.begin first (or the previous scan eliminated every candidate)'', s)
       else
         let op = as_string ''eq'' (arg req ''op''); want = as_int 0 (arg req ''value'')
         in if op \<in> {''eq'', ''ne'', ''gt'', ''lt''} \<and> \<not> has (req_msg req) ''value'' then
              (FailS ''bad_arg'' (op @ '' needs a '' @ quoted ''value''), s)
            else case narrow A op want (g_width s) (candidates s) (hworld s) of
                   (None, w) \<Rightarrow>
                     (Fail ''bad_arg'' ''op must be eq, ne, gt, lt, changed, unchanged, increased or decreased'',
                      s\<lparr>hworld := w\<rparr>)
                 | (Some kept, w) \<Rightarrow>
                     (success ([(''generation'', JInt (word_of_nat (Suc (g_generation s)))), (''op'', JStr op),
                         (''before'', JInt (word_of_nat (length (candidates s)))),
                         (''candidates'', JInt (word_of_nat (length kept)))] @
                        (if kept = [] then [(''note'', JStr (''every candidate was eliminated '' @ em_dash @
                            '' the value probably is not this width, or the observation was wrong. Start over.''))] else [])),
                      s\<lparr>hworld := w, candidates := kept, g_generation := Suc (g_generation s)\<rparr>))"

section \<open>Results and reset\<close>

definition cand_json :: "candidate \<Rightarrow> json" where
  "cand_json c = json_fields [(''addr'', JStr (fmt_0xlx (cand_addr c))), (''value'', JInt (cand_value c))]"

text \<open>The loop tests and counts in one: \<^verbatim>\<open>if (n++ >= limit) break\<close>.\<close>

fun show_loop :: "nat \<Rightarrow> nat \<Rightarrow> candidate list \<Rightarrow> json list \<Rightarrow> nat \<times> json list" where
  "show_loop limit n [] arr = (n, arr)"
| "show_loop limit n (c # cs) arr =
     (if n \<ge> limit then (Suc n, arr) else show_loop limit (Suc n) cs (arr @ [cand_json c]))"

definition SearchResults :: "request \<Rightarrow> 'w hunt \<Rightarrow> (bool \<times> reply) \<times> 'w hunt" where
  "SearchResults req s =
     (let (n, arr) = show_loop (int_arg req ''limit'' 50 1000) 0 (candidates s) []
      in (success [(''generation'', JInt (word_of_nat (g_generation s))),
            (''total'', JInt (word_of_nat (length (candidates s)))),
            (''width'', JInt (word_of_nat (g_width s))), (''shown'', JInt (word_of_nat n)),
            (''results'', JArr arr)], s))"

definition SearchReset :: "request \<Rightarrow> 'w hunt \<Rightarrow> (bool \<times> reply) \<times> 'w hunt" where
  "SearchReset req s =
     (success [(''ok'', JBool True)], s\<lparr>candidates := [], g_generation := 0\<rparr>)"

end
