(* ===== verification/MemSearchLaws.thy ===== *)
theory MemSearchLaws
  imports MemSearch FilesystemLaws
begin

text \<open>
  What the narrowing search guarantees: the table's bound, the first scan against a declarative
  specification, the narrowing step as a filter, and when the scan's loop ends.
\<close>

section \<open>The handler contract\<close>

lemma int_arg_bound: "dflt \<le> maximum \<Longrightarrow> int_arg req k dflt maximum \<le> maximum"
  by (simp add: int_arg_def Let_def nat_le_iff)

lemma Open_error: "Open A s = (Some e, s') \<Longrightarrow> keeps_contract e"
  by (auto simp: Open_def no_service_def split: if_splits)

lemma EnsureCheatProcess_error: "EnsureCheatProcess A s = (Some e, s') \<Longrightarrow> keeps_contract e"
  by (auto simp: EnsureCheatProcess_def Let_def dest: Open_error split: prod.splits option.splits if_splits)

lemma with_process_contract:
  "(\<And>s. keeps_contract (fst (k s))) \<Longrightarrow> keeps_contract (fst (with_process A s k))"
  by (auto simp: with_process_def dest: EnsureCheatProcess_error split: prod.split option.split)

interpretation cheat_read: command_handler "CheatReadMem A"
proof
  show "keeps_contract (fst (CheatReadMem A req s))" for req s
    unfolding CheatReadMem_def using int_arg_bound [of 256 "2 ^ 20" req "''len''"]
    by (intro with_process_contract)
       (auto simp: Let_def kMaxBinary_def min_def split: prod.split option.split intro!: success_contract)
qed

interpretation cheat_write: command_handler "CheatWriteMem A"
  by unfold_locales
     (auto simp: CheatWriteMem_def Let_def intro!: with_process_contract split: prod.split)

interpretation cheat_meta: command_handler "CheatMeta A"
  by unfold_locales (auto simp: CheatMeta_def intro!: with_process_contract split: option.split)

interpretation cheat_mappings: command_handler "CheatMappings A K"
  by unfold_locales (auto simp: CheatMappings_def Let_def intro!: with_process_contract split: option.split)

interpretation search_next: command_handler "SearchNext A"
  by unfold_locales
     (auto simp: SearchNext_def Let_def intro!: with_process_contract split: prod.split option.split)

interpretation search_results: command_handler SearchResults
  by unfold_locales (simp add: SearchResults_def split: prod.split)

interpretation search_reset: command_handler SearchReset
  by unfold_locales (simp add: SearchReset_def)

section \<open>One chunk\<close>

text \<open>The aligned positions of a chunk that hold the value.\<close>

definition chunk_hits :: "nat \<Rightarrow> u64 \<Rightarrow> u64 \<Rightarrow> byte list \<Rightarrow> candidate list" where
  "chunk_hits width want base bs =
     map (\<lambda>k. \<lparr>cand_addr = base + word_of_nat (k * width), cand_value = want\<rparr>)
       (filter (\<lambda>k. LoadValue (drop (k * width) bs) width = want) [0..<length bs div width])"

lemma upt_Suc_shift: "[0..<Suc n] = 0 # map Suc [0..<n]"
  by (simp add: map_Suc_upt upt_conv_Cons del: upt_Suc)

lemma chunk_hits_step:
  assumes "0 < width" "width \<le> length bs"
  shows "chunk_hits width want (base + word_of_nat i) bs =
    (if LoadValue bs width = want then [\<lparr>cand_addr = base + word_of_nat i, cand_value = want\<rparr>] else []) @
    chunk_hits width want (base + word_of_nat (i + width)) (drop width bs)"
proof -
  have "length bs div width = Suc (length (drop width bs) div width)"
    using assms by (simp add: le_div_geq)
  then show ?thesis
    by (simp add: chunk_hits_def upt_Suc_shift filter_map comp_def algebra_simps del: upt_Suc)
qed

lemma scan_chunk_spec:
  assumes "0 < width" "scan_chunk width want base i bs cands = (out, full)"
  shows "\<exists>hs rest. chunk_hits width want (base + word_of_nat i) bs = hs @ rest \<and> out = cands @ hs \<and>
    (full \<longleftrightarrow> rest \<noteq> []) \<and> (length cands \<le> kMaxCandidates \<longrightarrow> length out \<le> kMaxCandidates) \<and>
    (full \<longrightarrow> kMaxCandidates \<le> length out)"
  using assms
proof (induction width want base i bs cands arbitrary: out full rule: scan_chunk.induct)
  case (1 width want base i bs cands)
  show ?case
  proof (cases "length bs < width")
    case True
    then have "chunk_hits width want (base + word_of_nat i) bs = []" by (simp add: chunk_hits_def)
    then show ?thesis using 1 True by (subst (asm) (3) scan_chunk.simps) auto
  next
    case long: False
    then have go: "\<not> (width = 0 \<or> length bs < width)" using 1 by simp
    have step: "chunk_hits width want (base + word_of_nat i) bs =
      (if LoadValue bs width = want then [\<lparr>cand_addr = base + word_of_nat i, cand_value = want\<rparr>] else []) @
      chunk_hits width want (base + word_of_nat (i + width)) (drop width bs)"
      using 1 long by (intro chunk_hits_step) simp_all
    show ?thesis
    proof (cases "LoadValue bs width = want")
      case hit: True
      show ?thesis
      proof (cases "kMaxCandidates \<le> length cands")
        case True
        then have "out = cands" "full"
          using "1.prems" go hit by (simp_all add: scan_chunk.simps [of width want base i bs cands])
        then show ?thesis using step hit True
          by (intro exI [of _ "[]"] exI [of _ "chunk_hits width want (base + word_of_nat i) bs"]) simp
      next
        case False
        let ?c = "\<lparr>cand_addr = base + word_of_nat i, cand_value = want\<rparr>"
        have "scan_chunk width want base (i + width) (drop width bs) (cands @ [?c]) = (out, full)"
          using "1.prems" go hit False by (simp add: scan_chunk.simps [of width want base i bs cands])
        from "1.IH"(1) [OF go hit False _ this] obtain hs rest where
          "chunk_hits width want (base + word_of_nat (i + width)) (drop width bs) = hs @ rest"
          "out = (cands @ [?c]) @ hs" "full \<longleftrightarrow> rest \<noteq> []"
          "length (cands @ [?c]) \<le> kMaxCandidates \<longrightarrow> length out \<le> kMaxCandidates"
          "full \<longrightarrow> kMaxCandidates \<le> length out"
          using "1.prems"(1) by blast
        then show ?thesis using step hit False
          by (intro exI [of _ "?c # hs"] exI [of _ rest]) auto
      qed
    next
      case False
      then have "scan_chunk width want base (i + width) (drop width bs) cands = (out, full)"
        using "1.prems" go by (simp add: scan_chunk.simps [of width want base i bs cands])
      from "1.IH"(2) [OF go False _ this] show ?thesis using step False "1.prems"(1) by simp
    qed
  qed
qed

lemma LoadValue_bound: "unat (LoadValue p width) < 256 ^ width"
proof -
  have "le_val (take width p) < 256 ^ length (take width p)" by (rule le_val_bound)
  also have "\<dots> \<le> 256 ^ width" by (rule power_increasing) simp_all
  finally have "le_val (take width p) < 256 ^ width" .
  moreover have "unat (word_of_nat n :: u64) \<le> n" for n by (simp add: unat_of_nat take_bit_nat_less_eq_self)
  ultimately show ?thesis unfolding LoadValue_def using order_le_less_trans by blast
qed

section \<open>The loop over a region\<close>

abbreviation chunk_len :: "u64 \<Rightarrow> u64 \<Rightarrow> nat" where
  "chunk_len rsize off \<equiv>
     (if unat (rsize - off) < kScanChunk then unat (rsize - off) else kScanChunk)"

lemma chunk_nat: "kScanChunk = 65536" "word_of_nat kScanChunk = (65536 :: u64)"
  by (simp_all add: kScanChunk_def)

lemma next_off:
  assumes "off < rsize" "unat rsize \<le> 2 ^ 64 - 65536"
  shows "unat (off + 65536 :: u64) = unat off + 65536" "unat (rsize - off) = unat rsize - unat off"
proof -
  have "unat off < unat rsize" using assms(1) by (simp add: word_less_nat_alt)
  then have "unat off + 65536 < 2 ^ 64" using assms(2) by simp
  then show "unat (off + 65536) = unat off + 65536" by (simp add: unat_word_ariths)
  show "unat (rsize - off) = unat rsize - unat off" using assms(1) by (simp add: unat_sub order_less_imp_le)
qed

text \<open>Enough fuel: one unit for every chunk and one for the end.\<close>

lemma scan_region_returns:
  assumes "unat rsize \<le> 2 ^ 64 - 65536" "unat rsize \<le> unat off + 65536 * fuel"
  shows "\<exists>sc'. scan_region A width want budget base rsize (Suc fuel) off sc = Some sc'"
  using assms(2)
proof (induction fuel arbitrary: off sc)
  case 0
  then have "\<not> off < rsize" by (simp add: word_less_nat_alt)
  then show ?case by simp
next
  case (Suc fuel)
  show ?case
  proof (cases "off < rsize \<and> \<not> sc_scanned sc \<ge> budget")
    case True
    then have "unat rsize \<le> unat (off + 65536) + 65536 * fuel"
      using next_off(1) [OF _ assms(1)] Suc.prems by simp
    note IH = Suc.IH [OF this]
    show ?thesis
      using True IH
      by (subst scan_region.simps)
         (auto simp: chunk_nat Let_def simp del: scan_region.simps split: prod.split option.split)
  next
    case False
    then show ?thesis by auto
  qed
qed

text \<open>
  Where every read fails, neither the budget nor the truncation ends the loop, and an offset that
  wraps before it reaches the size starts over.
\<close>

lemma scan_region_hangs:
  assumes "\<And>a n w. fst (read_mem A a n w) = None" "2 ^ 64 - 65536 < unat rsize"
    and "sc_scanned sc < budget" "65536 dvd unat off"
  shows "scan_region A width want budget base rsize fuel off sc = None"
  using assms(3,4)
proof (induction fuel arbitrary: off sc)
  case (Suc fuel)
  have "unat off < 2 ^ 64" using unsigned_less [of off, where 'a = nat] by simp
  obtain k where k: "unat off = 65536 * k" using Suc.prems(2) by blast
  with \<open>unat off < 2 ^ 64\<close> have "k < 2 ^ 48" by simp
  then have "unat off \<le> 2 ^ 64 - 65536" using k by simp
  then have lt: "off < rsize" using assms(2) by (simp add: word_less_nat_alt)
  have "unat (off + 65536) = (unat off + 65536) mod 2 ^ 64" by (simp add: unat_word_ariths)
  moreover have "65536 dvd (unat off + 65536) mod 2 ^ 64"
    using Suc.prems(2) by (simp add: dvd_mod)
  ultimately have "65536 dvd unat (off + 65536)" by simp
  moreover obtain w where "read_mem A (base + off) (chunk_len rsize off) (sc_world sc) = (None, w)"
    using assms(1) by (metis prod.collapse)
  ultimately show ?case
    using Suc.IH [of "sc\<lparr>sc_world := w\<rparr>" "off + 65536"] Suc.prems(1) lt
    by (simp add: chunk_nat(2) Let_def not_le)
qed simp

section \<open>The scan against its specification\<close>

text \<open>A target that stands still while it is read.\<close>

definition frozen :: "'w cheat_api \<Rightarrow> bool" where
  "frozen A \<longleftrightarrow> (\<forall>a n w. snd (read_mem A a n w) = w)"

text \<open>The chunks of a region, by number, and every aligned position in them that holds the value.\<close>

definition nth_chunk_hits :: "'w cheat_api \<Rightarrow> 'w \<Rightarrow> nat \<Rightarrow> u64 \<Rightarrow> u64 \<Rightarrow> nat \<Rightarrow> nat \<Rightarrow> candidate list" where
  "nth_chunk_hits A w width want base rsize k =
     (let addr = base + word_of_nat (k * 65536); n = min 65536 (rsize - k * 65536)
      in case fst (read_mem A addr n w) of
           None \<Rightarrow> []
         | Some bs \<Rightarrow> chunk_hits width want addr (take n bs))"

definition region_hits :: "'w cheat_api \<Rightarrow> 'w \<Rightarrow> nat \<Rightarrow> u64 \<Rightarrow> u64 \<times> u64 \<Rightarrow> candidate list" where
  "region_hits A w width want r =
     concat (map (nth_chunk_hits A w width want (fst r) (unat (snd r)))
       [0..<(unat (snd r) + 65535) div 65536])"

lemma scan_region_complete:
  assumes "frozen A" "0 < width" "unat rsize \<le> 2 ^ 64 - 65536"
    and "unat off = k * 65536" "scan_region A width want budget base rsize fuel off sc = Some sc'"
    and "\<not> sc_truncated sc'" "\<not> sc_budget_hit sc'"
  shows "sc_world sc' = sc_world sc \<and> sc_cands sc' = sc_cands sc @
    concat (map (nth_chunk_hits A (sc_world sc) width want base (unat rsize))
      [k..<(unat rsize + 65535) div 65536])"
  using assms(4-)
proof (induction fuel arbitrary: off k sc)
  case (Suc fuel)
  have off: "off = word_of_nat (k * 65536)" using Suc.prems(1) by (simp flip: Suc.prems(1))
  show ?case
  proof (cases "off < rsize")
    case False
    then have "(unat rsize + 65535) div 65536 \<le> k"
      using Suc.prems(1) by (simp add: word_less_nat_alt)
    then show ?thesis using Suc.prems False by simp
  next
    case True
    note lt = True
    have b: "\<not> sc_scanned sc \<ge> budget" using Suc.prems lt by auto
    have k: "k < (unat rsize + 65535) div 65536"
      using lt Suc.prems(1) by (simp add: word_less_nat_alt)
    note up = upt_conv_Cons [OF k]
    have nx: "unat (off + 65536) = Suc k * 65536" using next_off(1) [OF lt assms(3)] Suc.prems(1) by simp
    let ?n = "chunk_len rsize off"
    have n: "?n = min 65536 (unat rsize - k * 65536)"
      using next_off(2) [OF lt assms(3)] Suc.prems(1) by (simp add: kScanChunk_def)
    have fr: "snd (read_mem A a m w) = w" for a m w using assms(1) by (simp add: frozen_def)
    obtain r where r: "read_mem A (base + off) ?n (sc_world sc) = (r, sc_world sc)"
      using fr by (metis prod.collapse)
    show ?thesis
    proof (cases r)
      case None
      then have "nth_chunk_hits A (sc_world sc) width want base (unat rsize) k = []"
        using r n off by (simp add: nth_chunk_hits_def Let_def)
      then show ?thesis
        using Suc.IH [OF nx, of sc] Suc.prems lt b r None up by (simp add: Let_def chunk_nat(2))
    next
      case (Some bs)
      obtain out full where c: "scan_chunk width want (base + off) 0 (take ?n bs) (sc_cands sc) = (out, full)"
        by fastforce
      have nf: "\<not> full" using Suc.prems lt b r Some c by (auto simp: Let_def split: if_splits)
      then have "out = sc_cands sc @ chunk_hits width want (base + off) (take ?n bs)"
        using scan_chunk_spec [OF assms(2) c] by auto
      moreover have "nth_chunk_hits A (sc_world sc) width want base (unat rsize) k =
          chunk_hits width want (base + off) (take ?n bs)"
        using r n off Some by (simp add: nth_chunk_hits_def Let_def)
      ultimately show ?thesis
        using Suc.IH [OF nx, of "sc\<lparr>sc_world := sc_world sc,
            sc_scanned := sc_scanned sc + word_of_nat ?n, sc_cands := out, sc_truncated := full\<rparr>"]
          Suc.prems lt b r Some c nf up by (simp add: Let_def chunk_nat(2))
    qed
  qed
qed simp

section \<open>Enough fuel\<close>

lemma scan_region_mono:
  "scan_region A width want budget base rsize fuel off sc = Some x \<Longrightarrow>
   scan_region A width want budget base rsize (fuel + d) off sc = Some x"
proof (induction fuel arbitrary: off sc)
  case (Suc fuel)
  show ?case
  proof (cases "off < rsize \<and> \<not> sc_scanned sc \<ge> budget")
    case False
    then show ?thesis using Suc.prems by (auto split: if_splits)
  next
    case True
    then show ?thesis using Suc.prems Suc.IH
      by (auto simp: Let_def split: prod.splits option.splits if_splits)
  qed
qed simp

abbreviation small_region :: "u64 \<times> u64 \<Rightarrow> bool" where
  "small_region r \<equiv> unat (snd r) \<le> 2 ^ 64 - 65536"

definition scan_fuel :: nat where "scan_fuel = 2 ^ 48"

lemma scan_region_enough:
  assumes "unat rsize \<le> 2 ^ 64 - 65536"
  shows "\<exists>x. \<forall>d. scan_region A width want budget base rsize (scan_fuel + d) 0 sc = Some x"
proof -
  have "unat rsize \<le> unat (0 :: u64) + 65536 * (2 ^ 48 - 1)" using assms by simp
  then obtain x where "scan_region A width want budget base rsize (Suc (2 ^ 48 - 1)) 0 sc = Some x"
    using scan_region_returns [OF assms] by blast
  then have "scan_region A width want budget base rsize scan_fuel 0 sc = Some x"
    by (simp add: scan_fuel_def)
  then show ?thesis using scan_region_mono by blast
qed

lemma scan_regions_enough:
  assumes "list_all small_region rs"
  shows "\<exists>x. \<forall>d. scan_regions A width want budget (scan_fuel + d) rs sc = Some x"
  using assms
proof (induction rs arbitrary: sc)
  case (Cons r rs)
  obtain base rsize where r: "r = (base, rsize)" by (cases r)
  show ?case
  proof (cases "sc_truncated sc \<or> sc_budget_hit sc")
    case False
    obtain x where x: "\<And>d. scan_region A width want budget base rsize (scan_fuel + d) 0 sc = Some x"
      using scan_region_enough [of rsize A width want budget base sc] Cons.prems r by auto
    obtain y where "\<And>d. scan_regions A width want budget (scan_fuel + d) rs x = Some y"
      using Cons.IH [of x] Cons.prems by auto
    then show ?thesis using x r False by (intro exI [of _ y]) simp
  qed (simp add: r)
qed simp

section \<open>The handlers\<close>

lemma Open_keeps: "Open A s = (e, s') \<Longrightarrow> candidates s' = candidates s \<and> g_width s' = g_width s"
  by (auto simp: Open_def split: if_splits)

lemma EnsureCheatProcess_keeps:
  "EnsureCheatProcess A s = (e, s') \<Longrightarrow> candidates s' = candidates s \<and> g_width s' = g_width s"
  by (auto simp: EnsureCheatProcess_def Let_def dest: Open_keeps split: prod.splits option.splits if_splits)

text \<open>What a request that reaches its first scan has settled.\<close>

abbreviation scan_start :: "'w \<Rightarrow> 'w scan" where
  "scan_start w \<equiv> \<lparr>sc_world = w, sc_cands = [], sc_truncated = False, sc_budget_hit = False, sc_scanned = 0\<rparr>"

abbreviation width_arg :: "request \<Rightarrow> int" where
  "width_arg req \<equiv> sint (to_i32 (as_int 4 (arg req ''width'')))"

abbreviation value_arg :: "request \<Rightarrow> u64" where
  "value_arg req \<equiv> as_int 0 (arg req ''value'')"

abbreviation budget_arg :: "request \<Rightarrow> u64" where
  "budget_arg req \<equiv> as_int (512 * 1024 * 1024) (arg req ''max_bytes'')"

definition scan_setup :: "'w cheat_api \<Rightarrow> nx_mem \<Rightarrow> request \<Rightarrow> 'w hunt \<Rightarrow> 'w hunt \<Rightarrow> (u64 \<times> u64) list \<Rightarrow> bool" where
  "scan_setup A K req s s0 regions \<longleftrightarrow>
     EnsureCheatProcess A s = (None, s0) \<and> width_arg req \<in> {1, 2, 4, 8} \<and>
     (\<exists>m. get_meta A (hworld s0) = Some m \<and> search_regions A K req m (hworld s0) = Inr regions)"

lemma SearchBegin_scans:
  assumes "scan_setup A K req s s0 regions"
  shows "SearchBegin fuel A K req s =
    map_option (\<lambda>sc. (begin_reply (length regions) (nat (width_arg req)) sc,
        s0\<lparr>hworld := sc_world sc, candidates := sc_cands sc, g_width := nat (width_arg req), g_generation := 1\<rparr>))
      (scan_regions A (nat (width_arg req)) (value_arg req) (budget_arg req) fuel regions (scan_start (hworld s0)))"
proof -
  obtain m where m: "get_meta A (hworld s0) = Some m" "search_regions A K req m (hworld s0) = Inr regions"
    using assms by (auto simp: scan_setup_def)
  have e: "EnsureCheatProcess A s = (None, s0)"
    and w: "\<not> (width_arg req \<noteq> 1 \<and> width_arg req \<noteq> 2 \<and> width_arg req \<noteq> 4 \<and> width_arg req \<noteq> 8)"
    using assms unfolding scan_setup_def by blast+
  show ?thesis
    unfolding SearchBegin_def Let_def e m prod.case option.case sum.case if_not_P [OF w]
    by (simp split: option.split)
qed

lemma search_regions_error: "search_regions A K req m w = Inl e \<Longrightarrow> keeps_contract e"
proof -
  have "case search_regions A K req m w of Inl e \<Rightarrow> keeps_contract e | Inr _ \<Rightarrow> True"
    by (simp add: search_regions_def Let_def split: option.split)
  then show "search_regions A K req m w = Inl e \<Longrightarrow> keeps_contract e" by simp
qed

lemma SearchBegin_refuses:
  assumes "\<nexists>s0 regions. scan_setup A K req s s0 regions"
  shows "SearchBegin fuel A K req s \<noteq> None"
    and "keeps_contract (fst (the (SearchBegin fuel A K req s)))"
    and "snd (the (SearchBegin fuel A K req s)) = snd (EnsureCheatProcess A s)"
proof -
  obtain e s0 where Pair: "EnsureCheatProcess A s = (e, s0)" by fastforce
  have "SearchBegin fuel A K req s \<noteq> None \<and>
    keeps_contract (fst (the (SearchBegin fuel A K req s))) \<and>
    snd (the (SearchBegin fuel A K req s)) = snd (EnsureCheatProcess A s)"
  proof (cases e)
    case (Some x)
    then show ?thesis using Pair EnsureCheatProcess_error [of A s x s0] by (simp add: SearchBegin_def)
  next
    case None
    show ?thesis
    proof (cases "width_arg req \<in> {1, 2, 4, 8}")
      case False
      then show ?thesis using Pair None by (simp add: SearchBegin_def Let_def)
    next
      case w: True
      then have *: "\<not> (width_arg req \<noteq> 1 \<and> width_arg req \<noteq> 2 \<and> width_arg req \<noteq> 4 \<and> width_arg req \<noteq> 8)"
        by blast
      have "\<nexists>m regions. get_meta A (hworld s0) = Some m \<and> search_regions A K req m (hworld s0) = Inr regions"
        using assms w Pair None unfolding scan_setup_def by blast
      then show ?thesis
        unfolding SearchBegin_def Let_def Pair None prod.case option.case if_not_P [OF *]
        by (cases "get_meta A (hworld s0)"; cases "search_regions A K req (the (get_meta A (hworld s0))) (hworld s0)")
          (auto dest: search_regions_error)
    qed
  qed
  then show "SearchBegin fuel A K req s \<noteq> None"
    "keeps_contract (fst (the (SearchBegin fuel A K req s)))"
    "snd (the (SearchBegin fuel A K req s)) = snd (EnsureCheatProcess A s)" by blast+
qed

lemma SearchBegin_refuses_same:
  assumes "\<nexists>s0 regions. scan_setup A K req s s0 regions"
  shows "SearchBegin fuel A K req s = SearchBegin fuel' A K req s"
proof -
  obtain e s0 where es: "EnsureCheatProcess A s = (e, s0)" by fastforce
  show ?thesis
  proof (cases "e = None \<and> width_arg req \<in> {1, 2, 4, 8}")
    case True
    then have w: "\<not> (width_arg req \<noteq> 1 \<and> width_arg req \<noteq> 2 \<and> width_arg req \<noteq> 4 \<and> width_arg req \<noteq> 8)"
      by blast
    have "\<nexists>m regions. get_meta A (hworld s0) = Some m \<and> search_regions A K req m (hworld s0) = Inr regions"
      using assms True es unfolding scan_setup_def by blast
    then show ?thesis
      using True unfolding SearchBegin_def Let_def es prod.case if_not_P [OF w]
      by (auto split: option.split sum.split)
  next
    case False
    then show ?thesis using es by (auto simp: SearchBegin_def Let_def split: option.split)
  qed
qed

lemma begin_reply_flags:
  "fst (begin_reply n width sc)"
  "has (reply_json (snd (begin_reply n width sc))) ''truncated'' \<longleftrightarrow> sc_truncated sc"
  "has (reply_json (snd (begin_reply n width sc))) ''budget_exhausted'' \<longleftrightarrow> sc_budget_hit sc"
  "keeps_contract (begin_reply n width sc)"
  by (simp_all add: begin_reply_def)
    (simp_all add: success_def success_out_def)

section \<open>The candidate table\<close>

definition cands_ok :: "nat \<Rightarrow> candidate list \<Rightarrow> bool" where
  "cands_ok width cs \<longleftrightarrow>
     length cs \<le> kMaxCandidates \<and> list_all (\<lambda>c. unat (cand_value c) < 256 ^ width) cs"

definition hunt_ok :: "'w hunt \<Rightarrow> bool" where
  "hunt_ok s \<longleftrightarrow> g_width s \<in> {1, 2, 4, 8} \<and> cands_ok (g_width s) (candidates s)"

text \<open>All that a first scan collects has the value it looks for.\<close>

definition found_ok :: "nat \<Rightarrow> u64 \<Rightarrow> candidate list \<Rightarrow> bool" where
  "found_ok width want cs \<longleftrightarrow> length cs \<le> kMaxCandidates \<and>
     list_all (\<lambda>c. cand_value c = want \<and> unat want < 256 ^ width) cs"

lemma chunk_hits_values:
  "c \<in> set (chunk_hits width want base bs) \<Longrightarrow> cand_value c = want \<and> unat want < 256 ^ width"
  using LoadValue_bound by (fastforce simp: chunk_hits_def)

lemma scan_chunk_ok:
  assumes "0 < width" "scan_chunk width want base 0 bs cands = (out, full)" "found_ok width want cands"
  shows "found_ok width want out"
  using scan_chunk_spec [OF assms(1,2)] assms(3) chunk_hits_values [of _ width want "base + word_of_nat 0" bs]
  by (fastforce simp: found_ok_def list_all_iff)

lemma scan_region_ok:
  assumes "0 < width" "scan_region A width want budget base rsize fuel off sc = Some sc'"
    and "found_ok width want (sc_cands sc)"
  shows "found_ok width want (sc_cands sc')"
  using assms(2,3)
proof (induction fuel arbitrary: off sc)
  case (Suc fuel)
  show ?case
    using Suc.prems Suc.IH scan_chunk_ok [OF assms(1)]
    by (auto simp: Let_def split: if_splits prod.splits option.splits)
qed simp

lemma scan_regions_ok:
  assumes "0 < width" "scan_regions A width want budget fuel rs sc = Some sc'"
    and "found_ok width want (sc_cands sc)"
  shows "found_ok width want (sc_cands sc')"
  using assms(2,3)
  by (induction rs arbitrary: sc)
     (fastforce split: if_splits option.splits dest: scan_region_ok [OF assms(1)])+

lemma first_scan_found_ok:
  assumes "scan_setup A K req s s0 regions" "SearchBegin fuel A K req s = Some (r, s')"
  shows "found_ok (nat (width_arg req)) (value_arg req) (candidates s')"
    and "g_width s' = nat (width_arg req)" "nat (width_arg req) \<in> {1, 2, 4, 8}"
proof -
  show w: "nat (width_arg req) \<in> {1, 2, 4, 8}" using assms(1) by (auto simp: scan_setup_def)
  then have "0 < nat (width_arg req)" by auto
  from scan_regions_ok [OF this] show "found_ok (nat (width_arg req)) (value_arg req) (candidates s')"
    using assms(2) unfolding SearchBegin_scans [OF assms(1)] by (fastforce simp: found_ok_def)
  show "g_width s' = nat (width_arg req)"
    using assms(2) unfolding SearchBegin_scans [OF assms(1)] by auto
qed

lemma narrow_ok:
  assumes "narrow A op want width cs w = (Some kept, w')"
  shows "length kept \<le> length cs \<and> list_all (\<lambda>c. unat (cand_value c) < 256 ^ width) kept"
  using assms LoadValue_bound
  by (induction cs arbitrary: w kept)
     (fastforce simp: Let_def split: prod.splits option.splits if_splits)+

lemma with_process_keeps:
  assumes "\<And>s. P s \<Longrightarrow> P (snd (k s))" "P s"
    and "\<And>s w g. P (s\<lparr>hworld := w\<rparr>) = P s" "\<And>s w g. P (s\<lparr>g_open := g\<rparr>) = P s"
  shows "P (snd (with_process A s k))"
proof -
  have "P s1" if "Open A s = (e, s1)" for e s1
    using that assms by (auto simp: Open_def split: if_splits)
  then have "P s1" if "EnsureCheatProcess A s = (e, s1)" for e s1
    using that assms(3) by (auto simp: EnsureCheatProcess_def Let_def split: prod.splits option.splits if_splits)
  then show ?thesis using assms(1) by (auto simp: with_process_def split: prod.split option.split)
qed

lemma hunt_ok_world: "hunt_ok (s\<lparr>hworld := w\<rparr>) = hunt_ok s" "hunt_ok (s\<lparr>g_open := g\<rparr>) = hunt_ok s"
  by (simp_all add: hunt_ok_def)

lemma hunt_ok_start: "hunt_ok (hunt_start w)"
  by (simp add: hunt_ok_def hunt_start_def cands_ok_def)

lemma narrow_hunt_ok:
  assumes "narrow A op want (g_width s) (candidates s) w = (Some kept, w')" "hunt_ok s"
  shows "hunt_ok (s\<lparr>hworld := v, candidates := kept, g_generation := g\<rparr>)"
  using narrow_ok [OF assms(1)] assms(2) by (simp add: hunt_ok_def cands_ok_def)

lemma handlers_keep_hunt_ok:
  assumes "hunt_ok s"
  shows "hunt_ok (snd (CheatReadMem A req s))" "hunt_ok (snd (CheatWriteMem A req s))"
    "hunt_ok (snd (CheatMeta A req s))" "hunt_ok (snd (CheatMappings A K req s))"
    "hunt_ok (snd (SearchNext A req s))" "hunt_ok (snd (SearchResults req s))" "hunt_ok (snd (SearchReset req s))"
proof -
  note wp = with_process_keeps [of hunt_ok, OF _ assms hunt_ok_world]
  show "hunt_ok (snd (CheatReadMem A req s))"
    unfolding CheatReadMem_def by (rule wp) (simp add: Let_def hunt_ok_world split: prod.split option.split)
  show "hunt_ok (snd (CheatWriteMem A req s))"
    unfolding CheatWriteMem_def by (rule wp) (simp add: Let_def hunt_ok_world split: prod.split)
  show "hunt_ok (snd (CheatMeta A req s))"
    unfolding CheatMeta_def by (rule wp) (simp split: option.split)
  show "hunt_ok (snd (CheatMappings A K req s))"
    unfolding CheatMappings_def by (rule wp) (simp add: Let_def split: option.split)
  show "hunt_ok (snd (SearchNext A req s))"
    unfolding SearchNext_def
    by (rule wp) (auto simp: Let_def hunt_ok_world dest: narrow_hunt_ok split: prod.split option.split)
  show "hunt_ok (snd (SearchResults req s))" "hunt_ok (snd (SearchReset req s))"
    using assms by (simp_all add: SearchResults_def SearchReset_def hunt_ok_def cands_ok_def split: prod.split)
qed

lemma SearchBegin_keeps_hunt_ok:
  assumes "hunt_ok s" "SearchBegin fuel A K req s = Some (r, s')"
  shows "hunt_ok s'"
proof (cases "\<exists>s0 regions. scan_setup A K req s s0 regions")
  case True
  then obtain s0 regions where st: "scan_setup A K req s s0 regions" by blast
  then show ?thesis using first_scan_found_ok [OF st assms(2)]
    by (auto simp: hunt_ok_def cands_ok_def found_ok_def list_all_iff)
next
  case False
  then have "s' = snd (EnsureCheatProcess A s)"
    using SearchBegin_refuses(3) [of A K req s fuel] assms(2) by simp
  moreover have "hunt_ok (snd (EnsureCheatProcess A s))"
    using EnsureCheatProcess_keeps [of A s] assms(1) by (cases "EnsureCheatProcess A s") (simp add: hunt_ok_def)
  ultimately show ?thesis by simp
qed

section \<open>Narrowing and the whole first scan\<close>

text \<open>What one observation makes of a candidate.\<close>

definition survive :: "'w cheat_api \<Rightarrow> 'w \<Rightarrow> string \<Rightarrow> u64 \<Rightarrow> nat \<Rightarrow> candidate \<Rightarrow> candidate option" where
  "survive A w op want width c =
     (case fst (read_mem A (cand_addr c) width w) of
        None \<Rightarrow> None
      | Some raw \<Rightarrow>
          if keep_op op want (cand_value c) (LoadValue raw width) = Some True
          then Some (c\<lparr>cand_value := LoadValue raw width\<rparr>) else None)"

abbreviation search_ops :: "string list" where
  "search_ops \<equiv> [''eq'', ''ne'', ''gt'', ''lt'', ''changed'', ''unchanged'', ''increased'', ''decreased'']"

lemma keep_op_known: "op \<in> set search_ops \<Longrightarrow> \<exists>k. keep_op op want old now = Some k"
  by (auto simp: keep_op_def)

lemma narrow_frozen:
  assumes "frozen A" "op \<in> set search_ops"
  shows "narrow A op want width cs w = (Some (List.map_filter (survive A w op want width) cs), w)"
proof (induction cs)
  case (Cons c cs)
  obtain r where r: "read_mem A (cand_addr c) width w = (r, w)"
    using assms(1) by (metis frozen_def prod.collapse)
  show ?case
  proof (cases r)
    case None
    then show ?thesis using Cons r by (simp add: survive_def List.map_filter_simps)
  next
    case (Some raw)
    then show ?thesis
      using Cons r keep_op_known [OF assms(2), of want "cand_value c" "LoadValue raw width"]
      by (auto simp: survive_def List.map_filter_simps Let_def)
  qed
qed (simp add: List.map_filter_simps)

lemma scan_regions_stops:
  "scan_regions A width want budget fuel rs sc = Some sc' \<Longrightarrow>
   sc_truncated sc \<or> sc_budget_hit sc \<Longrightarrow> sc' = sc"
  by (cases rs) auto

lemma scan_regions_complete:
  assumes "frozen A" "0 < width" "list_all small_region rs"
    and "scan_regions A width want budget fuel rs sc = Some sc'"
    and "\<not> sc_truncated sc'" "\<not> sc_budget_hit sc'"
  shows "sc_world sc' = sc_world sc \<and>
    sc_cands sc' = sc_cands sc @ concat (map (region_hits A (sc_world sc) width want) rs)"
  using assms(3-)
proof (induction rs arbitrary: sc)
  case (Cons r rs)
  obtain base rsize where r: "r = (base, rsize)" by (cases r)
  have go: "\<not> (sc_truncated sc \<or> sc_budget_hit sc)"
    using scan_regions_stops [OF Cons.prems(2)] Cons.prems(3,4) by auto
  obtain sc1 where sc1: "scan_region A width want budget base rsize fuel 0 sc = Some sc1"
    "scan_regions A width want budget fuel rs sc1 = Some sc'"
    using Cons.prems(2) go r by (auto split: option.splits)
  have go1: "\<not> sc_truncated sc1" "\<not> sc_budget_hit sc1"
    using scan_regions_stops [OF sc1(2)] Cons.prems(3,4) by auto
  have "unat rsize \<le> 2 ^ 64 - 65536" using Cons.prems(1) r by simp
  from scan_region_complete [OF assms(1,2) this, of 0 0, OF _ sc1(1) go1]
  show ?case using Cons.IH [OF _ sc1(2) Cons.prems(3,4)] Cons.prems(1)
    by (simp add: region_hits_def r)
qed simp

lemma show_loop_spec:
  "n \<le> limit \<Longrightarrow> show_loop limit n cs arr =
     (min (n + length cs) (Suc limit), arr @ map cand_json (take (limit - n) cs))"
proof (induction cs arbitrary: n arr)
  case (Cons c cs)
  show ?case
  proof (cases "limit \<le> n")
    case False
    then have "limit - n = Suc (limit - Suc n)" by simp
    then show ?thesis using Cons.IH [of "Suc n"] False by simp
  qed (use Cons.prems in simp)
qed simp

section \<open>Properties\<close>

text \<open>A target for the instances: memory that stands still, behind a running cheat service.\<close>

definition still_api :: "(u64 \<Rightarrow> nat \<Rightarrow> byte list option) \<Rightarrow> unit cheat_api" where
  "still_api f =
     \<lparr>get_service = (\<lambda>_. True), has_process = (\<lambda>_. Some 1), app_pid = (\<lambda>_. None),
      force_open = (\<lambda>_ w. (False, w)), read_mem = (\<lambda>a n w. (f a n, w)), write_mem = (\<lambda>_ _ w. (False, w)),
      get_meta = (\<lambda>_. Some \<lparr>meta_pid = 1, meta_title = 2, main_nso = \<lparr>ex_base = 0, ex_size = 0\<rparr>,
        meta_heap = \<lparr>ex_base = 0, ex_size = 0\<rparr>, meta_alias = \<lparr>ex_base = 0, ex_size = 0\<rparr>,
        address_space = \<lparr>ex_base = 0, ex_size = 0\<rparr>, build_id = []\<rparr>),
      mapping_count = (\<lambda>_. None), mappings = (\<lambda>_ _. None)\<rparr>"

definition search_request :: "(string \<times> json) list \<Rightarrow> request" where
  "search_request kvs = \<lparr>req_msg = json_fields kvs, req_payload = [], req_cfg = default_config\<rparr>"

definition some_mem :: nx_mem where
  "some_mem = \<lparr>Perm_R = 1, Perm_W = 2, Perm_X = 4, MemType_Heap = 5, MemType_Normal = 7,
     MemType_CodeMutable = 4, MemType_ModuleCodeMutable = 9\<rparr>"

lemma frozen_still: "frozen (still_api f)"
  by (simp add: frozen_def still_api_def)

lemma still_setup:
  "scan_setup (still_api f) K
     (search_request [(''base'', JInt b), (''size'', JInt n), (''value'', JInt v)]) (hunt_start ())
     (hunt_start () \<lparr>g_open := True\<rparr>) [(b, n)]"
  by (simp add: scan_setup_def EnsureCheatProcess_def Open_def still_api_def search_request_def
      search_regions_def hunt_start_def json_fields_def to_i32_def idx_absent)

text \<open>
  C13. The first scan is exact. On a target that stands still, a first scan that reports neither
  truncation nor an exhausted budget leaves exactly the aligned positions of its regions that hold
  the value, region by region and in address order, and starts generation one.
\<close>

theorem first_scan_exact:
  assumes "frozen A" "scan_setup A K req s s0 regions" "list_all small_region regions"
    and "SearchBegin fuel A K req s = Some ((ok, r), s')"
    and "\<not> has (reply_json r) ''truncated''" "\<not> has (reply_json r) ''budget_exhausted''"
  shows "ok \<and> g_generation s' = 1 \<and> hworld s' = hworld s0 \<and> candidates s' =
    concat (map (region_hits A (hworld s0) (nat (width_arg req)) (value_arg req)) regions)"
proof -
  have w: "0 < nat (width_arg req)" using assms(2) by (auto simp: scan_setup_def)
  obtain sc where sc: "scan_regions A (nat (width_arg req)) (value_arg req) (budget_arg req) fuel regions
      (scan_start (hworld s0)) = Some sc"
    and r: "(ok, r) = begin_reply (length regions) (nat (width_arg req)) sc"
    and s': "s' = s0\<lparr>hworld := sc_world sc, candidates := sc_cands sc,
        g_width := nat (width_arg req), g_generation := 1\<rparr>"
    using assms(4) unfolding SearchBegin_scans [OF assms(2)] by auto
  have "\<not> sc_truncated sc" "\<not> sc_budget_hit sc"
    using assms(5,6) begin_reply_flags [of "length regions" "nat (width_arg req)" sc] r
    by (metis snd_conv)+
  then have "sc_world sc = hworld s0 \<and> sc_cands sc =
      concat (map (region_hits A (hworld s0) (nat (width_arg req)) (value_arg req)) regions)"
    using scan_regions_complete [OF assms(1) w assms(3) sc] by simp
  moreover have ok using r begin_reply_flags(1) by (metis fst_conv)
  ultimately show ?thesis using s' by simp
qed

lemma still_args:
  "width_arg (search_request [(''base'', JInt b), (''size'', JInt n), (''value'', JInt v)]) = 4"
  "value_arg (search_request [(''base'', JInt b), (''size'', JInt n), (''value'', JInt v)]) = v"
  "budget_arg (search_request [(''base'', JInt b), (''size'', JInt n), (''value'', JInt v)]) = 512 * 1024 * 1024"
  by (simp_all add: search_request_def to_i32_def idx_absent json_fields_def)

lemma still_chunk:
  "scan_chunk 4 5 4096 0 [5, 0, 0, 0, 7, 0, 0, 0, 5, 0, 0, 0] [] =
     ([\<lparr>cand_addr = 4096, cand_value = 5\<rparr>, \<lparr>cand_addr = 4104, cand_value = 5\<rparr>], False)"
  by (simp add: scan_chunk.simps LoadValue_def kMaxCandidates_def)

theorem first_scan_exact_witness:
  "\<exists>r s'. SearchBegin 2 (still_api (\<lambda>a n. Some [5, 0, 0, 0, 7, 0, 0, 0, 5, 0, 0, 0])) some_mem
      (search_request [(''base'', JInt 4096), (''size'', JInt 12), (''value'', JInt 5)]) (hunt_start ()) = Some (r, s') \<and>
    candidates s' = [\<lparr>cand_addr = 4096, cand_value = 5\<rparr>, \<lparr>cand_addr = 4104, cand_value = 5\<rparr>]"
proof -
  let ?A = "still_api (\<lambda>a n. Some [5, 0, 0, 0, 7, 0, 0, 0, 5, 0, 0, 0])"
  let ?q = "search_request [(''base'', JInt 4096), (''size'', JInt 12), (''value'', JInt 5)]"
  note st = still_setup [of "\<lambda>a n. Some [5, 0, 0, 0, 7, 0, 0, 0, 5, 0, 0, 0]" some_mem 4096 12 5]
  let ?sc = "\<lparr>sc_world = (), sc_cands = [\<lparr>cand_addr = 4096, cand_value = 5\<rparr>, \<lparr>cand_addr = 4104, cand_value = 5\<rparr>],
      sc_truncated = False, sc_budget_hit = False, sc_scanned = 12\<rparr>"
  have "scan_region ?A 4 5 (512 * 1024 * 1024) 4096 12 (Suc (Suc 0)) 0 (scan_start ()) = Some ?sc"
    by (simp add: kScanChunk_def still_chunk) (simp add: still_api_def still_chunk)
  then have "scan_regions ?A 4 5 (512 * 1024 * 1024) 2 [(4096, 12)] (scan_start ()) = Some ?sc"
    by (simp add: numeral_2_eq_2)
  then have "SearchBegin 2 ?A some_mem ?q (hunt_start ()) = Some (begin_reply 1 4 ?sc,
      hunt_start ()\<lparr>g_open := True, hworld := (), candidates := sc_cands ?sc, g_width := 4, g_generation := 1\<rparr>)"
    using still_args [of 4096 12 5] unfolding SearchBegin_scans [OF st]
    by (simp add: hunt_start_def del: scan_regions.simps)
  then have "\<exists>r s'. SearchBegin 2 ?A some_mem ?q (hunt_start ()) = Some ((True, r), s') \<and>
      \<not> has (reply_json r) ''truncated'' \<and> \<not> has (reply_json r) ''budget_exhausted''"
    using begin_reply_flags [of 1 4 ?sc] by (cases "begin_reply 1 4 ?sc") simp
  then obtain r s' where b: "SearchBegin 2 ?A some_mem ?q (hunt_start ()) = Some ((True, r), s')"
    "\<not> has (reply_json r) ''truncated''" "\<not> has (reply_json r) ''budget_exhausted''" by blast
  from first_scan_exact [OF frozen_still st _ b] b(1)
  have "candidates s' = region_hits ?A () 4 5 (4096, 12)"
    using still_args [of 4096 12 5] by (simp add: hunt_start_def)
  also have "\<dots> = [\<lparr>cand_addr = 4096, cand_value = 5\<rparr>, \<lparr>cand_addr = 4104, cand_value = 5\<rparr>]"
  proof -
    have u: "[0..<3] = [0, 1, 2 :: nat]" "[0..<Suc 0] = [0 :: nat]" by (simp_all add: upt_rec)
    have "region_hits ?A () 4 5 (4096, 12) = nth_chunk_hits ?A () 4 5 4096 12 0"
      by (simp add: region_hits_def u)
    also have "\<dots> = chunk_hits 4 5 4096 [5, 0, 0, 0, 7, 0, 0, 0, 5, 0, 0, 0]"
      by (simp add: nth_chunk_hits_def still_api_def)
    also have "\<dots> = [\<lparr>cand_addr = 4096, cand_value = 5\<rparr>, \<lparr>cand_addr = 4104, cand_value = 5\<rparr>]"
      by (simp add: chunk_hits_def LoadValue_def u)
    finally show ?thesis .
  qed
  finally show ?thesis using b(1) by blast
qed

text \<open>
  C14. Narrowing is filtering. On a target that stands still, \<^verbatim>\<open>search.next\<close> with a known operator
  keeps, in order, exactly the candidates that can be read and whose current value satisfies the
  operator against the wanted or the remembered value, remembers the current values, reports the
  counts before and after, and moves to the next generation.
\<close>

theorem search_next_filters:
  assumes "frozen A" "EnsureCheatProcess A s = (None, s0)" "candidates s0 \<noteq> []"
    and "op = as_string ''eq'' (arg req ''op'')" "op \<in> set search_ops"
    and "op \<in> {''eq'', ''ne'', ''gt'', ''lt''} \<Longrightarrow> has (req_msg req) ''value''"
  shows "\<exists>r. SearchNext A req s = ((True, r), s0\<lparr>
      candidates := List.map_filter (survive A (hworld s0) op (value_arg req) (g_width s0)) (candidates s0),
      g_generation := Suc (g_generation s0)\<rparr>) \<and>
    idx (reply_json r) ''before'' = JInt (word_of_nat (length (candidates s0))) \<and>
    idx (reply_json r) ''candidates'' = JInt (word_of_nat (length (candidates (snd (SearchNext A req s)))))"
proof -
  note n = narrow_frozen [OF assms(1,5)]
  have given: "\<not> (op \<in> {''eq'', ''ne'', ''gt'', ''lt''} \<and> \<not> has (req_msg req) ''value'')"
    using assms(6) by blast
  show ?thesis
    unfolding SearchNext_def with_process_def assms(2) Let_def n prod.case option.case
      assms(4) [symmetric] if_not_P [OF given] if_not_P [OF assms(3)]
    by (cases s0) (simp add: success_def success_out_def json_fields_def)
qed

theorem search_next_filters_witness:
  "let A = still_api (\<lambda>a n. if a = 4104 then None else Some [9, 0, 0, 0]);
       s = (hunt_start ())\<lparr>candidates := [\<lparr>cand_addr = 4096, cand_value = 5\<rparr>,
         \<lparr>cand_addr = 4100, cand_value = 12\<rparr>, \<lparr>cand_addr = 4104, cand_value = 5\<rparr>]\<rparr>
   in candidates (snd (SearchNext A (search_request [(''op'', JStr ''increased'')]) s)) =
        [\<lparr>cand_addr = 4096, cand_value = 9\<rparr>]"
proof -
  let ?A = "still_api (\<lambda>a n. if a = 4104 then None else Some [9, 0, 0, 0])"
  let ?s = "(hunt_start ())\<lparr>candidates := [\<lparr>cand_addr = 4096, cand_value = 5\<rparr>,
         \<lparr>cand_addr = 4100, cand_value = 12\<rparr>, \<lparr>cand_addr = 4104, cand_value = 5\<rparr>]\<rparr>"
  let ?q = "search_request [(''op'', JStr ''increased'')]"
  have e: "EnsureCheatProcess ?A ?s = (None, ?s\<lparr>g_open := True\<rparr>)"
    by (simp add: EnsureCheatProcess_def Open_def still_api_def hunt_start_def)
  have op: "''increased'' = as_string ''eq'' (arg ?q ''op'')"
    by (simp add: search_request_def json_fields_def)
  from search_next_filters [OF frozen_still e _ op]
  show ?thesis
    by (auto simp: survive_def List.map_filter_simps still_api_def keep_op_def LoadValue_def hunt_start_def)
qed

text \<open>
  C15. The candidate table keeps its bound. Every operation of the search, and every other cheat
  command, keeps the table within its 32768 entries (the budget of the 4 MiB heap), the width one
  of 1, 2, 4 and 8, and every remembered value within that width; the starting state has this.
\<close>

theorem hunt_invariant:
  assumes "hunt_ok s"
  shows "list_all (\<lambda>h. hunt_ok (snd (h req s)))
      [CheatReadMem A, CheatWriteMem A, CheatMeta A, CheatMappings A K, SearchNext A, SearchResults, SearchReset] \<and>
    (\<forall>r s'. SearchBegin fuel A K req s = Some (r, s') \<longrightarrow> hunt_ok s')"
  using handlers_keep_hunt_ok [OF assms] SearchBegin_keeps_hunt_ok [OF assms] by fastforce

theorem hunt_invariant_witness:
  "hunt_ok (snd (SearchReset (search_request []) (hunt_start ())))"
  using hunt_invariant [OF hunt_ok_start [of "()"], of "search_request []" "still_api (\<lambda>a n. None)" some_mem] by simp

text \<open>
  C16. The first scan returns. Where no region is within 64 KiB of the whole address space, neither
  in the request nor among the process's mappings, \<^verbatim>\<open>search.begin\<close> gives the same answer for any
  fuel from \<open>2 ^ 48\<close> on, whatever the running target does to its memory.
\<close>

theorem search_begin_returns:
  assumes "has (req_msg req) ''base'' \<Longrightarrow> has (req_msg req) ''size'' \<Longrightarrow>
      unat (as_int 0 (arg req ''size'')) \<le> 2 ^ 64 - 65536"
    and "\<And>n w mis got. mappings A n w = Some (mis, got) \<Longrightarrow>
      list_all (\<lambda>mi. unat (mi_size mi) \<le> 2 ^ 64 - 65536) mis"
  shows "\<exists>r. \<forall>d. SearchBegin (scan_fuel + d) A K req s = Some r"
proof (cases "\<exists>s0 regions. scan_setup A K req s s0 regions")
  case True
  then obtain s0 regions where st: "scan_setup A K req s s0 regions" by blast
  then obtain m where m: "search_regions A K req m (hworld s0) = Inr regions" by (auto simp: scan_setup_def)
  have small: "list_all (\<lambda>mi. unat (mi_size mi) \<le> 2 ^ 64 - 65536) mis" if "GetMappings A w = Some mis" for mis w
    using that assms(2) unfolding GetMappings_def
    by (fastforce simp: list_all_iff dest: in_set_takeD split: option.splits if_splits)
  have "list_all small_region regions"
    using m assms(1) small unfolding search_regions_def Let_def
    by (fastforce simp: list_all_iff split: if_splits option.splits)
  from scan_regions_enough [OF this] show ?thesis unfolding SearchBegin_scans [OF st] by fastforce
next
  case False
  have "SearchBegin (scan_fuel + d) A K req s = SearchBegin 0 A K req s" for d
    using SearchBegin_refuses_same [OF False] by blast
  then show ?thesis using SearchBegin_refuses(1) [OF False, of 0] by auto
qed

theorem search_begin_returns_witness:
  "\<exists>r. \<forall>d. SearchBegin (scan_fuel + d) (still_api (\<lambda>a n. None)) some_mem
     (search_request [(''base'', JInt 4096), (''size'', JInt 65536)]) (hunt_start ()) = Some r"
  by (rule search_begin_returns) (simp_all add: search_request_def json_fields_def still_api_def)

text \<open>
  The first scan need not return. A request may name its own range; with a size above
  \<open>2 ^ 64 - 2 ^ 16\<close>, over memory that cannot be read, the 64-bit offset wraps before it reaches the
  size, and neither the byte budget nor the candidate cap ends the loop because failed reads count
  for neither: the handler returns for no amount of fuel. The command is in the observe tier.
\<close>

theorem search_begin_hangs:
  assumes "scan_setup A K req s s0 regions"
    and "has (req_msg req) ''base''" "has (req_msg req) ''size''"
    and "2 ^ 64 - 65536 < unat (as_int 0 (arg req ''size''))" "0 < budget_arg req"
    and "\<And>a n w. fst (read_mem A a n w) = None"
  shows "SearchBegin fuel A K req s = None"
proof -
  have "regions = [(as_int 0 (arg req ''base''), as_int 0 (arg req ''size''))]"
    using assms(1-3) by (auto simp: scan_setup_def search_regions_def)
  moreover have "scan_region A w v (budget_arg req) b (as_int 0 (arg req ''size'')) fuel 0 (scan_start x) = None" for w v b x
    using assms(5) by (intro scan_region_hangs assms(6,4)) simp_all
  ultimately show ?thesis unfolding SearchBegin_scans [OF assms(1)] by simp
qed

theorem search_begin_hangs_witness:
  "\<forall>fuel. SearchBegin fuel (still_api (\<lambda>a n. None)) some_mem
     (search_request [(''base'', JInt 0), (''size'', JInt (- 1)), (''value'', JInt 7)]) (hunt_start ()) = None"
proof
  fix fuel
  show "SearchBegin fuel (still_api (\<lambda>a n. None)) some_mem
     (search_request [(''base'', JInt 0), (''size'', JInt (- 1)), (''value'', JInt 7)]) (hunt_start ()) = None"
    using still_args [of 0 "- 1" 7]
    by (intro search_begin_hangs [OF still_setup])
       (simp_all add: search_request_def json_fields_def still_api_def unsigned_minus_1_eq_mask
          mask_eq_exp_minus_1)
qed

text \<open>
  Values outside the width are never found. A value that does not fit the width, and so every
  negative value at a width below eight, is compared as 64 bits with zero-extended memory: whatever
  the memory holds, the first scan finishes with no candidate.
\<close>

theorem wide_value_never_found:
  assumes "scan_setup A K req s s0 regions" "SearchBegin fuel A K req s = Some (r, s')"
    and "256 ^ nat (width_arg req) \<le> unat (value_arg req)"
  shows "candidates s' = []"
  using first_scan_found_ok(1) [OF assms(1,2)] assms(3)
  by (cases "candidates s'") (simp_all add: found_ok_def)

theorem wide_value_never_found_witness:
  "\<exists>r s'. SearchBegin (Suc 1) (still_api (\<lambda>a n. Some [0xFF, 0xFF, 0xFF, 0xFF])) some_mem
     (search_request [(''base'', JInt 4096), (''size'', JInt 4), (''value'', JInt (- 1))]) (hunt_start ()) = Some (r, s') \<and>
     candidates s' = []"
proof -
  let ?A = "still_api (\<lambda>a n. Some [0xFF, 0xFF, 0xFF, 0xFF])"
  note st = still_setup [of "\<lambda>a n. Some [0xFF, 0xFF, 0xFF, 0xFF]" some_mem 4096 4 "- 1"]
  have "\<exists>x. scan_region ?A 4 (- 1) (512 * 1024 * 1024) 4096 4 (Suc 1) 0 (scan_start ()) = Some x"
    by (rule scan_region_returns) simp_all
  then obtain r s' where b: "SearchBegin (Suc 1) ?A some_mem
      (search_request [(''base'', JInt 4096), (''size'', JInt 4), (''value'', JInt (- 1))]) (hunt_start ()) = Some (r, s')"
    using still_args [of 4096 4 "- 1"] unfolding SearchBegin_scans [OF st]
    by (fastforce simp: hunt_start_def simp del: scan_region.simps)
  then show ?thesis using wide_value_never_found [OF st b] still_args [of 4096 4 "- 1"]
    by (simp add: unsigned_minus_1_eq_mask mask_eq_exp_minus_1)
qed

text \<open>
  A page of results. \<^verbatim>\<open>search.results\<close> lists the first candidates up to the limit and the true
  total, but its count of shown results is one too many whenever the limit cut the list: the loop
  counts before it tests.
\<close>

theorem results_page:
  "let limit = int_arg req ''limit'' 50 1000; cs = candidates s; j = reply_json (snd (fst (SearchResults req s))) in
   snd (SearchResults req s) = s \<and> limit \<le> 1000 \<and>
   idx j ''results'' = JArr (map cand_json (take limit cs)) \<and>
   idx j ''total'' = JInt (word_of_nat (length cs)) \<and>
   idx j ''shown'' = JInt (word_of_nat (if length cs > limit then Suc limit else length cs))"
proof -
  have "min (length (candidates s)) (Suc (int_arg req ''limit'' 50 1000)) =
      (if length (candidates s) > int_arg req ''limit'' 50 1000 then Suc (int_arg req ''limit'' 50 1000)
       else length (candidates s))" by simp
  then show ?thesis
    using int_arg_bound [of 50 1000 req "''limit''"]
    by (simp only: SearchResults_def show_loop_spec Let_def success_def success_out_def json_fields_def) simp
qed

end
