(* ===== verification/Debug.thy ===== *)
theory Debug
  imports MemSearchLaws
begin

text \<open>
  The process debugger (\<^verbatim>\<open>handlers/debug.cpp\<close>): the one debug session, its event stream, memory,
  threads and registers, the value search, hardware breakpoints and watchpoints with their control
  words, modules and the backtrace. The kernel's debug calls are a record of functions over an
  abstract world; loops with a bound in the code recurse on that bound, the draining of events,
  which has none, is given fuel.
\<close>

section \<open>The kernel's debug interface\<close>

record thread_context =
  gprs :: "u64 list"
  ctx_fp :: u64
  ctx_lr :: u64
  ctx_sp :: u64
  ctx_pc :: u64

record debug_event =
  ev_type :: u32
  ev_thread :: u64
  ev_exception :: u32
  ev_break_addr :: u64
  ev_exit_reason :: u32

record module_info =
  mod_base :: u64
  mod_size :: u64
  mod_build_id :: "byte list"

text \<open>libnx's constants for memory types, debug events and exceptions, beside those of the search.\<close>

record nx_debug =
  mem_names :: "(u32 \<times> string) list"
  Mem_Unmapped :: u32
  Mem_CodeStatic :: u32
  Mem_ModuleCodeStatic :: u32
  Ev_CreateProcess :: u32
  Ev_CreateThread :: u32
  Ev_ExitProcess :: u32
  Ev_ExitThread :: u32
  Ev_Exception :: u32
  Ex_UndefinedInstruction :: u32
  Ex_InstructionAbort :: u32
  Ex_DataAbort :: u32
  Ex_AlignmentFault :: u32
  Ex_DebuggerAttached :: u32
  Ex_BreakPoint :: u32
  Ex_UserBreak :: u32
  Ex_DebuggerBreak :: u32
  Ex_UndefinedSystemCall :: u32
  Ex_MemorySystemError :: u32

text \<open>
  \<open>svc_threads\<close> gives the count the kernel reports and the thread ids it stored, at most as many as
  there is room for; \<open>stack_word\<close> is what lies behind the array where the count is larger.
\<close>

record 'w dbg_api =
  fg_pid :: "'w \<Rightarrow> u64 option"
  svc_debug :: "u64 \<Rightarrow> 'w \<Rightarrow> u32 option \<times> 'w"
  svc_close :: "u32 \<Rightarrow> 'w \<Rightarrow> 'w"
  svc_query :: "u32 \<Rightarrow> u64 \<Rightarrow> 'w \<Rightarrow> memory_info option"
  svc_event :: "u32 \<Rightarrow> 'w \<Rightarrow> debug_event option \<times> 'w"
  svc_continue :: "u32 \<Rightarrow> u32 \<Rightarrow> 'w \<Rightarrow> 'w"
  svc_break :: "u32 \<Rightarrow> 'w \<Rightarrow> bool \<times> 'w"
  svc_read :: "u32 \<Rightarrow> u64 \<Rightarrow> nat \<Rightarrow> 'w \<Rightarrow> byte list option"
  svc_write :: "u32 \<Rightarrow> u64 \<Rightarrow> byte list \<Rightarrow> 'w \<Rightarrow> bool \<times> 'w"
  svc_threads :: "u32 \<Rightarrow> nat \<Rightarrow> 'w \<Rightarrow> (nat \<times> u64 list) option"
  stack_word :: "nat \<Rightarrow> u64"
  svc_get_ctx :: "u32 \<Rightarrow> u64 \<Rightarrow> 'w \<Rightarrow> thread_context option"
  svc_set_ctx :: "u32 \<Rightarrow> u64 \<Rightarrow> thread_context \<Rightarrow> u32 \<Rightarrow> 'w \<Rightarrow> u32 \<times> 'w"
  svc_hw_bp :: "u32 \<Rightarrow> u64 \<Rightarrow> u64 \<Rightarrow> 'w \<Rightarrow> u32 \<times> 'w"
  ldr_modules :: "u64 \<Rightarrow> 'w \<Rightarrow> module_info list option option"

section \<open>The session\<close>

text \<open>\<^verbatim>\<open>INVALID_HANDLE\<close> is \<open>None\<close>.\<close>

record 'w debugger =
  dworld :: 'w
  g_debug :: "u32 option"
  g_pid :: u64

definition not_attached :: "bool \<times> reply" where
  "not_attached = Fail ''not_attached'' ''no debug session; call debug.attach first''"

text \<open>\<^verbatim>\<open>if (!Attached(reply)) return false\<close>, then the handler with the handle.\<close>

definition Attached ::
  "'w debugger \<Rightarrow> (u32 \<Rightarrow> (bool \<times> reply) \<times> 'w debugger) \<Rightarrow> (bool \<times> reply) \<times> 'w debugger" where
  "Attached s k = (case g_debug s of None \<Rightarrow> (not_attached, s) | Some h \<Rightarrow> k h)"

definition MemTypeName :: "nx_debug \<Rightarrow> u32 \<Rightarrow> string" where
  "MemTypeName D t = (case map_of (mem_names D) (t AND 0xFF) of Some n \<Rightarrow> n | None \<Rightarrow> ''other'')"

definition PermString :: "nx_mem \<Rightarrow> u32 \<Rightarrow> string" where
  "PermString K p =
     [if p AND Perm_R K \<noteq> 0 then CHR ''r'' else CHR ''-'',
      if p AND Perm_W K \<noteq> 0 then CHR ''w'' else CHR ''-'',
      if p AND Perm_X K \<noteq> 0 then CHR ''x'' else CHR ''-'']"

definition continue_flags :: u32 where
  "continue_flags = push_bit 0 1 OR push_bit 1 1 OR push_bit 3 1"

definition ContinueAll :: "'w dbg_api \<Rightarrow> u32 \<Rightarrow> 'w \<Rightarrow> 'w" where
  "ContinueAll B h w = svc_continue B h continue_flags w"

definition DebugEventName :: "nx_debug \<Rightarrow> u32 \<Rightarrow> string" where
  "DebugEventName D t =
     (if t = Ev_CreateProcess D then ''create_process''
      else if t = Ev_CreateThread D then ''create_thread''
      else if t = Ev_ExitProcess D then ''exit_process''
      else if t = Ev_ExitThread D then ''exit_thread''
      else if t = Ev_Exception D then ''exception''
      else ''unknown'')"

definition ExceptionName :: "nx_debug \<Rightarrow> u32 \<Rightarrow> string" where
  "ExceptionName D t =
     (if t = Ex_UndefinedInstruction D then ''undefined_instruction''
      else if t = Ex_InstructionAbort D then ''instruction_abort''
      else if t = Ex_DataAbort D then ''data_abort''
      else if t = Ex_AlignmentFault D then ''alignment_fault''
      else if t = Ex_DebuggerAttached D then ''debugger_attached''
      else if t = Ex_BreakPoint D then ''breakpoint''
      else if t = Ex_UserBreak D then ''user_break''
      else if t = Ex_DebuggerBreak D then ''debugger_break''
      else if t = Ex_UndefinedSystemCall D then ''undefined_syscall''
      else if t = Ex_MemorySystemError D then ''memory_system_error''
      else ''other'')"

definition event_json :: "nx_debug \<Rightarrow> debug_event \<Rightarrow> json" where
  "event_json D ev =
     json_fields
       ([(''event'', JStr (DebugEventName D (ev_type ev))), (''thread_id'', JInt (ev_thread ev))] @
        (if ev_type ev = Ev_Exception D then
           [(''exception'', JStr (ExceptionName D (ev_exception ev)))] @
           (if ev_exception ev = Ex_UserBreak D then [(''address'', JStr (fmt_0xlx (ev_break_addr ev)))] else [])
         else if ev_type ev = Ev_ExitProcess D then [(''reason'', JInt (ucast (ev_exit_reason ev)))]
         else []))"

fun DrainEvents :: "nat \<Rightarrow> 'w dbg_api \<Rightarrow> nx_debug \<Rightarrow> u32 \<Rightarrow> json list \<Rightarrow> 'w \<Rightarrow> (json list \<times> 'w) option" where
  "DrainEvents 0 B D h arr w = None"
| "DrainEvents (Suc fuel) B D h arr w =
     (case svc_event B h w of
        (None, w) \<Rightarrow> Some (arr, w)
      | (Some ev, w) \<Rightarrow> DrainEvents fuel B D h (arr @ [event_json D ev]) w)"

text \<open>The first code region among the first 64 regions, or 0.\<close>

fun find_code :: "nat \<Rightarrow> 'w dbg_api \<Rightarrow> nx_debug \<Rightarrow> u32 \<Rightarrow> u64 \<Rightarrow> 'w \<Rightarrow> u64" where
  "find_code 0 B D h addr w = 0"
| "find_code (Suc i) B D h addr w =
     (case svc_query B h addr w of
        None \<Rightarrow> 0
      | Some mi \<Rightarrow>
          if mi_type mi AND 0xFF = Mem_CodeStatic D \<or> mi_type mi AND 0xFF = Mem_ModuleCodeStatic D
          then mi_addr mi
          else if mi_addr mi + mi_size mi \<le> addr then 0
          else find_code i B D h (mi_addr mi + mi_size mi) w)"

definition close_session :: "'w dbg_api \<Rightarrow> 'w debugger \<Rightarrow> 'w debugger" where
  "close_session B s =
     (case g_debug s of None \<Rightarrow> s | Some h \<Rightarrow> s\<lparr>dworld := svc_close B h (dworld s), g_debug := None\<rparr>)"

definition attach_pid :: "'w dbg_api \<Rightarrow> request \<Rightarrow> 'w \<Rightarrow> u64" where
  "attach_pid B req w =
     (let pid = as_int 0 (arg req ''pid'')
      in if pid \<noteq> 0 then pid else case fg_pid B w of None \<Rightarrow> 0 | Some p \<Rightarrow> p)"

definition DebugAttach ::
  "nat \<Rightarrow> 'w dbg_api \<Rightarrow> nx_debug \<Rightarrow> request \<Rightarrow> 'w debugger \<Rightarrow> ((bool \<times> reply) \<times> 'w debugger) option" where
  "DebugAttach fuel B D req s =
     (let s = close_session B s;
          pid = attach_pid B req (dworld s)
      in if pid = 0 then Some (Fail ''no_app'' ''no pid given and no foreground app'', s)
         else case svc_debug B pid (dworld s) of
                (None, w) \<Rightarrow>
                  Some (Fail ''attach_failed'' ''svcDebugActiveProcess failed'', s\<lparr>dworld := w, g_debug := None\<rparr>)
              | (Some h, w) \<Rightarrow>
                  let s = s\<lparr>dworld := w, g_debug := Some h, g_pid := pid\<rparr>;
                      base = find_code 64 B D h 0 w;
                      pause = as_bool True (arg req ''pause'');
                      r = success [(''ok'', JBool True), (''pid'', JInt pid), (''main_base'', JStr (fmt_0xlx base)),
                            (''paused'', JBool pause),
                            (''note'', JStr (if pause then ''target paused; detach or debug.continue to resume''
                                             else ''target running while attached''))]
                  in if pause then Some (r, s)
                     else case DrainEvents fuel B D h [] w of
                            None \<Rightarrow> None
                          | Some (_, w) \<Rightarrow> Some (r, s\<lparr>dworld := ContinueAll B h w\<rparr>))"

definition DebugPollEvents ::
  "nat \<Rightarrow> 'w dbg_api \<Rightarrow> nx_debug \<Rightarrow> request \<Rightarrow> 'w debugger \<Rightarrow> ((bool \<times> reply) \<times> 'w debugger) option" where
  "DebugPollEvents fuel B D req s =
     (case g_debug s of
        None \<Rightarrow> Some (not_attached, s)
      | Some h \<Rightarrow>
          (case DrainEvents fuel B D h [] (dworld s) of
             None \<Rightarrow> None
           | Some (events, w) \<Rightarrow>
               Some (success [(''events'', JArr events)],
                 s\<lparr>dworld := (if as_bool True (arg req ''resume'') then ContinueAll B h w else w)\<rparr>)))"

definition DebugContinue :: "'w dbg_api \<Rightarrow> request \<Rightarrow> 'w debugger \<Rightarrow> (bool \<times> reply) \<times> 'w debugger" where
  "DebugContinue B req s =
     Attached s (\<lambda>h. (success [(''ok'', JBool True)], s\<lparr>dworld := ContinueAll B h (dworld s)\<rparr>))"

definition DebugBreak :: "'w dbg_api \<Rightarrow> request \<Rightarrow> 'w debugger \<Rightarrow> (bool \<times> reply) \<times> 'w debugger" where
  "DebugBreak B req s =
     Attached s (\<lambda>h. let (ok, w) = svc_break B h (dworld s); s = s\<lparr>dworld := w\<rparr>
       in if \<not> ok then (Fail ''break_failed'' ''svcBreakDebugProcess failed'', s)
          else (success [(''ok'', JBool True)], s))"

definition DebugDetach :: "'w dbg_api \<Rightarrow> request \<Rightarrow> 'w debugger \<Rightarrow> (bool \<times> reply) \<times> 'w debugger" where
  "DebugDetach B req s =
     (success [(''ok'', JBool True)],
      case g_debug s of
        None \<Rightarrow> s
      | Some h \<Rightarrow> s\<lparr>dworld := svc_close B h (dworld s), g_debug := None, g_pid := 0\<rparr>)"

section \<open>Memory\<close>

text \<open>A buffer of the asked size: what the kernel stored, over zeros.\<close>

definition buffer_of :: "nat \<Rightarrow> byte list \<Rightarrow> byte list" where
  "buffer_of n bs = take n (bs @ replicate n 0)"

definition debug_len :: "i64 \<Rightarrow> nat" where
  "debug_len len = (if len \<le>s 0 \<or> (2 ^ 20) <s len then 2 ^ 20 else unat len)"

definition DebugReadMem :: "'w dbg_api \<Rightarrow> request \<Rightarrow> 'w debugger \<Rightarrow> (bool \<times> reply) \<times> 'w debugger" where
  "DebugReadMem B req s =
     Attached s (\<lambda>h.
       let addr = as_int 0 (arg req ''addr''); len = debug_len (as_int 0x100 (arg req ''len''))
       in case svc_read B h addr len (dworld s) of
            None \<Rightarrow> (Fail ''read_failed'' ''svcReadDebugProcessMemory failed'', s)
          | Some bs \<Rightarrow> (success_out [(''addr'', JInt addr)] (buffer_of len bs), s))"

definition DebugWriteMem :: "'w dbg_api \<Rightarrow> request \<Rightarrow> 'w debugger \<Rightarrow> (bool \<times> reply) \<times> 'w debugger" where
  "DebugWriteMem B req s =
     Attached s (\<lambda>h.
       if req_payload req = [] then (Fail ''bad_arg'' ''no bytes to write'', s)
       else let (ok, w) = svc_write B h (as_int 0 (arg req ''addr'')) (req_payload req) (dworld s);
                s = s\<lparr>dworld := w\<rparr>
            in if \<not> ok then (Fail ''write_failed'' ''svcWriteDebugProcessMemory failed'', s)
               else (success [(''ok'', JBool True), (''written'', JInt (word_of_nat (length (req_payload req))))], s))"

definition debug_region_json :: "nx_debug \<Rightarrow> nx_mem \<Rightarrow> memory_info \<Rightarrow> json" where
  "debug_region_json D K mi =
     json_fields [(''addr'', JStr (fmt_0xlx (mi_addr mi))), (''size'', JStr (fmt_0xlx (mi_size mi))),
       (''type'', JStr (MemTypeName D (mi_type mi))), (''perm'', JStr (PermString K (mi_perm mi)))]"

text \<open>The loop over at most \<open>i\<close> regions: it ends where a query fails or the addresses stop climbing.\<close>

fun map_walk :: "nat \<Rightarrow> 'w dbg_api \<Rightarrow> nx_debug \<Rightarrow> nx_mem \<Rightarrow> u32 \<Rightarrow> u64 \<Rightarrow> 'w \<Rightarrow> json list \<Rightarrow> json list" where
  "map_walk 0 B D K h addr w regions = regions"
| "map_walk (Suc i) B D K h addr w regions =
     (case svc_query B h addr w of
        None \<Rightarrow> regions
      | Some mi \<Rightarrow>
          let regions = (if mi_type mi AND 0xFF \<noteq> Mem_Unmapped D
                         then regions @ [debug_region_json D K mi] else regions);
              next = mi_addr mi + mi_size mi
          in if next \<le> addr then regions else map_walk i B D K h next w regions)"

definition DebugMemMap :: "'w dbg_api \<Rightarrow> nx_debug \<Rightarrow> nx_mem \<Rightarrow> request \<Rightarrow> 'w debugger \<Rightarrow> (bool \<times> reply) \<times> 'w debugger" where
  "DebugMemMap B D K req s =
     Attached s (\<lambda>h. (success [(''regions'', JArr (map_walk 512 B D K h 0 (dworld s) []))], s))"

section \<open>Threads and registers\<close>

definition DebugThreads :: "'w dbg_api \<Rightarrow> request \<Rightarrow> 'w debugger \<Rightarrow> (bool \<times> reply) \<times> 'w debugger" where
  "DebugThreads B req s =
     Attached s (\<lambda>h.
       case svc_threads B h 128 (dworld s) of
         None \<Rightarrow> (Fail ''svc_failed'' ''svcGetThreadList failed'', s)
       | Some (count, tids) \<Rightarrow>
           (success [(''threads'', JArr (map (\<lambda>i. JInt (if i < length tids then tids ! i else stack_word B i))
              [0..<count]))], s))"

text \<open>The thread a request names, or the first one.\<close>

definition thread_arg :: "'w dbg_api \<Rightarrow> u32 \<Rightarrow> request \<Rightarrow> 'w \<Rightarrow> u64 option" where
  "thread_arg B h req w =
     (let tid = as_int 0 (arg req ''thread_id'')
      in if tid \<noteq> 0 then Some tid
         else case svc_threads B h 8 w of
                None \<Rightarrow> None
              | Some (count, tids) \<Rightarrow>
                  if count = 0 then None else Some (case tids of [] \<Rightarrow> stack_word B 0 | t # _ \<Rightarrow> t))"

definition reg_key :: "nat \<Rightarrow> string" where
  "reg_key i = CHR ''x'' # dec_nat i"

definition DebugRegisters :: "'w dbg_api \<Rightarrow> request \<Rightarrow> 'w debugger \<Rightarrow> (bool \<times> reply) \<times> 'w debugger" where
  "DebugRegisters B req s =
     Attached s (\<lambda>h.
       case thread_arg B h req (dworld s) of
         None \<Rightarrow> (Fail ''no_threads'' ''no threads to inspect'', s)
       | Some tid \<Rightarrow>
           (case svc_get_ctx B h tid (dworld s) of
              None \<Rightarrow> (Fail ''ctx_failed'' ''svcGetDebugThreadContext failed'', s)
            | Some ctx \<Rightarrow>
                (success [(''thread_id'', JInt tid),
                   (''registers'', json_fields
                      (map (\<lambda>i. (reg_key i, JStr (fmt_0xlx (gprs ctx ! i)))) [0..<29] @
                       [(''fp'', JStr (fmt_0xlx (ctx_fp ctx))), (''lr'', JStr (fmt_0xlx (ctx_lr ctx))),
                        (''sp'', JStr (fmt_0xlx (ctx_sp ctx))), (''pc'', JStr (fmt_0xlx (ctx_pc ctx)))]))], s)))"

record reg_patch =
  rp_ctx :: thread_context
  rp_groups :: u32
  rp_changed :: nat

definition patch_gpr :: "json \<Rightarrow> reg_patch \<Rightarrow> nat \<Rightarrow> reg_patch" where
  "patch_gpr regs p i =
     (if has regs (reg_key i)
      then p\<lparr>rp_ctx := (rp_ctx p)\<lparr>gprs := (gprs (rp_ctx p))[i := as_int 0 (idx regs (reg_key i))]\<rparr>,
             rp_groups := rp_groups p OR 1, rp_changed := Suc (rp_changed p)\<rparr>
      else p)"

text \<open>One of the named registers: its group, and what writes it.\<close>

definition patch_named :: "json \<Rightarrow> string \<Rightarrow> u32 \<Rightarrow> (u64 \<Rightarrow> thread_context \<Rightarrow> thread_context) \<Rightarrow> reg_patch \<Rightarrow> reg_patch" where
  "patch_named regs k grp put p =
     (if has regs k
      then p\<lparr>rp_ctx := put (as_int 0 (idx regs k)) (rp_ctx p), rp_groups := rp_groups p OR grp,
             rp_changed := Suc (rp_changed p)\<rparr>
      else p)"

definition patch_registers :: "json \<Rightarrow> thread_context \<Rightarrow> reg_patch" where
  "patch_registers regs ctx =
     (let p = foldl (patch_gpr regs) \<lparr>rp_ctx = ctx, rp_groups = 0, rp_changed = 0\<rparr> [0..<29];
          p = patch_named regs ''fp'' 1 (\<lambda>v c. c\<lparr>ctx_fp := v\<rparr>) p;
          p = patch_named regs ''lr'' 1 (\<lambda>v c. c\<lparr>ctx_lr := v\<rparr>) p;
          p = patch_named regs ''sp'' 2 (\<lambda>v c. c\<lparr>ctx_sp := v\<rparr>) p
      in patch_named regs ''pc'' 2 (\<lambda>v c. c\<lparr>ctx_pc := v\<rparr>) p)"

text \<open>The parts of a kernel result code.\<close>

definition rc_module :: "u32 \<Rightarrow> u32" where "rc_module rc = rc AND 0x1FF"
definition rc_desc :: "u32 \<Rightarrow> u32" where "rc_desc rc = drop_bit 9 rc AND 0x1FFF"

definition set_ctx_text :: "u32 \<Rightarrow> u64 \<Rightarrow> u32 \<Rightarrow> string" where
  "set_ctx_text rc tid groups = take 223
     (''svcSetDebugThreadContext failed: rc=0x'' @ fmt_08x rc @ '' (module='' @ dec_nat (unat (rc_module rc)) @
      '' desc='' @ dec_nat (unat (rc_desc rc)) @ '') thread='' @ dec_nat (unat tid) @
      '' groups=0x'' @ hex_nat (unat groups) @
      ''. desc=125 is kernel InvalidState: Horizon only allows a thread's context to be written while '' @
      ''that thread is stopped AT A DEBUG EVENT (an exception, breakpoint or fault reported through '' @
      ''debug.poll_events) - a paused attach alone is not enough. Get the thread to trap first, then write.'')"

definition DebugWriteRegisters :: "'w dbg_api \<Rightarrow> request \<Rightarrow> 'w debugger \<Rightarrow> (bool \<times> reply) \<times> 'w debugger" where
  "DebugWriteRegisters B req s =
     Attached s (\<lambda>h.
       case thread_arg B h req (dworld s) of
         None \<Rightarrow> (Fail ''no_threads'' ''no threads to modify'', s)
       | Some tid \<Rightarrow>
           (case svc_get_ctx B h tid (dworld s) of
              None \<Rightarrow> (Fail ''ctx_failed'' ''svcGetDebugThreadContext failed'', s)
            | Some ctx \<Rightarrow>
                let regs = arg req ''registers''
                in if \<not> is_object regs then
                     (Fail ''bad_arg'' (''expected a '' @ quoted ''registers'' @ '' object, e.g. {'' @
                        [CHR 0x22] @ ''pc'' @ [CHR 0x22] @ '': 123}''), s)
                   else
                     let p = patch_registers regs ctx
                     in if rp_changed p = 0 then
                          (Fail ''bad_arg'' (''no recognised register names in '' @ quoted ''registers''), s)
                        else
                          let groups = (if has (req_msg req) ''groups''
                                        then ucast (as_int (ucast (rp_groups p)) (arg req ''groups'')) else rp_groups p);
                              (rc, w) = svc_set_ctx B h tid (rp_ctx p) groups (dworld s);
                              s = s\<lparr>dworld := w\<rparr>
                          in if rc \<noteq> 0 then (Fail ''ctx_failed'' (set_ctx_text rc tid groups), s)
                             else (success [(''groups'', JInt (ucast groups)), (''ok'', JBool True),
                                     (''thread_id'', JInt tid),
                                     (''registers_written'', JInt (word_of_nat (rp_changed p)))], s)))"

section \<open>Searching\<close>

text \<open>Every offset of one region's bytes, while matches are wanted.\<close>

fun scan_bytes :: "byte list \<Rightarrow> nat \<Rightarrow> u64 \<Rightarrow> nat \<Rightarrow> byte list \<Rightarrow> json list \<Rightarrow> json list" where
  "scan_bytes ndl maxn base off [] ms = ms"
| "scan_bytes ndl maxn base off (b # bs) ms =
     (if length (b # bs) < length ndl \<or> length ms \<ge> maxn then ms
      else scan_bytes ndl maxn base (Suc off) bs
             (if take (length ndl) (b # bs) = ndl then ms @ [JStr (fmt_0xlx (base + word_of_nat off))] else ms))"

definition search_region :: "'w dbg_api \<Rightarrow> nx_debug \<Rightarrow> nx_mem \<Rightarrow> u32 \<Rightarrow> byte list \<Rightarrow> nat \<Rightarrow> 'w \<Rightarrow> memory_info \<Rightarrow> json list \<Rightarrow> json list" where
  "search_region B D K h ndl maxn w mi ms =
     (if mi_perm mi AND Perm_W K \<noteq> 0 \<and> mi_type mi AND 0xFF \<noteq> Mem_Unmapped D \<and> mi_size mi \<le> 64 * 2 ^ 20
      then case svc_read B h (mi_addr mi) (unat (mi_size mi)) w of
             None \<Rightarrow> ms
           | Some bs \<Rightarrow> scan_bytes ndl maxn (mi_addr mi) 0 (buffer_of (unat (mi_size mi)) bs) ms
      else ms)"

fun search_walk :: "nat \<Rightarrow> 'w dbg_api \<Rightarrow> nx_debug \<Rightarrow> nx_mem \<Rightarrow> u32 \<Rightarrow> byte list \<Rightarrow> nat \<Rightarrow> u64 \<Rightarrow> 'w \<Rightarrow> json list \<Rightarrow> json list" where
  "search_walk 0 B D K h ndl maxn addr w ms = ms"
| "search_walk (Suc i) B D K h ndl maxn addr w ms =
     (if length ms \<ge> maxn then ms
      else case svc_query B h addr w of
        None \<Rightarrow> ms
      | Some mi \<Rightarrow>
          let ms = search_region B D K h ndl maxn w mi ms;
              next = mi_addr mi + mi_size mi
          in if next \<le> addr then ms else search_walk i B D K h ndl maxn next w ms)"

definition search_width :: "request \<Rightarrow> nat" where
  "search_width req =
     (let wd = sint (to_i32 (as_int 4 (arg req ''width'')))
      in if wd \<noteq> 1 \<and> wd \<noteq> 2 \<and> wd \<noteq> 4 \<and> wd \<noteq> 8 then 4 else nat wd)"

definition search_max :: "request \<Rightarrow> nat" where
  "search_max req =
     (let m = as_int 64 (arg req ''max'') in if m \<le>s 0 \<or> 1024 <s m then 64 else unat m)"

definition DebugSearch :: "'w dbg_api \<Rightarrow> nx_debug \<Rightarrow> nx_mem \<Rightarrow> request \<Rightarrow> 'w debugger \<Rightarrow> (bool \<times> reply) \<times> 'w debugger" where
  "DebugSearch B D K req s =
     Attached s (\<lambda>h.
       let ndl = take (search_width req) (le_bytes 8 (unat (as_int 0 (arg req ''value''))));
           ms = search_walk 512 B D K h ndl (search_max req) 0 (dworld s) []
       in (success [(''matches'', JArr ms), (''count'', JInt (word_of_nat (length ms))),
             (''truncated'', JBool (length ms \<ge> search_max req))], s))"

section \<open>Hardware breakpoints and watchpoints\<close>

definition kWatchpointBase :: u32 where "kWatchpointBase = 16"
definition kMaxBreakpointSlots :: int where "kMaxBreakpointSlots = 6"
definition kMaxWatchpointSlots :: int where "kMaxWatchpointSlots = 4"

definition kBreakpointCtl :: u64 where
  "kBreakpointCtl = 1 OR push_bit 5 0b1111 OR push_bit 20 0b0001"

definition WatchpointCtl :: "u32 \<Rightarrow> u32 \<Rightarrow> u64" where
  "WatchpointCtl lsc bas = 1 OR push_bit 3 (ucast (lsc AND 0b11)) OR push_bit 5 (ucast (bas AND 0xFF))"

definition fail_result_text :: "u32 \<Rightarrow> string \<Rightarrow> u64 \<Rightarrow> u64 \<Rightarrow> string" where
  "fail_result_text rc what ctl v = take 255
     (''svcSetHardwareBreakPoint('' @ what @ '') failed: rc=0x'' @ fmt_08x rc @ '' (module='' @
      dec_nat (unat (rc_module rc)) @ '' desc='' @ dec_nat (unat (rc_desc rc)) @ '') ctl='' @ fmt_0xlx ctl @
      '' value='' @ fmt_0xlx v)"

definition FailResult :: "u32 \<Rightarrow> string \<Rightarrow> u64 \<Rightarrow> u64 \<Rightarrow> bool \<times> reply" where
  "FailResult rc what ctl v = Fail ''hw_bp_failed'' (fail_result_text rc what ctl v)"

definition DebugSetHwBpRaw :: "'w dbg_api \<Rightarrow> request \<Rightarrow> 'w debugger \<Rightarrow> (bool \<times> reply) \<times> 'w debugger" where
  "DebugSetHwBpRaw B req s =
     Attached s (\<lambda>h.
       let which = (ucast (as_int 0 (arg req ''which'')) :: u32);
           (rc, w) = svc_hw_bp B which (as_int 0 (arg req ''flags'')) (as_int 0 (arg req ''value'')) (dworld s)
       in (success [(''ok'', JBool (rc = 0)), (''rc'', JInt (ucast rc)), (''module'', JInt (ucast (rc_module rc))),
             (''desc'', JInt (ucast (rc_desc rc))), (''which'', JInt (ucast which))], s\<lparr>dworld := w\<rparr>))"

text \<open>\<^verbatim>\<open>((1u << size) - 1) << offset\<close>\<close>

definition byte_select :: "nat \<Rightarrow> nat \<Rightarrow> u32" where
  "byte_select n offset = push_bit offset (push_bit n 1 - 1)"

definition access_type :: "string \<Rightarrow> u32 option" where
  "access_type mode =
     (if mode = ''read'' then Some 0b01
      else if mode = ''write'' then Some 0b10
      else if mode = ''rw'' \<or> mode = ''both'' then Some 0b11
      else None)"

definition watch_note :: string where
  "watch_note = ''armed, but DO NOT RELY ON HITS. On fw 22.1.0 no watchpoint has ever been observed to fire from this '' @
     ''sysmodule. The syscall is permitted and the encoding is accepted; the exception is simply never '' @
     ''delivered. Core affinity was tested and ruled out. Use cheat.read_mem polling or the narrowing '' @
     ''search (search.begin/next) instead.''"

definition DebugSetWatchpoint :: "'w dbg_api \<Rightarrow> request \<Rightarrow> 'w debugger \<Rightarrow> (bool \<times> reply) \<times> 'w debugger" where
  "DebugSetWatchpoint B req s =
     Attached s (\<lambda>h.
       let addr = as_int 0 (arg req ''addr'');
           size = sint (to_i32 (as_int 4 (arg req ''size'')));
           slot = to_i32 (as_int 0 (arg req ''slot''));
           mode = as_string ''write'' (arg req ''mode'');
           base = addr AND NOT 7;
           offset = unat (addr - base)
       in if addr = 0 then (Fail ''bad_arg'' ''missing addr'', s)
          else if size \<noteq> 1 \<and> size \<noteq> 2 \<and> size \<noteq> 4 \<and> size \<noteq> 8
          then (Fail ''bad_arg'' ''size must be 1, 2, 4 or 8 bytes'', s)
          else if sint slot < 0 \<or> sint slot \<ge> kMaxWatchpointSlots
          then (Fail ''bad_arg'' ''slot must be 0-3 (this SoC has 4 watchpoints)'', s)
          else if offset + nat size > 8
          then (Fail ''bad_arg'' ''range crosses an 8-byte boundary; align it or use two slots'', s)
          else case access_type mode of
            None \<Rightarrow> (Fail ''bad_arg'' ''mode must be read, write or rw'', s)
          | Some lsc \<Rightarrow>
              let ctl = (if has (req_msg req) ''ctl'' then as_int 0 (arg req ''ctl'')
                         else WatchpointCtl lsc (byte_select (nat size) offset));
                  (rc, w) = svc_hw_bp B (kWatchpointBase + slot) ctl base (dworld s);
                  s = s\<lparr>dworld := w\<rparr>
              in if rc \<noteq> 0 then (FailResult rc ''watchpoint'' ctl base, s)
                 else (success [(''ok'', JBool True), (''slot'', JInt (of_i32 slot)), (''mode'', JStr mode),
                         (''watching'', JInt addr), (''note'', JStr watch_note)], s))"

definition break_note :: string where
  "break_note = ''armed, but DO NOT RELY ON HITS. No hardware breakpoint has been observed to fire on fw 22.1.0 from '' @
     ''this sysmodule. Arming and clearing work; the exception is never delivered. Core affinity was tested and ruled out.''"

definition DebugSetBreakpoint :: "'w dbg_api \<Rightarrow> request \<Rightarrow> 'w debugger \<Rightarrow> (bool \<times> reply) \<times> 'w debugger" where
  "DebugSetBreakpoint B req s =
     Attached s (\<lambda>h.
       let addr = as_int 0 (arg req ''addr'');
           slot = to_i32 (as_int 0 (arg req ''slot''))
       in if addr = 0 then (Fail ''bad_arg'' ''missing addr'', s)
          else if addr AND 3 \<noteq> 0 then (Fail ''bad_arg'' ''address must be 4-byte aligned (A64 instruction)'', s)
          else if sint slot < 0 \<or> sint slot \<ge> kMaxBreakpointSlots
          then (Fail ''bad_arg'' ''slot must be 0-5 (this SoC has 6 breakpoints)'', s)
          else let (rc, w) = svc_hw_bp B slot kBreakpointCtl addr (dworld s); s = s\<lparr>dworld := w\<rparr>
               in if rc \<noteq> 0 then (FailResult rc ''breakpoint'' kBreakpointCtl addr, s)
                  else (success [(''ok'', JBool True), (''slot'', JInt (of_i32 slot)), (''breaking_at'', JInt addr),
                          (''note'', JStr break_note)], s))"

definition DebugClearBreakpoint :: "'w dbg_api \<Rightarrow> request \<Rightarrow> 'w debugger \<Rightarrow> (bool \<times> reply) \<times> 'w debugger" where
  "DebugClearBreakpoint B req s =
     Attached s (\<lambda>h.
       let slot = to_i32 (as_int 0 (arg req ''slot''));
           wp = as_bool False (arg req ''watchpoint'');
           limit = (if wp then kMaxWatchpointSlots else kMaxBreakpointSlots)
       in if sint slot < 0 \<or> sint slot \<ge> limit
          then (Fail ''bad_arg'' (if wp then ''watchpoint slot must be 0-3'' else ''breakpoint slot must be 0-5''), s)
          else let (rc, w) = svc_hw_bp B ((if wp then kWatchpointBase else 0) + slot) 0 0 (dworld s);
                   s = s\<lparr>dworld := w\<rparr>
               in if rc \<noteq> 0 then (Fail ''hw_bp_failed'' ''could not clear the slot'', s)
                  else (success [(''ok'', JBool True), (''cleared_slot'', JInt (of_i32 slot)),
                          (''kind'', JStr (if wp then ''watchpoint'' else ''breakpoint''))], s))"

section \<open>Modules and the backtrace\<close>

definition module_json :: "nat \<Rightarrow> module_info \<Rightarrow> json" where
  "module_json i m =
     json_fields [(''base'', JStr (fmt_0xlx (mod_base m))), (''size'', JStr (fmt_0xlx (mod_size m))),
       (''build_id'', JStr (hex_bytes (take 32 (mod_build_id m)))), (''index'', JInt (word_of_nat i))]"

definition module_pid :: "'w dbg_api \<Rightarrow> request \<Rightarrow> 'w debugger \<Rightarrow> u64" where
  "module_pid B req s =
     (let pid = as_int 0 (arg req ''pid'')
      in if pid \<noteq> 0 then pid
         else if g_debug s \<noteq> None then g_pid s
         else case fg_pid B (dworld s) of None \<Rightarrow> 0 | Some p \<Rightarrow> p)"

definition DebugModules :: "'w dbg_api \<Rightarrow> request \<Rightarrow> 'w debugger \<Rightarrow> (bool \<times> reply) \<times> 'w debugger" where
  "DebugModules B req s =
     (let pid = module_pid B req s
      in if pid = 0 \<and> g_debug s = None
         then (Fail ''no_pid'' ''no pid given, none attached, no foreground app'', s)
         else case ldr_modules B pid (dworld s) of
                None \<Rightarrow> (Fail ''ldr_failed'' ''cannot open ldr:dmnt'', s)
              | Some None \<Rightarrow> (Fail ''ldr_failed'' ''ldrDmntGetProcessModuleInfo failed'', s)
              | Some (Some ms) \<Rightarrow>
                  (success [(''pid'', JInt pid),
                     (''modules'', JArr (map (\<lambda>(i, m). module_json i m) (enumerate 0 ms)))], s))"

definition frame_json :: "u64 \<Rightarrow> u64 \<Rightarrow> json" where
  "frame_json ret fp = json_fields [(''pc'', JStr (fmt_0xlx ret)), (''fp'', JStr (fmt_0xlx fp))]"

text \<open>The walk up the frame pointers, as the pairs of return address and frame pointer.\<close>

fun walk_frames :: "nat \<Rightarrow> (u64 \<Rightarrow> (u64 \<times> u64) option) \<Rightarrow> u64 \<Rightarrow> u64 \<Rightarrow> (u64 \<times> u64) list" where
  "walk_frames 0 rd prev fp = []"
| "walk_frames (Suc i) rd prev fp =
     (if fp = 0 \<or> fp \<le> prev \<or> fp AND 7 \<noteq> 0 then []
      else case rd fp of
        None \<Rightarrow> []
      | Some (next, ret) \<Rightarrow> if ret = 0 then [] else (ret, fp) # walk_frames i rd fp next)"

definition read_pair :: "'w dbg_api \<Rightarrow> u32 \<Rightarrow> 'w \<Rightarrow> u64 \<Rightarrow> (u64 \<times> u64) option" where
  "read_pair B h w fp =
     map_option (\<lambda>bs. let b = buffer_of 16 bs in (word_of_nat (le_val (take 8 b)), word_of_nat (le_val (drop 8 b))))
       (svc_read B h fp 16 w)"

definition DebugBacktrace :: "'w dbg_api \<Rightarrow> request \<Rightarrow> 'w debugger \<Rightarrow> (bool \<times> reply) \<times> 'w debugger" where
  "DebugBacktrace B req s =
     Attached s (\<lambda>h.
       case thread_arg B h req (dworld s) of
         None \<Rightarrow> (Fail ''no_threads'' ''no threads to walk'', s)
       | Some tid \<Rightarrow>
           let max_frames = int_arg req ''max_frames'' 32 64
           in case svc_get_ctx B h tid (dworld s) of
                None \<Rightarrow> (Fail ''ctx_failed'' ''cannot read thread context'', s)
              | Some ctx \<Rightarrow>
                  let f0 = json_fields [(''pc'', JStr (fmt_0xlx (ctx_pc ctx))), (''lr'', JStr (fmt_0xlx (ctx_lr ctx)))];
                      fs = walk_frames (max_frames - 1) (read_pair B h (dworld s)) 0 (ctx_fp ctx)
                  in (success [(''thread_id'', JInt tid),
                        (''frames'', JArr (f0 # map (\<lambda>(ret, fp). frame_json ret fp) fs)),
                        (''note'', JStr (''addresses are absolute; subtract a module base from debug.modules to get '' @
                           ''an RVA for Ghidra/IDA''))], s))"

end
