(* ===== verification/DebugLaws.thy ===== *)
theory DebugLaws
  imports Debug
begin

text \<open>
  What the debugger guarantees: one open handle at most, the event stream in order, register writes
  that touch nothing else, a search that finds exactly the occurrences, watchpoint control words
  that cover exactly the asked bytes, and a backtrace that is a climbing chain.
\<close>

section \<open>The handler contract\<close>

lemma not_attached_contract [simp]: "keeps_contract not_attached"
  by (simp add: not_attached_def)

lemma Attached_contract: "(\<And>h. keeps_contract (fst (k h))) \<Longrightarrow> keeps_contract (fst (Attached s k))"
  by (simp add: Attached_def split: option.split)

lemma FailResult_contract [simp]: "keeps_contract (FailResult rc what ctl v)"
  by (simp add: FailResult_def)

lemma debug_len_max: "debug_len l \<le> kMaxBinary"
  by (auto simp: debug_len_def kMaxBinary_def word_sle_eq word_sless_alt unat_of_sint not_less not_le nat_le_iff)

lemma buffer_of_length [simp]: "length (buffer_of n bs) = n"
  by (simp add: buffer_of_def)

interpretation debug_continue: command_handler "DebugContinue B"
  by unfold_locales (auto simp: DebugContinue_def intro!: Attached_contract)

interpretation debug_break: command_handler "DebugBreak B"
  by unfold_locales (auto simp: DebugBreak_def Let_def intro!: Attached_contract split: prod.split)

interpretation debug_detach: command_handler "DebugDetach B"
  by unfold_locales (simp add: DebugDetach_def)

interpretation debug_read: command_handler "DebugReadMem B"
proof
  show "keeps_contract (fst (DebugReadMem B req s))" for req s
    using debug_len_max [of "as_int 256 (arg req ''len'')"]
    by (auto simp: DebugReadMem_def Let_def intro!: Attached_contract success_contract split: option.split)
qed

interpretation debug_write: command_handler "DebugWriteMem B"
  by unfold_locales (auto simp: DebugWriteMem_def Let_def intro!: Attached_contract split: prod.split)

interpretation debug_map: command_handler "DebugMemMap B D K"
  by unfold_locales (auto simp: DebugMemMap_def intro!: Attached_contract)

interpretation debug_threads: command_handler "DebugThreads B"
  by unfold_locales (auto simp: DebugThreads_def intro!: Attached_contract split: option.split)

interpretation debug_registers: command_handler "DebugRegisters B"
  by unfold_locales (auto simp: DebugRegisters_def intro!: Attached_contract split: option.split)

interpretation debug_search: command_handler "DebugSearch B D K"
  by unfold_locales (auto simp: DebugSearch_def Let_def intro!: Attached_contract)

interpretation debug_raw: command_handler "DebugSetHwBpRaw B"
  by unfold_locales (auto simp: DebugSetHwBpRaw_def Let_def intro!: Attached_contract split: prod.split)

interpretation debug_breakpoint: command_handler "DebugSetBreakpoint B"
  by unfold_locales (auto simp: DebugSetBreakpoint_def Let_def intro!: Attached_contract split: prod.split)

interpretation debug_clear: command_handler "DebugClearBreakpoint B"
  by unfold_locales (auto simp: DebugClearBreakpoint_def Let_def intro!: Attached_contract split: prod.split)

interpretation debug_watchpoint: command_handler "DebugSetWatchpoint B"
proof
  show "keeps_contract (fst (DebugSetWatchpoint B req s))" for req s
    unfolding DebugSetWatchpoint_def Let_def
    by (intro Attached_contract contract_branches) simp_all
qed

interpretation debug_write_regs: command_handler "DebugWriteRegisters B"
proof
  show "keeps_contract (fst (DebugWriteRegisters B req s))" for req s
    unfolding DebugWriteRegisters_def Let_def
    by (intro Attached_contract contract_branches) simp_all
qed

interpretation debug_modules: command_handler "DebugModules B"
  by unfold_locales (auto simp: DebugModules_def Let_def split: option.split)

interpretation debug_backtrace: command_handler "DebugBacktrace B"
proof
  show "keeps_contract (fst (DebugBacktrace B req s))" for req s
    unfolding DebugBacktrace_def Let_def
    by (intro Attached_contract contract_branches) simp_all
qed


section \<open>Watchpoints\<close>

text \<open>
  The architecture's reading of a watchpoint: bit 0 arms it, bits 3 and 4 watch loads and stores,
  bits 5 to 12 select the bytes of the aligned doubleword at the value register.
\<close>

definition watched :: "u64 \<Rightarrow> u64 \<Rightarrow> u64 list" where
  "watched ctl base = (if bit ctl 0 then map (\<lambda>j. base + word_of_nat j) (filter (\<lambda>j. bit ctl (5 + j)) [0..<8]) else [])"

lemma bit_byte_select:
  assumes "o' + n \<le> 8"
  shows "bit (byte_select n o' AND 0xFF) k \<longleftrightarrow> o' \<le> k \<and> k < o' + n"
proof -
  have "x AND 0xFF = take_bit 8 x" for x :: u32 by (simp add: take_bit_eq_mask mask_eq_exp_minus_1)
  moreover have "(push_bit n 1 - 1 :: u32) = mask n" by (simp add: mask_eq_exp_minus_1 push_bit_eq_mult)
  ultimately show ?thesis
    using assms by (auto simp: byte_select_def bit_simps)
qed

lemma bit_lsc: "bit (lsc AND 0b11 :: u32) k \<longleftrightarrow> k < 2 \<and> bit lsc k"
proof -
  have "lsc AND 0b11 = take_bit 2 lsc" by (simp add: take_bit_eq_mask mask_eq_exp_minus_1)
  then show ?thesis by (simp add: bit_simps)
qed

lemma bit_WatchpointCtl:
  assumes "o' + n \<le> 8"
  shows "bit (WatchpointCtl lsc (byte_select n o')) i \<longleftrightarrow>
         i = 0 \<or> (3 \<le> i \<and> i < 5 \<and> bit lsc (i - 3)) \<or> (5 + o' \<le> i \<and> i < 5 + o' + n)"
proof -
  have "bit (WatchpointCtl lsc (byte_select n o')) i \<longleftrightarrow>
        i = 0 \<or> (3 \<le> i \<and> i < 64 \<and> i - 3 < 2 \<and> bit lsc (i - 3)) \<or>
        (5 \<le> i \<and> i < 64 \<and> o' \<le> i - 5 \<and> i - 5 < o' + n)"
    by (auto simp add: WatchpointCtl_def bit_or_iff bit_push_bit_iff bit_ucast_iff bit_1_iff bit_lsc
        bit_byte_select [OF assms])
  moreover have "(3 \<le> i \<and> i < 64 \<and> i - 3 < 2) = (3 \<le> i \<and> i < 5)" by arith
  moreover have "(5 \<le> i \<and> i < 64 \<and> o' \<le> i - 5 \<and> i - 5 < o' + n) = (5 + o' \<le> i \<and> i < 5 + o' + n)"
    using assms by arith
  ultimately show ?thesis by metis
qed

lemma watched_WatchpointCtl:
  assumes "o' + n \<le> 8"
  shows "watched (WatchpointCtl lsc (byte_select n o')) base = map (\<lambda>j. base + word_of_nat j) [o'..<o' + n]"
proof -
  have "filter (\<lambda>j. o' \<le> j \<and> j < o' + n) [0..<8] = [o'..<o' + n]"
  proof -
    have "[0..<8] = [0..<o'] @ [o'..<o' + n] @ [o' + n..<8]"
      using upt_add_eq_append [of 0 o' "8 - o'"] upt_add_eq_append [of o' "o' + n" "8 - (o' + n)"] assms(1) by simp
    then show ?thesis by (auto simp: filter_id_conv filter_empty_conv)
  qed
  moreover have "bit (WatchpointCtl lsc (byte_select n o')) (5 + j) \<longleftrightarrow> o' \<le> j \<and> j < o' + n" for j
    using assms by (auto simp: bit_WatchpointCtl)
  moreover have "bit (WatchpointCtl lsc (byte_select n o')) 0" using assms by (simp add: bit_WatchpointCtl)
  ultimately show ?thesis by (simp add: watched_def)
qed

lemma access_type_bits:
  "access_type mode = Some lsc \<Longrightarrow>
   lsc < 4 \<and> (bit lsc 0 \<longleftrightarrow> mode \<noteq> ''write'') \<and> (bit lsc 1 \<longleftrightarrow> mode \<noteq> ''read'')"
  by (auto simp: access_type_def bit_simps split: if_splits)

lemma base_offset: "(addr AND NOT 7) + (addr - (addr AND NOT 7)) = (addr :: u64)"
  by simp


text \<open>
  C25. Watchpoints are exact: when \<^verbatim>\<open>debug.set_watchpoint\<close> accepts a request that leaves the control
  word to the handler, the one kernel call it made took, for a slot below 4, a doubleword-aligned
  address and a control word that arms exactly the asked bytes from the asked address on, in order
  and none else, for loads unless the mode was \<^verbatim>\<open>write\<close> and for stores unless it was \<^verbatim>\<open>read\<close>.
\<close>

theorem watchpoint_covers:
  assumes "fst (fst (DebugSetWatchpoint B req s))" and "\<not> has (req_msg req) ''ctl''"
  shows "\<exists>ctl base. let slot = to_i32 (as_int 0 (arg req ''slot''));
             n = nat (sint (to_i32 (as_int 4 (arg req ''size'')))); mode = as_string ''write'' (arg req ''mode'')
           in svc_hw_bp B (16 + slot) ctl base (dworld s) = (0, dworld (snd (DebugSetWatchpoint B req s))) \<and>
              0 \<le> sint slot \<and> sint slot < 4 \<and> n \<in> {1, 2, 4, 8} \<and> base AND 7 = 0 \<and>
              watched ctl base = map (\<lambda>j. as_int 0 (arg req ''addr'') + word_of_nat j) [0..<n] \<and>
              (bit ctl 3 \<longleftrightarrow> mode \<noteq> ''write'') \<and> (bit ctl 4 \<longleftrightarrow> mode \<noteq> ''read'')"
proof -
  define addr where "addr = as_int 0 (arg req ''addr'')"
  define base where "base = addr AND NOT 7"
  define slot where "slot = to_i32 (as_int 0 (arg req ''slot''))"
  define z where "z = sint (to_i32 (as_int 4 (arg req ''size'')))"
  define mode where "mode = as_string ''write'' (arg req ''mode'')"
  define o' where "o' = unat (addr - base)"
  obtain h where h: "g_debug s = Some h"
    using assms(1) by (cases "g_debug s") (auto simp: DebugSetWatchpoint_def Attached_def not_attached_def)
  note D = DebugSetWatchpoint_def [of B req s, folded addr_def slot_def z_def mode_def, unfolded Let_def,
      folded base_def o'_def, unfolded Attached_def h option.case]
  from assms(1) obtain lsc where g: "addr \<noteq> 0" "z = 1 \<or> z = 2 \<or> z = 4 \<or> z = 8"
      "0 \<le> sint slot" "sint slot < 4" "o' + nat z \<le> 8" "access_type mode = Some lsc"
    by (auto simp: D kMaxWatchpointSlots_def not_le not_less split: if_splits option.splits)
  let ?ctl = "WatchpointCtl lsc (byte_select (nat z) o')"
  obtain rc w where c: "svc_hw_bp B (16 + slot) ?ctl base (dworld s) = (rc, w)" by fastforce
  have r: "rc = 0" "dworld (snd (DebugSetWatchpoint B req s)) = w"
    using assms g c by (auto simp: D kMaxWatchpointSlots_def kWatchpointBase_def FailResult_def split: if_splits)
  have "watched ?ctl base = map (\<lambda>j. base + word_of_nat j) [o'..<o' + nat z]"
    using g by (simp add: watched_WatchpointCtl)
  also have "\<dots> = map (\<lambda>j. base + word_of_nat (j + o')) [0..<nat z]"
    by (subst add.commute, subst map_add_upt [symmetric]) (simp add: comp_def)
  also have "\<dots> = map (\<lambda>j. addr + word_of_nat j) [0..<nat z]"
    by (simp add: o'_def base_def algebra_simps)
  finally have "watched ?ctl base = map (\<lambda>j. addr + word_of_nat j) [0..<nat z]" .
  moreover have "base AND 7 = 0" by (simp add: base_def ac_simps)
  moreover have "bit ?ctl 3 \<longleftrightarrow> mode \<noteq> ''write''" "bit ?ctl 4 \<longleftrightarrow> mode \<noteq> ''read''"
    using g access_type_bits [of mode lsc] by (auto simp: bit_WatchpointCtl)
  moreover have "nat z \<in> {1, 2, 4, 8}" using g by auto
  ultimately show ?thesis
    using g c r by (fold addr_def slot_def z_def mode_def) (auto simp: Let_def)
qed


text \<open>A kernel that does nothing but note the hardware breakpoint calls, and a request of given fields.\<close>

definition quiet_kernel :: "(u32 \<times> u64 \<times> u64) list dbg_api" where
  "quiet_kernel =
     \<lparr>fg_pid = (\<lambda>_. None), svc_debug = (\<lambda>_ w. (None, w)), svc_close = (\<lambda>_ w. w), svc_query = (\<lambda>_ _ _. None),
      svc_event = (\<lambda>_ w. (None, w)), svc_continue = (\<lambda>_ _ w. w), svc_break = (\<lambda>_ w. (True, w)),
      svc_read = (\<lambda>_ _ _ _. None), svc_write = (\<lambda>_ _ _ w. (False, w)), svc_threads = (\<lambda>_ _ _. None),
      stack_word = (\<lambda>_. 0), svc_get_ctx = (\<lambda>_ _ _. None), svc_set_ctx = (\<lambda>_ _ _ _ w. (0, w)),
      svc_hw_bp = (\<lambda>which ctl v w. (0, w @ [(which, ctl, v)])), ldr_modules = (\<lambda>_ _. None)\<rparr>"

definition debug_request :: "(string \<times> json) list \<Rightarrow> request" where
  "debug_request kvs = \<lparr>req_msg = JObj kvs, req_payload = [], req_cfg = default_config\<rparr>"

theorem watchpoint_covers_witness:
  "let s = \<lparr>dworld = [], g_debug = Some 5, g_pid = 77\<rparr>;
       r = DebugSetWatchpoint quiet_kernel (debug_request [(''addr'', JInt 0x1002), (''size'', JInt 2)]) s
   in \<exists>ctl base. dworld (snd r) = [(16, ctl, base)] \<and> watched ctl base = [0x1002, 0x1003]"
proof -
  let ?q = "debug_request [(''addr'', JInt 0x1002), (''size'', JInt 2)]"
  let ?s = "\<lparr>dworld = [], g_debug = Some (5 :: u32), g_pid = 77\<rparr>"
  have a: "as_int 0 (arg ?q ''addr'') = 0x1002" "as_int 4 (arg ?q ''size'') = 2" "as_int 0 (arg ?q ''slot'') = 0"
    "as_string ''write'' (arg ?q ''mode'') = ''write''" "\<not> has (req_msg ?q) ''ctl''"
    by (simp_all add: debug_request_def idx_def has_def as_int_def as_string_def)
  have "fst (fst (DebugSetWatchpoint quiet_kernel ?q ?s))"
    by (simp add: DebugSetWatchpoint_def Attached_def Let_def a quiet_kernel_def to_i32_def access_type_def
        kMaxWatchpointSlots_def)
  moreover have "svc_hw_bp quiet_kernel which ctl v w = (0, w') \<longleftrightarrow> w' = w @ [(which, ctl, v)]" for which ctl v w w'
    by (auto simp: quiet_kernel_def)
  ultimately show ?thesis
    using watchpoint_covers [of quiet_kernel ?q ?s] a by (auto simp: Let_def to_i32_def upt_rec)
qed


section \<open>The backtrace\<close>

text \<open>
  \<open>chained rd prev fp fs stop\<close>: the frames \<open>fs\<close> hang together from the frame pointer \<open>fp\<close> on, each
  above the one before (\<open>prev\<close> at first), aligned, read from memory and with a return address;
  \<open>stop\<close> is the last frame pointer seen and the frame below it.
\<close>

fun chained :: "(u64 \<Rightarrow> (u64 \<times> u64) option) \<Rightarrow> u64 \<Rightarrow> u64 \<Rightarrow> (u64 \<times> u64) list \<Rightarrow> u64 \<times> u64 \<Rightarrow> bool" where
  "chained rd prev fp [] stop \<longleftrightarrow> stop = (fp, prev)"
| "chained rd prev fp ((ret, at) # fs) stop \<longleftrightarrow>
     at = fp \<and> prev < fp \<and> fp AND 7 = 0 \<and> ret \<noteq> 0 \<and>
     (\<exists>next. rd fp = Some (next, ret) \<and> chained rd fp next fs stop)"

text \<open>Where no further frame hangs: a pointer not above the last, misaligned, unreadable or with no return address.\<close>

definition chain_ends :: "(u64 \<Rightarrow> (u64 \<times> u64) option) \<Rightarrow> u64 \<times> u64 \<Rightarrow> bool" where
  "chain_ends rd stop \<longleftrightarrow>
     (case stop of (fp, prev) \<Rightarrow>
        fp \<le> prev \<or> fp AND 7 \<noteq> 0 \<or> (case rd fp of None \<Rightarrow> True | Some (next, ret) \<Rightarrow> ret = 0))"

lemma walk_frames_chained:
  "\<exists>stop. chained rd prev fp (walk_frames n rd prev fp) stop \<and> length (walk_frames n rd prev fp) \<le> n \<and>
     (length (walk_frames n rd prev fp) = n \<or> chain_ends rd stop)"
proof (induction n rd prev fp rule: walk_frames.induct)
  case (2 n rd prev fp)
  then show ?case
    by (auto simp: chain_ends_def not_le split: option.split prod.split)
qed auto

lemma chained_climbs: "chained rd prev fp fs stop \<Longrightarrow> sorted_wrt (<) (prev # map snd fs)"
proof (induction rd prev fp fs stop rule: chained.induct)
  case (2 rd prev fp ret at fs stop)
  then show ?case by force
qed simp

text \<open>
  C28. A reported backtrace is a real chain of stack frames: below the frame of the thread's own
  registers, the frames start at the thread's frame pointer, every one is 8-aligned, strictly above
  the one before it and read from the target's memory, which links it to the next; there are at most
  \<^verbatim>\<open>max_frames\<close> in all, and fewer only where the chain itself ends. So a corrupt or cyclic stack
  cannot make the walk run on or report a frame twice.
\<close>

theorem backtrace_chain:
  assumes "fst (DebugBacktrace B req s) = (True, r)" and "g_debug s = Some h"
  shows "\<exists>tid ctx fs stop. svc_get_ctx B h tid (dworld s) = Some ctx \<and>
     idx (reply_json r) ''frames'' =
       JArr (json_fields [(''pc'', JStr (fmt_0xlx (ctx_pc ctx))), (''lr'', JStr (fmt_0xlx (ctx_lr ctx)))] #
             map (\<lambda>(ret, fp). frame_json ret fp) fs) \<and>
     chained (read_pair B h (dworld s)) 0 (ctx_fp ctx) fs stop \<and> distinct (map snd fs) \<and>
     length fs < int_arg req ''max_frames'' 32 64 \<and>
     (Suc (length fs) = int_arg req ''max_frames'' 32 64 \<or> chain_ends (read_pair B h (dworld s)) stop)"
proof -
  have m: "0 < int_arg req ''max_frames'' 32 64"
    by (simp add: int_arg_def Let_def)
  obtain tid ctx where c: "svc_get_ctx B h tid (dworld s) = Some ctx" "thread_arg B h req (dworld s) = Some tid"
    using assms by (auto simp: DebugBacktrace_def Attached_def Fail_def Let_def split: option.splits)
  define fs where "fs = walk_frames (int_arg req ''max_frames'' 32 64 - 1) (read_pair B h (dworld s)) 0 (ctx_fp ctx)"
  obtain stop where st: "chained (read_pair B h (dworld s)) 0 (ctx_fp ctx) fs stop"
      "length fs \<le> int_arg req ''max_frames'' 32 64 - 1"
      "length fs = int_arg req ''max_frames'' 32 64 - 1 \<or> chain_ends (read_pair B h (dworld s)) stop"
    using walk_frames_chained [of "read_pair B h (dworld s)" 0 "ctx_fp ctx" "int_arg req ''max_frames'' 32 64 - 1"]
    unfolding fs_def by blast
  have "sorted_wrt (<) (map snd fs)" using chained_climbs [OF st(1)] by simp
  then have "distinct (map snd fs)" by (simp add: strict_sorted_iff)
  moreover have "idx (reply_json r) ''frames'' =
       JArr (json_fields [(''pc'', JStr (fmt_0xlx (ctx_pc ctx))), (''lr'', JStr (fmt_0xlx (ctx_lr ctx)))] #
             map (\<lambda>(ret, fp). frame_json ret fp) fs)"
    using assms c by (auto simp: DebugBacktrace_def Attached_def Let_def success_def success_out_def fs_def idx_json_fields)
  ultimately show ?thesis using st m c(1) by fastforce
qed


text \<open>A stopped thread with two frames on its stack, the upper one the last.\<close>

definition stack_kernel :: "(u32 \<times> u64 \<times> u64) list dbg_api" where
  "stack_kernel = quiet_kernel\<lparr>
     svc_get_ctx := (\<lambda>h tid w. Some \<lparr>gprs = replicate 29 0, ctx_fp = 0x10, ctx_lr = 7, ctx_sp = 0x8, ctx_pc = 9\<rparr>),
     svc_read := (\<lambda>h addr n w.
        if addr = 0x10 then Some ([0x20, 0, 0, 0, 0, 0, 0, 0] @ [5, 0, 0, 0, 0, 0, 0, 0])
        else if addr = 0x20 then Some ([0x10, 0, 0, 0, 0, 0, 0, 0] @ [6, 0, 0, 0, 0, 0, 0, 0]) else None)\<rparr>"

theorem backtrace_chain_witness:
  "\<exists>r fs stop. fst (DebugBacktrace stack_kernel (debug_request [(''thread_id'', JInt 3)])
       \<lparr>dworld = [], g_debug = Some 5, g_pid = 77\<rparr>) = (True, r) \<and>
     chained (read_pair stack_kernel 5 []) 0 0x10 fs stop \<and> distinct (map snd fs) \<and> length fs < 32"
proof -
  let ?q = "debug_request [(''thread_id'', JInt 3)]"
  let ?s = "\<lparr>dworld = [], g_debug = Some (5 :: u32), g_pid = 77\<rparr>"
  have a: "as_int 0 (arg ?q ''thread_id'') = 3" "int_arg ?q ''max_frames'' 32 64 = 32"
    by (simp_all add: debug_request_def idx_def as_int_def int_arg_def Let_def to_i32_def)
  have c: "svc_get_ctx stack_kernel h t w =
      Some \<lparr>gprs = replicate 29 0, ctx_fp = 0x10, ctx_lr = 7, ctx_sp = 0x8, ctx_pc = 9\<rparr>" for h t w
    by (simp add: stack_kernel_def)
  obtain r where r: "fst (DebugBacktrace stack_kernel ?q ?s) = (True, r)"
    using a by (simp add: DebugBacktrace_def Attached_def thread_arg_def Let_def c success_def success_out_def del: dbg_api.select_convs)
  from backtrace_chain [OF r] a r c show ?thesis by fastforce
qed

section \<open>Registers\<close>

text \<open>What a request asks a register to become: its own value where it names none.\<close>

definition asked_reg :: "json \<Rightarrow> string \<Rightarrow> u64 \<Rightarrow> u64" where
  "asked_reg regs k old = (if has regs k then as_int 0 (idx regs k) else old)"

text \<open>The names of the registers, those of the general group (1) and those of the special group (2).\<close>

definition gpr_names :: "string list" where
  "gpr_names = map reg_key [0..<29] @ [''fp'', ''lr'']"

definition spr_names :: "string list" where
  "spr_names = [''sp'', ''pc'']"

definition gprs_upto :: "json \<Rightarrow> nat \<Rightarrow> u64 list \<Rightarrow> u64 list" where
  "gprs_upto regs n xs = map (\<lambda>i. if i < n then asked_reg regs (reg_key i) (xs ! i) else xs ! i) [0..<length xs]"

lemma gprs_upto_Suc:
  "n < length xs \<Longrightarrow>
   gprs_upto regs (Suc n) xs =
     (if has regs (reg_key n) then (gprs_upto regs n xs)[n := as_int 0 (idx regs (reg_key n))] else gprs_upto regs n xs)"
  by (rule nth_equalityI) (auto simp: gprs_upto_def asked_reg_def nth_list_update less_Suc_eq)

lemma patch_gprs:
  assumes "n \<le> length (gprs ctx)"
  shows "foldl (patch_gpr regs) \<lparr>rp_ctx = ctx, rp_groups = 0, rp_changed = 0\<rparr> [0..<n] =
    \<lparr>rp_ctx = ctx\<lparr>gprs := gprs_upto regs n (gprs ctx)\<rparr>,
     rp_groups = (if \<exists>k\<in>set (map reg_key [0..<n]). has regs k then 1 else 0),
     rp_changed = length (filter (has regs) (map reg_key [0..<n]))\<rparr>"
  using assms
proof (induction n)
  case 0
  then show ?case by (simp add: gprs_upto_def map_nth)
next
  case (Suc n)
  then have IH: "foldl (patch_gpr regs) \<lparr>rp_ctx = ctx, rp_groups = 0, rp_changed = 0\<rparr> [0..<n] =
    \<lparr>rp_ctx = ctx\<lparr>gprs := gprs_upto regs n (gprs ctx)\<rparr>,
     rp_groups = (if \<exists>k\<in>set (map reg_key [0..<n]). has regs k then 1 else 0),
     rp_changed = length (filter (has regs) (map reg_key [0..<n]))\<rparr>"
    by simp
  have g: "gprs_upto regs (Suc n) (gprs ctx) = (if has regs (reg_key n)
      then (gprs_upto regs n (gprs ctx))[n := as_int 0 (idx regs (reg_key n))] else gprs_upto regs n (gprs ctx))"
    using Suc.prems by (simp add: gprs_upto_Suc)
  show ?case
    unfolding upt_Suc_append [OF le0] foldl_append IH g by (simp add: patch_gpr_def)
qed


definition asked_context :: "json \<Rightarrow> thread_context \<Rightarrow> thread_context" where
  "asked_context regs ctx =
     \<lparr>gprs = map (\<lambda>i. asked_reg regs (reg_key i) (gprs ctx ! i)) [0..<29],
      ctx_fp = asked_reg regs ''fp'' (ctx_fp ctx), ctx_lr = asked_reg regs ''lr'' (ctx_lr ctx),
      ctx_sp = asked_reg regs ''sp'' (ctx_sp ctx), ctx_pc = asked_reg regs ''pc'' (ctx_pc ctx)\<rparr>"

definition asked_groups :: "json \<Rightarrow> u32" where
  "asked_groups regs =
     (if \<exists>k\<in>set gpr_names. has regs k then 1 else 0) OR (if \<exists>k\<in>set spr_names. has regs k then 2 else 0)"

lemma gprs_upto_all: "length xs = 29 \<Longrightarrow> gprs_upto regs 29 xs = map (\<lambda>i. asked_reg regs (reg_key i) (xs ! i)) [0..<29]"
  by (simp add: gprs_upto_def)

lemma patch_registers_exact:
  assumes "length (gprs ctx) = 29"
  shows "patch_registers regs ctx =
    \<lparr>rp_ctx = asked_context regs ctx, rp_groups = asked_groups regs,
     rp_changed = length (filter (has regs) (gpr_names @ spr_names))\<rparr>"
proof -
  define g where "g \<longleftrightarrow> (\<exists>k\<in>set (map reg_key [0..<29]). has regs k)"
  define n where "n = length (filter (has regs) (map reg_key [0..<29]))"
  have G: "asked_groups regs = (if g \<or> has regs ''fp'' \<or> has regs ''lr'' then 1 else 0) OR
      (if has regs ''sp'' \<or> has regs ''pc'' then 2 else 0)"
    unfolding asked_groups_def gpr_names_def g_def spr_names_def by (simp add: bex_Un)
  have N: "length (filter (has regs) (gpr_names @ spr_names)) =
      n + (if has regs ''fp'' then 1 else 0) + (if has regs ''lr'' then 1 else 0) +
      (if has regs ''sp'' then 1 else 0) + (if has regs ''pc'' then 1 else 0)"
    unfolding gpr_names_def n_def spr_names_def by simp
  have P: "foldl (patch_gpr regs) \<lparr>rp_ctx = ctx, rp_groups = 0, rp_changed = 0\<rparr> [0..<29] =
    \<lparr>rp_ctx = ctx\<lparr>gprs := map (\<lambda>i. asked_reg regs (reg_key i) (gprs ctx ! i)) [0..<29]\<rparr>,
     rp_groups = (if g then 1 else 0), rp_changed = n\<rparr>"
    using patch_gprs [of 29 ctx regs] assms unfolding g_def n_def gprs_upto_all [OF assms] by simp
  show ?thesis
    unfolding patch_registers_def P G N Let_def
    by (cases "has regs ''fp''"; cases "has regs ''lr''"; cases "has regs ''sp''"; cases "has regs ''pc''"; cases g)
      (simp_all add: patch_named_def asked_context_def asked_reg_def)
qed

text \<open>
  C26. Register writes are surgical: with a thread of 29 general registers to read, a request whose
  \<^verbatim>\<open>registers\<close> object names no register is refused and changes nothing; any other writes back the
  thread's own context with exactly the named registers replaced, in one kernel call, with the mask
  of exactly the groups those belong to (unless the request sets the mask itself), and succeeds if
  the kernel does.
\<close>

theorem write_registers_exact:
  assumes "g_debug s = Some h" "thread_arg B h req (dworld s) = Some tid"
    and "svc_get_ctx B h tid (dworld s) = Some ctx" "length (gprs ctx) = 29"
    and "is_object (arg req ''registers'')"
    and "DebugWriteRegisters B req s = ((ok, r), s')"
  shows "if \<exists>k\<in>set (gpr_names @ spr_names). has (arg req ''registers'') k
    then \<exists>mask rc. svc_set_ctx B h tid (asked_context (arg req ''registers'') ctx) mask (dworld s) = (rc, dworld s') \<and>
        (ok \<longleftrightarrow> rc = 0) \<and> (mask = asked_groups (arg req ''registers'') \<or> has (req_msg req) ''groups'')
    else \<not> ok \<and> s' = s"
proof -
  have e: "(\<exists>k\<in>set (gpr_names @ spr_names). has (arg req ''registers'') k) \<longleftrightarrow>
      length (filter (has (arg req ''registers'')) (gpr_names @ spr_names)) \<noteq> 0"
    by (simp only: length_0_conv filter_empty_conv) blast
  define p where "p = patch_registers (arg req ''registers'') ctx"
  have p: "rp_ctx p = asked_context (arg req ''registers'') ctx" "rp_groups p = asked_groups (arg req ''registers'')"
    "rp_changed p = length (filter (has (arg req ''registers'')) (gpr_names @ spr_names))"
    by (simp_all add: p_def patch_registers_exact [OF assms(4)])
  define mask where "mask = (if has (req_msg req) ''groups''
      then ucast (as_int (ucast (rp_groups p)) (arg req ''groups'')) else rp_groups p)"
  obtain rc w where c: "svc_set_ctx B h tid (rp_ctx p) mask (dworld s) = (rc, w)" by fastforce
  have "DebugWriteRegisters B req s =
      (if rp_changed p = 0
       then (Fail ''bad_arg'' (''no recognised register names in '' @ quoted ''registers''), s)
       else if rc \<noteq> 0 then (Fail ''ctx_failed'' (set_ctx_text rc tid mask), s\<lparr>dworld := w\<rparr>)
       else (success [(''groups'', JInt (ucast mask)), (''ok'', JBool True), (''thread_id'', JInt tid),
               (''registers_written'', JInt (word_of_nat (rp_changed p)))], s\<lparr>dworld := w\<rparr>))"
    by (simp add: DebugWriteRegisters_def Attached_def assms(1-3,5) p_def [symmetric] Let_def mask_def [symmetric] c)
  then show ?thesis
    unfolding e p(3) [symmetric] using assms(6) c
    by (auto simp: success_def success_out_def Fail_def p(1,2) mask_def split: if_splits)
qed

theorem write_registers_exact_witness:
  "let s = \<lparr>dworld = [], g_debug = Some 5, g_pid = 77\<rparr>;
       r = DebugWriteRegisters stack_kernel (debug_request [(''registers'', JObj [(''pc'', JInt 0x40)]), (''thread_id'', JInt 3)]) s
   in \<exists>rc. fst (fst r) = (rc = (0 :: u32)) \<and> svc_set_ctx stack_kernel 5 3
       \<lparr>gprs = replicate 29 0, ctx_fp = 0x10, ctx_lr = 7, ctx_sp = 8, ctx_pc = 0x40\<rparr> 2 [] = (rc, dworld (snd r))"
proof -
  let ?regs = "JObj [(''pc'', JInt 0x40)]"
  let ?q = "debug_request [(''registers'', ?regs), (''thread_id'', JInt 3)]"
  let ?s = "\<lparr>dworld = [], g_debug = Some (5 :: u32), g_pid = 77\<rparr>"
  let ?ctx = "\<lparr>gprs = replicate 29 0, ctx_fp = 0x10, ctx_lr = 7, ctx_sp = 0x8, ctx_pc = 9\<rparr> :: thread_context"
  have a: "arg ?q ''registers'' = ?regs" "thread_arg stack_kernel 5 ?q [] = Some 3" "\<not> has (req_msg ?q) ''groups''"
    by (simp_all add: debug_request_def idx_def as_int_def has_def thread_arg_def)
  have h: "has ?regs k \<longleftrightarrow> k = ''pc''" for k by (auto simp: has_def)
  have x: "reg_key i \<noteq> ''pc''" for i by (simp add: reg_key_def)
  have c: "svc_get_ctx stack_kernel 5 3 [] = Some ?ctx" by (simp add: stack_kernel_def)
  have n: "\<exists>k\<in>set (gpr_names @ spr_names). has ?regs k" by (simp add: h spr_names_def)
  have k: "asked_context ?regs ?ctx = \<lparr>gprs = replicate 29 0, ctx_fp = 0x10, ctx_lr = 7, ctx_sp = 8, ctx_pc = 0x40\<rparr>"
    using map_nth [of "replicate 29 (0 :: u64)"]
    by (simp add: asked_context_def asked_reg_def h x idx_def as_int_def del: map_nth)
  have g: "asked_groups ?regs = 2"
    by (simp add: asked_groups_def h gpr_names_def spr_names_def x image_iff x [symmetric])
  obtain ok r s' where r: "DebugWriteRegisters stack_kernel ?q ?s = ((ok, r), s')" by (metis prod.collapse)
  have "arg ?q ''registers'' = ?regs \<Longrightarrow> if \<exists>k\<in>set (gpr_names @ spr_names). has ?regs k
    then \<exists>mask rc. svc_set_ctx stack_kernel 5 3 (asked_context ?regs ?ctx) mask (dworld ?s) = (rc, dworld s') \<and>
        (ok \<longleftrightarrow> rc = 0) \<and> (mask = asked_groups ?regs \<or> has (req_msg ?q) ''groups'')
    else \<not> ok \<and> s' = ?s"
    by (erule subst, rule write_registers_exact [OF _ _ _ _ _ r]) (use a c in simp_all)
  then show ?thesis
    unfolding if_P [OF n] using a(1,3) r by (auto simp: k g)
qed

section \<open>The value search\<close>

text \<open>Every occurrence of the needle in a region, as the printed addresses, in order.\<close>

definition occurrences :: "byte list \<Rightarrow> u64 \<Rightarrow> nat \<Rightarrow> byte list \<Rightarrow> json list" where
  "occurrences ndl base o' bs =
     map (\<lambda>i. JStr (fmt_0xlx (base + word_of_nat (o' + i))))
       (filter (\<lambda>i. take (length ndl) (drop i bs) = ndl) [0..<length bs])"

text \<open>The regions the search visits: the first 512 at most, while queries succeed and addresses climb.\<close>

fun visited :: "nat \<Rightarrow> 'w dbg_api \<Rightarrow> u32 \<Rightarrow> u64 \<Rightarrow> 'w \<Rightarrow> memory_info list" where
  "visited 0 B h addr w = []"
| "visited (Suc i) B h addr w =
     (case svc_query B h addr w of
        None \<Rightarrow> []
      | Some mi \<Rightarrow> mi # (if mi_addr mi + mi_size mi \<le> addr then [] else visited i B h (mi_addr mi + mi_size mi) w))"

text \<open>What of a region is searched: its bytes where it is writable, mapped, at most 64 MiB and readable.\<close>

definition searched :: "'w dbg_api \<Rightarrow> nx_debug \<Rightarrow> nx_mem \<Rightarrow> u32 \<Rightarrow> 'w \<Rightarrow> memory_info \<Rightarrow> byte list" where
  "searched B D K h w mi =
     (if mi_perm mi AND Perm_W K \<noteq> 0 \<and> mi_type mi AND 0xFF \<noteq> Mem_Unmapped D \<and> mi_size mi \<le> 64 * 2 ^ 20
      then case svc_read B h (mi_addr mi) (unat (mi_size mi)) w of
             None \<Rightarrow> [] | Some bs \<Rightarrow> buffer_of (unat (mi_size mi)) bs
      else [])"

lemma occurrences_Cons:
  "occurrences ndl base o' (b # bs) =
   (if take (length ndl) (b # bs) = ndl then [JStr (fmt_0xlx (base + word_of_nat o'))] else []) @
   occurrences ndl base (Suc o') bs"
proof -
  have "[0..<length (b # bs)] = 0 # map Suc [0..<length bs]"
    by (simp add: map_Suc_upt upt_conv_Cons del: upt_Suc)
  then show ?thesis
    by (simp add: occurrences_def filter_map comp_def ac_simps del: upt_Suc)
qed

lemma occurrences_short: "length bs < length ndl \<Longrightarrow> occurrences ndl base o' bs = []"
  by (auto simp: occurrences_def filter_empty_conv dest: arg_cong [where f = length])

lemma scan_bytes_occurrences:
  "ndl \<noteq> [] \<Longrightarrow> scan_bytes ndl maxn base o' bs ms = ms @ take (maxn - length ms) (occurrences ndl base o' bs)"
proof (induction ndl maxn base o' bs ms rule: scan_bytes.induct)
  case (1 ndl maxn base off ms)
  then show ?case by (simp add: occurrences_def)
next
  case (2 ndl maxn base off b bs ms)
  then show ?case
    by (cases "length (b # bs) < length ndl")
      (auto simp: occurrences_short occurrences_Cons Suc_diff_le take_Cons' simp del: take_eq_Nil)
qed


definition all_occurrences ::
  "'w dbg_api \<Rightarrow> nx_debug \<Rightarrow> nx_mem \<Rightarrow> u32 \<Rightarrow> 'w \<Rightarrow> byte list \<Rightarrow> memory_info list \<Rightarrow> json list" where
  "all_occurrences B D K h w ndl mis =
     concat (map (\<lambda>mi. occurrences ndl (mi_addr mi) 0 (searched B D K h w mi)) mis)"

lemma search_region_occurrences:
  "ndl \<noteq> [] \<Longrightarrow> search_region B D K h ndl maxn w mi ms =
     ms @ take (maxn - length ms) (occurrences ndl (mi_addr mi) 0 (searched B D K h w mi))"
  by (auto simp: search_region_def searched_def scan_bytes_occurrences occurrences_def split: option.split)

lemma search_walk_occurrences:
  "ndl \<noteq> [] \<Longrightarrow> search_walk n B D K h ndl maxn addr w ms =
     ms @ take (maxn - length ms) (all_occurrences B D K h w ndl (visited n B h addr w))"
proof (induction n B D K h ndl maxn addr w ms rule: search_walk.induct)
  case (1 B D K h ndl maxn addr w ms)
  then show ?case by (simp add: all_occurrences_def)
next
  case (2 i B D K h ndl maxn addr w ms)
  show ?case
  proof (cases "length ms \<ge> maxn \<or> svc_query B h addr w = None")
    case True
    then show ?thesis by (auto simp: all_occurrences_def)
  next
    case False
    then obtain mi where mi: "svc_query B h addr w = Some mi" "length ms < maxn" by auto
    let ?ms = "search_region B D K h ndl maxn w mi ms"
    have s: "?ms = ms @ take (maxn - length ms) (occurrences ndl (mi_addr mi) 0 (searched B D K h w mi))"
      using 2(2) by (rule search_region_occurrences)
    show ?thesis
    proof (cases "mi_addr mi + mi_size mi \<le> addr")
      case True
      with mi s show ?thesis by (simp add: all_occurrences_def)
    next
      case n: False
      have "search_walk i B D K h ndl maxn (mi_addr mi + mi_size mi) w ?ms =
          ?ms @ take (maxn - length ?ms)
                  (all_occurrences B D K h w ndl (visited i B h (mi_addr mi + mi_size mi) w))"
        using 2 mi n by simp
      then show ?thesis
        using mi n s by (simp add: all_occurrences_def min_def)
    qed
  qed
qed

definition search_needle :: "request \<Rightarrow> byte list" where
  "search_needle req = take (search_width req) (le_bytes 8 (unat (as_int 0 (arg req ''value''))))"

lemma search_needle_nonempty: "search_needle req \<noteq> []"
  by (auto simp: search_needle_def search_width_def Let_def dest: arg_cong [where f = length])

text \<open>
  C27. The value search is exact: \<^verbatim>\<open>debug.search\<close> answers the first \<^verbatim>\<open>max\<close> of all the places, in the
  order of addresses walked and aligned or not, where the little-endian bytes of the value stand in
  a writable, mapped, readable region of at most 64 MiB among the first 512; the count is that of
  the answered ones, and \<^verbatim>\<open>truncated\<close> is reported as soon as \<^verbatim>\<open>max\<close> are found, also where these are
  all. The session and the target are left as they are.
\<close>

theorem debug_search_exact:
  assumes "g_debug s = Some h"
    and "places = all_occurrences B D K h (dworld s) (search_needle req) (visited 512 B h 0 (dworld s))"
  shows "DebugSearch B D K req s =
    (success [(''matches'', JArr (take (search_max req) places)),
       (''count'', JInt (word_of_nat (min (length places) (search_max req)))),
       (''truncated'', JBool (search_max req \<le> length places))], s)"
  using assms
  by (simp add: DebugSearch_def Attached_def Let_def search_needle_def [symmetric] search_needle_nonempty
      search_walk_occurrences)

text \<open>One writable region of three bytes, at 0.\<close>

definition search_kernel :: "(u32 \<times> u64 \<times> u64) list dbg_api" where
  "search_kernel = quiet_kernel\<lparr>
     svc_query := (\<lambda>h addr w. if addr = 0 then Some \<lparr>mi_addr = 0, mi_size = 3, mi_type = 1, mi_perm = 2\<rparr> else None),
     svc_read := (\<lambda>h addr n w. Some [7, 7, 1])\<rparr>"

definition nx_flags :: nx_mem where
  "nx_flags = \<lparr>Perm_R = 1, Perm_W = 2, Perm_X = 4, MemType_Heap = 5, MemType_Normal = 2, MemType_CodeMutable = 4,
     MemType_ModuleCodeMutable = 9\<rparr>"

lemma visited_numeral [simp]:
  "visited (numeral k) B h addr w =
     (case svc_query B h addr w of
        None \<Rightarrow> []
      | Some mi \<Rightarrow> mi # (if mi_addr mi + mi_size mi \<le> addr then []
                       else visited (pred_numeral k) B h (mi_addr mi + mi_size mi) w))"
  by (simp add: numeral_eq_Suc)

definition nx_codes :: nx_debug where
  "nx_codes = \<lparr>mem_names = [(0, ''unmapped'')], Mem_Unmapped = 0, Mem_CodeStatic = 3, Mem_ModuleCodeStatic = 8,
     Ev_CreateProcess = 0, Ev_CreateThread = 1, Ev_ExitProcess = 2, Ev_ExitThread = 3, Ev_Exception = 4,
     Ex_UndefinedInstruction = 0, Ex_InstructionAbort = 1, Ex_DataAbort = 2, Ex_AlignmentFault = 3,
     Ex_DebuggerAttached = 4, Ex_BreakPoint = 5, Ex_UserBreak = 6, Ex_DebuggerBreak = 7,
     Ex_UndefinedSystemCall = 8, Ex_MemorySystemError = 9\<rparr>"

lemma le_bytes_numeral:
  "le_bytes (numeral k) n = word_of_nat (n mod 256) # le_bytes (pred_numeral k) (n div 256)"
  by (simp only: numeral_eq_Suc [of k] le_bytes.simps)

theorem debug_search_exact_witness:
  "let s = \<lparr>dworld = [], g_debug = Some 5, g_pid = 77\<rparr>;
       r = DebugSearch search_kernel nx_codes nx_flags
             (debug_request [(''max'', JInt 1), (''value'', JInt 7), (''width'', JInt 1)]) s
   in r = (success [(''matches'', JArr [JStr (fmt_0xlx 0)]), (''count'', JInt 1), (''truncated'', JBool True)], s)"
proof -
  let ?q = "debug_request [(''max'', JInt 1), (''value'', JInt 7), (''width'', JInt 1)]"
  let ?s = "\<lparr>dworld = [], g_debug = Some (5 :: u32), g_pid = 77\<rparr>"
  have "search_width ?q = 1" "search_max ?q = 1"
    by (simp_all add: debug_request_def search_width_def search_max_def idx_def as_int_def to_i32_def Let_def
        word_sle_eq word_sless_alt)
  moreover have "le_bytes 8 (unat (as_int 0 (arg ?q ''value''))) = [7, 0, 0, 0, 0, 0, 0, 0]"
    by (simp add: debug_request_def idx_def as_int_def le_bytes_numeral)
  ultimately have n: "search_needle ?q = [7]" and m: "search_max ?q = 1"
    by (simp_all add: search_needle_def)
  have "visited 512 search_kernel 5 0 [] = [\<lparr>mi_addr = 0, mi_size = 3, mi_type = 1, mi_perm = 2\<rparr>]"
    by (simp add: search_kernel_def)
  moreover have "searched search_kernel nx_codes nx_flags 5 [] \<lparr>mi_addr = 0, mi_size = 3, mi_type = 1, mi_perm = 2\<rparr>
      = [7, 7, 1]"
    by (simp add: searched_def search_kernel_def nx_flags_def nx_codes_def buffer_of_def)
  ultimately have "all_occurrences search_kernel nx_codes nx_flags 5 (dworld ?s) (search_needle ?q)
      (visited 512 search_kernel 5 0 (dworld ?s)) = [JStr (fmt_0xlx 0), JStr (fmt_0xlx 1)]"
    by (simp add: all_occurrences_def n occurrences_def)
  from debug_search_exact [OF debugger.select_convs(2) this [symmetric]]
  have "DebugSearch search_kernel nx_codes nx_flags ?q ?s =
    (success [(''matches'', JArr (take 1 [JStr (fmt_0xlx 0), JStr (fmt_0xlx 1)])),
       (''count'', JInt (word_of_nat (min (length [JStr (fmt_0xlx 0), JStr (fmt_0xlx 1)]) 1))),
       (''truncated'', JBool (1 \<le> length [JStr (fmt_0xlx 0), JStr (fmt_0xlx 1)]))], ?s)"
    unfolding m .
  moreover have "take 1 [x, y] = [x]" "word_of_nat (min (length [x, y]) 1) = (1 :: u64)" "1 \<le> length [x, y]"
    for x y :: json by simp_all
  ultimately show ?thesis by (simp only: Let_def simp_thms)
qed

end
