(* ===== verification/DebugSession.thy ===== *)
theory DebugSession
  imports DebugLaws
begin

text \<open>
  The debugger over time: the sequence of debug requests a client sends, the one kernel handle it
  may hold, and the draining of the event queue.
\<close>

section \<open>Histories of debug requests\<close>

text \<open>
  The handler behind each debug command; one that only looks at the session, or asks the kernel for
  a change and notes its answer, is total, attaching and polling may not return.
\<close>

definition debug_handler ::
  "nat \<Rightarrow> 'w dbg_api \<Rightarrow> nx_debug \<Rightarrow> nx_mem \<Rightarrow> string \<Rightarrow> request \<Rightarrow> 'w debugger \<Rightarrow> ((bool \<times> reply) \<times> 'w debugger) option" where
  "debug_handler fuel B D K cmd req s =
     (if cmd = ''debug.attach'' then DebugAttach fuel B D req s
      else if cmd = ''debug.poll_events'' then DebugPollEvents fuel B D req s
      else if cmd = ''debug.detach'' then Some (DebugDetach B req s)
      else if cmd = ''debug.continue'' then Some (DebugContinue B req s)
      else if cmd = ''debug.break'' then Some (DebugBreak B req s)
      else if cmd = ''debug.read_mem'' then Some (DebugReadMem B req s)
      else if cmd = ''debug.write_mem'' then Some (DebugWriteMem B req s)
      else if cmd = ''debug.memmap'' then Some (DebugMemMap B D K req s)
      else if cmd = ''debug.threads'' then Some (DebugThreads B req s)
      else if cmd = ''debug.registers'' then Some (DebugRegisters B req s)
      else if cmd = ''debug.write_registers'' then Some (DebugWriteRegisters B req s)
      else if cmd = ''debug.search'' then Some (DebugSearch B D K req s)
      else if cmd = ''debug.set_hwbp_raw'' then Some (DebugSetHwBpRaw B req s)
      else if cmd = ''debug.set_watchpoint'' then Some (DebugSetWatchpoint B req s)
      else if cmd = ''debug.set_breakpoint'' then Some (DebugSetBreakpoint B req s)
      else if cmd = ''debug.clear_breakpoint'' then Some (DebugClearBreakpoint B req s)
      else if cmd = ''debug.modules'' then Some (DebugModules B req s)
      else Some (DebugBacktrace B req s))"

fun debug_run ::
  "nat \<Rightarrow> 'w dbg_api \<Rightarrow> nx_debug \<Rightarrow> nx_mem \<Rightarrow> (string \<times> request) list \<Rightarrow> 'w debugger \<Rightarrow> 'w debugger option" where
  "debug_run fuel B D K [] s = Some s"
| "debug_run fuel B D K ((cmd, req) # rs) s =
     (case debug_handler fuel B D K cmd req s of
        None \<Rightarrow> None
      | Some (_, s) \<Rightarrow> debug_run fuel B D K rs s)"

section \<open>One handle at most\<close>

text \<open>
  What the kernel documents of debug handles, \<open>opens\<close> being those the agent holds: debugging a
  process opens a new one or none, closing gives one back, nothing else opens or closes any.
\<close>

definition handle_laws :: "'w dbg_api \<Rightarrow> ('w \<Rightarrow> u32 set) \<Rightarrow> bool" where
  "handle_laws B opens \<longleftrightarrow>
     (\<forall>pid w. opens (snd (svc_debug B pid w)) = set_option (fst (svc_debug B pid w)) \<union> opens w) \<and>
     (\<forall>h w. opens (svc_close B h w) = opens w - {h}) \<and>
     (\<forall>h w. opens (snd (svc_event B h w)) = opens w) \<and>
     (\<forall>h f w. opens (svc_continue B h f w) = opens w) \<and>
     (\<forall>h w. opens (snd (svc_break B h w)) = opens w) \<and>
     (\<forall>h a bs w. opens (snd (svc_write B h a bs w)) = opens w) \<and>
     (\<forall>h t c g w. opens (snd (svc_set_ctx B h t c g w)) = opens w) \<and>
     (\<forall>n c v w. opens (snd (svc_hw_bp B n c v w)) = opens w)"

definition one_handle :: "('w \<Rightarrow> u32 set) \<Rightarrow> 'w debugger \<Rightarrow> bool" where
  "one_handle opens s \<longleftrightarrow> opens (dworld s) = set_option (g_debug s)"

lemma handle_lawsD:
  assumes "handle_laws B opens"
  shows "opens (snd (svc_debug B pid w)) = set_option (fst (svc_debug B pid w)) \<union> opens w"
    and "opens (svc_close B h w) = opens w - {h}"
    and "opens (snd (svc_event B h w)) = opens w"
    and "opens (ContinueAll B h w) = opens w"
    and "opens (snd (svc_break B h w)) = opens w"
    and "opens (snd (svc_write B h a bs w)) = opens w"
    and "opens (snd (svc_set_ctx B h t c g w)) = opens w"
    and "opens (snd (svc_hw_bp B n ctl v w)) = opens w"
  using assms unfolding handle_laws_def ContinueAll_def by simp_all

lemma DrainEvents_opens:
  assumes L: "handle_laws B opens"
  shows "DrainEvents fuel B D h arr w = Some (evs, w') \<Longrightarrow> opens w' = opens w"
proof (induction fuel arbitrary: arr w)
  case (Suc fuel)
  obtain ev v where e: "svc_event B h w = (ev, v)" by fastforce
  then have "opens v = opens w" using handle_lawsD(3) [OF L, of h w] by simp
  with Suc e show ?case by (cases ev) auto
qed simp

lemma one_handle_Attached:
  "one_handle opens s \<Longrightarrow> (\<And>h. one_handle opens (snd (k h))) \<Longrightarrow> one_handle opens (snd (Attached s k))"
  by (simp add: Attached_def split: option.split)

lemma one_handle_world:
  "one_handle opens s \<Longrightarrow> opens w = opens (dworld s) \<Longrightarrow> one_handle opens (s\<lparr>dworld := w\<rparr>)"
  by (simp add: one_handle_def)

lemma one_handle_close:
  "handle_laws B opens \<Longrightarrow> one_handle opens s \<Longrightarrow>
   g_debug (close_session B s) = None \<and> opens (dworld (close_session B s)) = {}"
  by (simp add: close_session_def one_handle_def handle_lawsD(2) split: option.split)

lemma one_handle_attach:
  assumes L: "handle_laws B opens" and "one_handle opens s" "DebugAttach fuel B D req s = Some (r, s')"
  shows "one_handle opens s'"
proof -
  define t where "t = close_session B s"
  have t: "g_debug t = None" "opens (dworld t) = {}"
    using one_handle_close [OF assms(1,2)] by (simp_all add: t_def)
  obtain d w where d: "svc_debug B (attach_pid B req (dworld t)) (dworld t) = (d, w)" by fastforce
  then have w: "opens w = set_option d"
    using handle_lawsD(1) [OF L, of "attach_pid B req (dworld t)" "dworld t"] t by simp
  have v: "opens v = set_option d" if "DrainEvents fuel B D h arr w = Some (evs, v)" for h arr evs v
    using DrainEvents_opens [OF L that] w by simp
  show ?thesis
    using assms(3) t d w
    by (cases d) (auto simp: DebugAttach_def Let_def t_def [symmetric] one_handle_def handle_lawsD(4) [OF L]
        split: if_splits option.splits prod.splits dest: v)
qed


lemma one_handle_changes:
  assumes L: "handle_laws B opens" and s: "one_handle opens s"
  shows "one_handle opens (snd (DebugContinue B req s))"
    and "one_handle opens (snd (DebugBreak B req s))"
    and "one_handle opens (snd (DebugWriteMem B req s))"
    and "one_handle opens (snd (DebugWriteRegisters B req s))"
    and "one_handle opens (snd (DebugSetHwBpRaw B req s))"
    and "one_handle opens (snd (DebugSetWatchpoint B req s))"
    and "one_handle opens (snd (DebugSetBreakpoint B req s))"
    and "one_handle opens (snd (DebugClearBreakpoint B req s))"
proof -
  have k: "one_handle opens (s\<lparr>dworld := w\<rparr>)" if "opens w = opens (dworld s)" for w
    using s that by (rule one_handle_world)
  note unfold = Let_def split_beta k handle_lawsD [OF L] s
  show "one_handle opens (snd (DebugContinue B req s))"
    by (auto simp: DebugContinue_def unfold intro!: one_handle_Attached)
  show "one_handle opens (snd (DebugBreak B req s))"
    by (auto simp: DebugBreak_def unfold intro!: one_handle_Attached)
  show "one_handle opens (snd (DebugWriteMem B req s))"
    by (auto simp: DebugWriteMem_def unfold intro!: one_handle_Attached)
  show "one_handle opens (snd (DebugWriteRegisters B req s))"
    unfolding DebugWriteRegisters_def
    by (rule one_handle_Attached [OF s]) (simp add: unfold split: option.split)
  show "one_handle opens (snd (DebugSetHwBpRaw B req s))"
    by (auto simp: DebugSetHwBpRaw_def unfold intro!: one_handle_Attached)
  show "one_handle opens (snd (DebugSetWatchpoint B req s))"
    unfolding DebugSetWatchpoint_def
    by (rule one_handle_Attached [OF s]) (simp add: unfold split: option.split)
  show "one_handle opens (snd (DebugSetBreakpoint B req s))"
    unfolding DebugSetBreakpoint_def
    by (rule one_handle_Attached [OF s]) (simp add: unfold)
  show "one_handle opens (snd (DebugClearBreakpoint B req s))"
    unfolding DebugClearBreakpoint_def
    by (rule one_handle_Attached [OF s]) (simp add: unfold)
qed

lemma looks_only:
  "snd (DebugReadMem B req s) = s" "snd (DebugMemMap B D K req s) = s" "snd (DebugThreads B req s) = s"
  "snd (DebugRegisters B req s) = s" "snd (DebugSearch B D K req s) = s" "snd (DebugModules B req s) = s"
  "snd (DebugBacktrace B req s) = s"
  by (auto simp: DebugReadMem_def DebugMemMap_def DebugThreads_def DebugRegisters_def DebugSearch_def
      DebugModules_def DebugBacktrace_def Attached_def Let_def split: option.split)

lemma one_handle_detach:
  assumes "handle_laws B opens" "one_handle opens s"
  shows "one_handle opens (snd (DebugDetach B req s))" "opens (dworld (snd (DebugDetach B req s))) = {}"
  using assms by (simp_all add: DebugDetach_def one_handle_def handle_lawsD(2) split: option.split)

lemma one_handle_poll:
  assumes L: "handle_laws B opens" and "one_handle opens s" "DebugPollEvents fuel B D req s = Some (r, s')"
  shows "one_handle opens s'"
  using assms(2,3)
  by (auto simp: DebugPollEvents_def one_handle_def handle_lawsD(4) [OF L] split: option.splits if_splits
      dest: DrainEvents_opens [OF L])

lemma one_handle_step:
  assumes L: "handle_laws B opens" and s: "one_handle opens s"
    and r: "debug_handler fuel B D K cmd req s = Some (r, s')"
  shows "one_handle opens s'"
proof (cases "cmd = ''debug.attach'' \<or> cmd = ''debug.poll_events''")
  case True
  then show ?thesis
    using r by (elim disjE) (auto simp: debug_handler_def intro: one_handle_attach [OF L s] one_handle_poll [OF L s])
next
  case False
  have "one_handle opens (snd q)" if "debug_handler fuel B D K cmd req s = Some q" for q
    using that False unfolding debug_handler_def
    by (auto simp: looks_only s one_handle_changes [OF L s] one_handle_detach [OF L s] split: if_splits)
  with r show ?thesis by fastforce
qed


lemma debug_run_append:
  "debug_run fuel B D K (xs @ ys) s =
     (case debug_run fuel B D K xs s of None \<Rightarrow> None | Some s' \<Rightarrow> debug_run fuel B D K ys s')"
  by (induction xs arbitrary: s) (auto split: option.split)

lemma one_handle_run:
  assumes "handle_laws B opens"
  shows "one_handle opens s \<Longrightarrow> debug_run fuel B D K cmds s = Some s' \<Longrightarrow> one_handle opens s'"
proof (induction cmds arbitrary: s)
  case (Cons c cmds)
  then obtain cmd req r t where "c = (cmd, req)" "debug_handler fuel B D K cmd req s = Some (r, t)"
      "debug_run fuel B D K cmds t = Some s'"
    by (cases c) (auto split: option.splits)
  then show ?case using Cons one_handle_step [OF assms] by metis
qed simp

text \<open>
  C29. The debugger never leaks a kernel handle: over any history of debug requests, attaches to a
  second process and failing calls included, the handles the kernel has given the agent are exactly
  the one of the current session, if there is one; and a history that ends with a detach leaves none,
  so the target runs on.
\<close>

theorem debug_one_handle:
  assumes "handle_laws B opens" "one_handle opens s" "debug_run fuel B D K cmds s = Some s'"
  shows "opens (dworld s') = set_option (g_debug s') \<and>
    (\<forall>front req. cmds = front @ [(''debug.detach'', req)] \<longrightarrow> opens (dworld s') = {})"
proof (intro conjI allI impI)
  show "opens (dworld s') = set_option (g_debug s')"
    using one_handle_run [OF assms] by (simp add: one_handle_def)
next
  fix front req
  assume c: "cmds = front @ [(''debug.detach'', req)]"
  then obtain t where t: "debug_run fuel B D K front s = Some t" "s' = snd (DebugDetach B req t)"
    using assms(3) by (auto simp: debug_run_append debug_handler_def split: option.splits prod.splits)
  show "opens (dworld s') = {}"
    using one_handle_detach [OF assms(1) one_handle_run [OF assms(1,2) t(1)]] t(2) by simp
qed

text \<open>A kernel that hands out the handles 1, 2, ...; its world is the next one and those given out.\<close>

definition handing_kernel :: "(u32 \<times> u32 set) dbg_api" where
  "handing_kernel =
     \<lparr>fg_pid = (\<lambda>_. None), svc_debug = (\<lambda>_ (n, H). (Some n, (n + 1, insert n H))),
      svc_close = (\<lambda>h (n, H). (n, H - {h})), svc_query = (\<lambda>_ _ _. None), svc_event = (\<lambda>_ w. (None, w)),
      svc_continue = (\<lambda>_ _ w. w), svc_break = (\<lambda>_ w. (True, w)), svc_read = (\<lambda>_ _ _ _. None),
      svc_write = (\<lambda>_ _ _ w. (False, w)), svc_threads = (\<lambda>_ _ _. None), stack_word = (\<lambda>_. 0),
      svc_get_ctx = (\<lambda>_ _ _. None), svc_set_ctx = (\<lambda>_ _ _ _ w. (0, w)),
      svc_hw_bp = (\<lambda>_ _ _ w. (0, w)), ldr_modules = (\<lambda>_ _. None)\<rparr>"

lemma handing_kernel_laws: "handle_laws handing_kernel snd"
  by (simp add: handle_laws_def handing_kernel_def split_beta)

theorem debug_one_handle_witness:
  "\<exists>s'. debug_run 1 handing_kernel nx_codes nx_flags
      [(''debug.attach'', debug_request [(''pid'', JInt 7)]), (''debug.attach'', debug_request [(''pid'', JInt 8)])]
      \<lparr>dworld = (1, {}), g_debug = None, g_pid = 0\<rparr> = Some s' \<and>
     snd (dworld s') = set_option (g_debug s')"
proof -
  let ?s = "\<lparr>dworld = (1, {}), g_debug = None, g_pid = 0\<rparr> :: (u32 \<times> u32 set) debugger"
  let ?a = "\<lambda>p. debug_request [(''pid'', JInt p)]"
  have a: "as_int 0 (arg (?a p) ''pid'') = p" "as_bool True (arg (?a p) ''pause'') = True" for p
    by (simp_all add: debug_request_def idx_def as_int_def as_bool_def)
  have H: "\<exists>r s'. debug_handler 1 handing_kernel nx_codes nx_flags ''debug.attach'' (?a p) s = Some (r, s')"
    if "p \<noteq> 0" for p s
    using that by (cases "g_debug s")
      (auto simp: debug_handler_def DebugAttach_def attach_pid_def a Let_def split: option.split prod.split)
  have n: "(7 :: u64) \<noteq> 0" "(8 :: u64) \<noteq> 0" by simp_all
  obtain r1 s1 where 1: "debug_handler 1 handing_kernel nx_codes nx_flags ''debug.attach'' (?a 7) ?s = Some (r1, s1)"
    using H [OF n(1), of ?s] by (elim exE)
  obtain r2 s2 where 2: "debug_handler 1 handing_kernel nx_codes nx_flags ''debug.attach'' (?a 8) s1 = Some (r2, s2)"
    using H [OF n(2), of s1] by (elim exE)
  have r: "debug_run 1 handing_kernel nx_codes nx_flags
      [(''debug.attach'', ?a 7), (''debug.attach'', ?a 8)] ?s = Some s2"
    by (simp only: debug_run.simps 1 2 option.case prod.case)
  from debug_one_handle [OF handing_kernel_laws _ r] r show ?thesis
    by (simp add: one_handle_def)
qed

section \<open>The event queue\<close>

text \<open>
  The kernel's queue of events, as the list \<open>pend\<close> of those not yet fetched: a fetch takes the first,
  and fails on the empty queue; resuming the target does not queue any by itself.
\<close>

definition event_queue :: "'w dbg_api \<Rightarrow> ('w \<Rightarrow> debug_event list) \<Rightarrow> bool" where
  "event_queue B pend \<longleftrightarrow>
     (\<forall>h w. fst (svc_event B h w) = (case pend w of [] \<Rightarrow> None | e # _ \<Rightarrow> Some e) \<and>
            pend (snd (svc_event B h w)) = tl (pend w)) \<and>
     (\<forall>h f w. pend (svc_continue B h f w) = pend w)"

lemma DrainEvents_queue:
  assumes "event_queue B pend"
  shows "length (pend w) < fuel \<Longrightarrow>
    \<exists>w'. DrainEvents fuel B D h arr w = Some (arr @ map (event_json D) (pend w), w') \<and> pend w' = []"
proof (induction fuel arbitrary: arr w)
  case (Suc fuel)
  obtain ev v where e: "svc_event B h w = (ev, v)" by fastforce
  have q: "ev = (case pend w of [] \<Rightarrow> None | e # _ \<Rightarrow> Some e)" "pend v = tl (pend w)"
    using assms e unfolding event_queue_def by (metis fst_conv, metis snd_conv)
  show ?case
  proof (cases "pend w")
    case Nil
    then show ?thesis using e q by simp
  next
    case (Cons x xs)
    then show ?thesis using e q Suc.IH [of v "arr @ [event_json D x]"] Suc.prems by auto
  qed
qed simp




end
