(* ===== verification/Vpad.thy ===== *)
theory Vpad
  imports ServerLaws
begin

text \<open>
  The virtual controller and the input commands (\<^verbatim>\<open>handlers/input.cpp\<close>): attaching and releasing
  the pad, button presses with a hold, the keyboard and the touch screen. The input services of
  libnx are a record of functions over an abstract world; its button and modifier constants are
  fields of the same record.
\<close>

section \<open>The services\<close>

text \<open>The buttons of \<^verbatim>\<open>HidNpadButton\<close> the agent names, in the order of \<^verbatim>\<open>kButtonNames\<close>.\<close>

datatype npad_button =
  Npad_A | Npad_B | Npad_X | Npad_Y | Npad_StickL | Npad_StickR | Npad_L | Npad_R | Npad_ZL | Npad_ZR |
  Npad_Plus | Npad_Minus | Npad_Left | Npad_Up | Npad_Right | Npad_Down

record pad_state =
  pad_buttons :: u64
  pad_lx :: i32
  pad_ly :: i32
  pad_rx :: i32
  pad_ry :: i32
  battery_level :: u32
  pad_flags :: u32

datatype hid_device_type = HidDeviceType_FullKey3

datatype npad_interface = HidNpadInterfaceType_Bluetooth

record hdls_device =
  device_type :: hid_device_type
  npad_interface_type :: npad_interface
  single_color_body :: u32
  single_color_buttons :: u32
  color_left_grip :: u32
  color_right_grip :: u32

record key_state =
  modifiers :: u64
  pressed_keys :: "u64 list"

record touch_state =
  touch_x :: i32
  touch_y :: i32
  diameter_x :: u32
  diameter_y :: u32

record 'w hid_api =
  npad_bit :: "npad_button \<Rightarrow> u64"
  modifier_shift :: u64
  hdls_attach_buffer :: "'w \<Rightarrow> u64 option \<times> 'w"
  hdls_release_buffer :: "u64 \<Rightarrow> 'w \<Rightarrow> 'w"
  hdls_attach_device :: "hdls_device \<Rightarrow> 'w \<Rightarrow> u64 option \<times> 'w"
  hdls_detach_device :: "u64 \<Rightarrow> 'w \<Rightarrow> 'w"
  hdls_set_state :: "u64 \<Rightarrow> pad_state \<Rightarrow> 'w \<Rightarrow> bool \<times> 'w"
  keyboard_set :: "key_state \<Rightarrow> 'w \<Rightarrow> bool \<times> 'w"
  keyboard_unset :: "'w \<Rightarrow> 'w"
  touch_set :: "touch_state \<Rightarrow> 'w \<Rightarrow> bool \<times> 'w"
  touch_unset :: "'w \<Rightarrow> 'w"
  sleep_ns :: "u64 \<Rightarrow> 'w \<Rightarrow> 'w"
  handheld_pad :: "'w \<Rightarrow> (pad_state \<times> u64) option"
  full_key_pad :: "'w \<Rightarrow> pad_state option"
  app_pid :: "'w \<Rightarrow> u64 option"

section \<open>The virtual controller\<close>

record 'w vpad =
  pworld :: 'w
  g_attached :: bool
  g_session :: u64
  g_handle :: u64
  g_state :: pad_state

definition virtual_pad :: hdls_device where
  "virtual_pad =
     \<lparr>device_type = HidDeviceType_FullKey3, npad_interface_type = HidNpadInterfaceType_Bluetooth,
      single_color_body = 0xFFFFFFFF, single_color_buttons = 0xFF000000,
      color_left_grip = 0xFF666666, color_right_grip = 0xFF666666\<rparr>"

definition Ensure :: "'w hid_api \<Rightarrow> 'w vpad \<Rightarrow> bool \<times> 'w vpad" where
  "Ensure H s =
     (if g_attached s then (True, s)
      else case hdls_attach_buffer H (pworld s) of
             (None, w) \<Rightarrow> (False, s\<lparr>pworld := w\<rparr>)
           | (Some session, w) \<Rightarrow>
               let s = s\<lparr>pworld := w, g_session := session, g_state := (g_state s)\<lparr>battery_level := 4, pad_flags := 0\<rparr>\<rparr>
               in case hdls_attach_device H virtual_pad w of
                    (None, w) \<Rightarrow> (False, s\<lparr>pworld := hdls_release_buffer H session w\<rparr>)
                  | (Some handle, w) \<Rightarrow> (True, s\<lparr>pworld := w, g_handle := handle, g_attached := True\<rparr>))"

definition Release :: "'w hid_api \<Rightarrow> 'w vpad \<Rightarrow> 'w vpad" where
  "Release H s =
     (if \<not> g_attached s then s
      else let st = (g_state s)\<lparr>pad_buttons := 0\<rparr>;
               w = snd (hdls_set_state H (g_handle s) st (pworld s));
               w = hdls_detach_device H (g_handle s) w;
               w = hdls_release_buffer H (g_session s) w
           in s\<lparr>pworld := w, g_state := st, g_attached := False\<rparr>)"

definition SetButtons ::
  "'w hid_api \<Rightarrow> u64 \<Rightarrow> i32 \<Rightarrow> i32 \<Rightarrow> i32 \<Rightarrow> i32 \<Rightarrow> 'w vpad \<Rightarrow> bool \<times> 'w vpad" where
  "SetButtons H buttons lx ly rx' ry' s =
     (case Ensure H s of
        (False, s) \<Rightarrow> (False, s)
      | (True, s) \<Rightarrow>
          let st = (g_state s)\<lparr>pad_buttons := buttons, pad_lx := lx, pad_ly := ly, pad_rx := rx', pad_ry := ry'\<rparr>;
              (ok, w) = hdls_set_state H (g_handle s) st (pworld s)
          in (ok, s\<lparr>g_state := st, pworld := w\<rparr>))"

definition pad_sleep :: "'w hid_api \<Rightarrow> u64 \<Rightarrow> 'w vpad \<Rightarrow> 'w vpad" where
  "pad_sleep H ns s = s\<lparr>pworld := sleep_ns H ns (pworld s)\<rparr>"

section \<open>Buttons and sticks\<close>

definition button_table :: "(string \<times> npad_button) list" where
  "button_table =
     [(''A'', Npad_A), (''B'', Npad_B), (''X'', Npad_X), (''Y'', Npad_Y), (''L'', Npad_L), (''R'', Npad_R),
      (''ZL'', Npad_ZL), (''ZR'', Npad_ZR), (''PLUS'', Npad_Plus), (''MINUS'', Npad_Minus),
      (''DUP'', Npad_Up), (''DDOWN'', Npad_Down), (''DLEFT'', Npad_Left), (''DRIGHT'', Npad_Right),
      (''LSTICK'', Npad_StickL), (''RSTICK'', Npad_StickR)]"

definition ButtonMask :: "'w hid_api \<Rightarrow> string \<Rightarrow> u64" where
  "ButtonMask H name = (case map_of button_table name of None \<Rightarrow> 0 | Some b \<Rightarrow> npad_bit H b)"

text \<open>\<^verbatim>\<open>v > 1.0\<close> on the magnitude of a double; a NaN compares false.\<close>

definition dbl_one :: dbl where "dbl_one = 0x3FF0000000000000"
definition dbl_minus_one :: dbl where "dbl_minus_one = 0xBFF0000000000000"

definition beyond_one :: "dbl \<Rightarrow> bool" where
  "beyond_one v \<longleftrightarrow> (if dbl_finite v then dbl_den v < dbl_num v else dbl_frac v = 0)"

definition clamp_unit :: "dbl \<Rightarrow> dbl" where
  "clamp_unit v =
     (if beyond_one v \<and> \<not> dbl_neg v then dbl_one else if beyond_one v then dbl_minus_one else v)"

text \<open>The product with an integer constant, rounded as the multiplication of doubles is.\<close>

definition dbl_times :: "dbl \<Rightarrow> nat \<Rightarrow> dbl" where
  "dbl_times v k = (if dbl_finite v then dbl_of_frac (dbl_neg v) (dbl_num v * k) (dbl_den v) else v)"

definition StickAxis :: "dbl \<Rightarrow> i32" where
  "StickAxis v = to_i32 (d2i (dbl_times (clamp_unit v) 32767))"

definition buttons_mask :: "'w hid_api \<Rightarrow> json \<Rightarrow> u64" where
  "buttons_mask H v = foldl (\<lambda>m b. m OR ButtonMask H (as_string [] b)) 0 (as_array v)"

text \<open>A signed 64-bit value held within bounds.\<close>

definition clamp_i64 :: "i64 \<Rightarrow> i64 \<Rightarrow> i64 \<Rightarrow> i64" where
  "clamp_i64 lo hi v = (let v = (if v <s lo then lo else v) in if hi <s v then hi else v)"

definition Input :: "'w hid_api \<Rightarrow> request \<Rightarrow> 'w vpad \<Rightarrow> (bool \<times> reply) \<times> 'w vpad" where
  "Input H req s =
     (case Ensure H s of
        (False, s) \<Rightarrow> (Fail ''hdls_failed'' ''cannot attach virtual pad'', s)
      | (True, s) \<Rightarrow>
          let mask = buttons_mask H (arg req ''buttons'');
              sticks = arg req ''sticks'';
              hold_ms = clamp_i64 0 10000 (as_int 100 (arg req ''hold_ms''));
              s = snd (SetButtons H mask (StickAxis (as_double 0 (idx sticks ''lx'')))
                    (StickAxis (as_double 0 (idx sticks ''ly''))) (StickAxis (as_double 0 (idx sticks ''rx'')))
                    (StickAxis (as_double 0 (idx sticks ''ry''))) s);
              s = pad_sleep H (hold_ms * 1000000) s;
              s = snd (SetButtons H 0 0 0 0 0 s)
          in (success [(''ok'', JBool True)], s))"

section \<open>The keyboard\<close>

text \<open>The usage id of the key that types a character, and whether with Shift.\<close>

definition symbol_keys :: "(char \<times> nat \<times> bool) list" where
  "symbol_keys =
     [(CHR '' '', 44, False), (CHR 0x0A, 40, False), (CHR ''-'', 45, False), (CHR ''_'', 45, True),
      (CHR ''='', 46, False), (CHR ''+'', 46, True), (CHR ''['', 47, False), (CHR '']'', 48, False),
      (CHR 0x5C, 49, False), (CHR '';'', 51, False), (CHR '':'', 51, True), (CHR 0x27, 52, False),
      (CHR 0x22, 52, True), (CHR '','', 54, False), (CHR ''<'', 54, True), (CHR ''.'', 55, False),
      (CHR ''>'', 55, True), (CHR ''/'', 56, False), (CHR ''?'', 56, True), (CHR ''!'', 30, True),
      (CHR ''@'', 31, True), (CHR ''#'', 32, True), (CHR ''$'', 33, True), (CHR ''%'', 34, True),
      (CHR ''^'', 35, True), (CHR ''&'', 36, True), (CHR ''*'', 37, True), (CHR ''('', 38, True),
      (CHR '')'', 39, True)]"

definition CharToKey :: "char \<Rightarrow> (nat \<times> bool) option" where
  "CharToKey c =
     (let n = code c
      in if code (CHR ''a'') \<le> n \<and> n \<le> code (CHR ''z'') then Some (4 + (n - code (CHR ''a'')), False)
         else if code (CHR ''A'') \<le> n \<and> n \<le> code (CHR ''Z'') then Some (4 + (n - code (CHR ''A'')), True)
         else if code (CHR ''1'') \<le> n \<and> n \<le> code (CHR ''9'') then Some (30 + (n - code (CHR ''1'')), False)
         else if c = CHR ''0'' then Some (39, False)
         else map_of symbol_keys c)"

definition no_keys :: key_state where
  "no_keys = \<lparr>modifiers = 0, pressed_keys = replicate 4 0\<rparr>"

definition key_down :: "'w hid_api \<Rightarrow> nat \<times> bool \<Rightarrow> key_state" where
  "key_down H k =
     \<lparr>modifiers = (if snd k then modifier_shift H else 0),
      pressed_keys = (replicate 4 0)[fst k div 64 := push_bit (fst k mod 64) 1]\<rparr>"

text \<open>The loop over the characters; \<open>None\<close> where the service refuses a key.\<close>

fun type_loop :: "'w hid_api \<Rightarrow> u64 \<Rightarrow> string \<Rightarrow> nat \<Rightarrow> 'w vpad \<Rightarrow> nat option \<times> 'w vpad" where
  "type_loop H key_ns [] typed s = (Some typed, s)"
| "type_loop H key_ns (c # cs) typed s =
     (case CharToKey c of
        None \<Rightarrow> type_loop H key_ns cs typed s
      | Some k \<Rightarrow>
          (case keyboard_set H (key_down H k) (pworld s) of
             (False, w) \<Rightarrow> (None, s\<lparr>pworld := w\<rparr>)
           | (True, w) \<Rightarrow>
               let w = sleep_ns H key_ns w;
                   w = snd (keyboard_set H no_keys w);
                   w = sleep_ns H key_ns w
               in type_loop H key_ns cs (Suc typed) (s\<lparr>pworld := w\<rparr>)))"

definition TypeText :: "'w hid_api \<Rightarrow> request \<Rightarrow> 'w vpad \<Rightarrow> (bool \<times> reply) \<times> 'w vpad" where
  "TypeText H req s =
     (let txt = as_string [] (arg req ''text'')
      in if txt = [] then (Fail ''bad_arg'' ''missing text'', s)
         else let key_ms = clamp_i64 10 500 (as_int 40 (arg req ''key_ms''))
              in case type_loop H (key_ms * 1000000) txt 0 s of
                   (None, s) \<Rightarrow> (Fail ''kbd_failed'' ''keyboard auto-pilot state failed'', s)
                 | (Some typed, s) \<Rightarrow>
                     (success [(''ok'', JBool True), (''typed'', JInt (word_of_nat typed))],
                      s\<lparr>pworld := keyboard_unset H (pworld s)\<rparr>))"

section \<open>The touch screen\<close>

text \<open>C++ division of 32-bit signed integers by 10, towards zero, and the wrap-around of the target.\<close>

definition div_steps :: "i32 \<Rightarrow> i32" where
  "div_steps v = word_of_int (if sint v < 0 then - (- sint v div 10) else sint v div 10)"

definition touch_at :: "i32 \<Rightarrow> i32 \<Rightarrow> i32 \<Rightarrow> i32 \<Rightarrow> nat \<Rightarrow> touch_state" where
  "touch_at x y x2 y2 i =
     \<lparr>touch_x = x + div_steps ((x2 - x) * word_of_nat i), touch_y = y + div_steps ((y2 - y) * word_of_nat i),
      diameter_x = 15, diameter_y = 15\<rparr>"

fun touch_loop :: "'w hid_api \<Rightarrow> u64 \<Rightarrow> touch_state list \<Rightarrow> 'w vpad \<Rightarrow> bool \<times> 'w vpad" where
  "touch_loop H step_ns [] s = (True, s)"
| "touch_loop H step_ns (t # ts) s =
     (case touch_set H t (pworld s) of
        (False, w) \<Rightarrow> (False, s\<lparr>pworld := w\<rparr>)
      | (True, w) \<Rightarrow> touch_loop H step_ns ts (s\<lparr>pworld := sleep_ns H step_ns w\<rparr>))"

definition Touch :: "'w hid_api \<Rightarrow> request \<Rightarrow> 'w vpad \<Rightarrow> (bool \<times> reply) \<times> 'w vpad" where
  "Touch H req s =
     (let x = to_i32 (as_int 0 (arg req ''x'')); y = to_i32 (as_int 0 (arg req ''y''));
          x2 = to_i32 (as_int (of_i32 x) (arg req ''x2'')); y2 = to_i32 (as_int (of_i32 y) (arg req ''y2''));
          duration_ms = clamp_i64 10 5000 (as_int 50 (arg req ''duration_ms''))
      in case touch_loop H (duration_ms * 1000000 div 10) (map (touch_at x y x2 y2) [0..<11]) s of
           (False, s) \<Rightarrow> (Fail ''touch_failed'' ''auto-pilot state failed'', s)
         | (True, s) \<Rightarrow> (success [(''ok'', JBool True)], s\<lparr>pworld := touch_unset H (pworld s)\<rparr>))"

end
