(* ===== verification/Events.thy ===== *)
theory Events
  imports Vpad
begin

text \<open>
  Waiting for events, recording and reading the controller (\<^verbatim>\<open>handlers/events.cpp\<close>), and the
  thread that clears the lock screen and keeps the console awake (\<^verbatim>\<open>lockscreen.cpp\<close>), the second
  user of the virtual controller. The loops sleep a fixed time per round and end at a bound of the
  code; they recurse on the time left.
\<close>

section \<open>Looking at the console\<close>

definition kMaxWaitMs :: nat where "kMaxWaitMs = 20000"
definition kPollNs :: u64 where "kPollNs = 200000000"

definition AppRunning :: "'w hid_api \<Rightarrow> 'w \<Rightarrow> bool \<times> u64" where
  "AppRunning H w = (case app_pid H w of None \<Rightarrow> (False, 0) | Some pid \<Rightarrow> (pid \<noteq> 0, pid))"

text \<open>The handheld pad where it has been sampled, else the first controller.\<close>

definition ReadPad :: "'w hid_api \<Rightarrow> 'w \<Rightarrow> pad_state option" where
  "ReadPad H w =
     (case handheld_pad H w of
        Some (st, sampling) \<Rightarrow> if sampling \<noteq> 0 then Some st else full_key_pad H w
      | None \<Rightarrow> full_key_pad H w)"

definition kButtonNames :: "string list" where
  "kButtonNames =
     [''A'', ''B'', ''X'', ''Y'', ''LSTICK'', ''RSTICK'', ''L'', ''R'', ''ZL'', ''ZR'',
      ''PLUS'', ''MINUS'', ''DLEFT'', ''DUP'', ''DRIGHT'', ''DDOWN'']"

definition ButtonsToArray :: "u64 \<Rightarrow> json" where
  "ButtonsToArray b = JArr (map (\<lambda>i. JStr (kButtonNames ! i)) (filter (\<lambda>i. b AND push_bit i 1 \<noteq> 0) [0..<16]))"

text \<open>A duration in milliseconds from the request, within bounds.\<close>

definition ms_arg :: "request \<Rightarrow> string \<Rightarrow> i64 \<Rightarrow> nat \<Rightarrow> nat" where
  "ms_arg req k dflt lo =
     (let v = sint (to_i32 (as_int dflt (arg req k)))
      in if v < int lo then lo else if v > int kMaxWaitMs then kMaxWaitMs else nat v)"

section \<open>Waiting\<close>

definition fired_app :: "string \<Rightarrow> nat \<Rightarrow> bool \<times> u64 \<Rightarrow> bool \<times> reply" where
  "fired_app what waited app =
     success ([(''fired'', JBool True), (''event'', JStr what), (''waited_ms'', JInt (word_of_nat waited)),
        (''running'', JBool (fst app))] @ (if fst app then [(''pid'', JInt (snd app))] else []))"

definition fired_button :: "string \<Rightarrow> nat \<Rightarrow> u64 \<Rightarrow> bool \<times> reply" where
  "fired_button what waited b =
     success [(''fired'', JBool True), (''event'', JStr what), (''waited_ms'', JInt (word_of_nat waited)),
       (''buttons'', ButtonsToArray b)]"

definition not_fired :: "string \<Rightarrow> nat \<Rightarrow> bool \<times> reply" where
  "not_fired what waited =
     success [(''fired'', JBool False), (''event'', JStr what), (''waited_ms'', JInt (word_of_nat waited)),
       (''note'', JStr ''timed out; nothing happened within the window'')]"

definition held_already :: "string \<Rightarrow> bool \<times> u64 \<Rightarrow> bool \<times> reply" where
  "held_already what app =
     success ([(''fired'', JBool True), (''event'', JStr what), (''waited_ms'', JInt 0), (''running'', JBool (fst app))] @
        (if fst app then [(''pid'', JInt (snd app))] else []) @
        [(''note'', JStr ''condition already held; returned immediately'')])"

text \<open>What the poll tests, for the three events about applications.\<close>

definition app_event :: "string \<Rightarrow> bool \<times> u64 \<Rightarrow> bool \<times> u64 \<Rightarrow> bool" where
  "app_event what start now =
     (if what = ''app_start'' then fst now
      else if what = ''app_exit'' then \<not> fst now
      else fst now \<noteq> fst start \<or> (fst now \<and> snd now \<noteq> snd start))"

function wait_loop ::
  "'w hid_api \<Rightarrow> string \<Rightarrow> nat \<Rightarrow> bool \<times> u64 \<Rightarrow> u64 \<Rightarrow> nat \<Rightarrow> 'w \<Rightarrow> (bool \<times> reply) \<times> 'w" where
  "wait_loop H what timeout start start_buttons waited w =
     (if waited < timeout then
        let w = sleep_ns H kPollNs w; waited = waited + 200
        in if what = ''app_start'' \<or> what = ''app_exit'' \<or> what = ''app_change'' then
             (if app_event what start (AppRunning H w) then (fired_app what waited (AppRunning H w), w)
              else wait_loop H what timeout start start_buttons waited w)
           else if what = ''button'' then
             (case ReadPad H w of
                None \<Rightarrow> wait_loop H what timeout start start_buttons waited w
              | Some st \<Rightarrow>
                  if pad_buttons st \<noteq> 0 \<and> pad_buttons st \<noteq> start_buttons
                  then (fired_button what waited (pad_buttons st), w)
                  else wait_loop H what timeout start start_buttons waited w)
           else (Fail ''bad_arg'' ''event must be app_start, app_exit, app_change or button'', w)
      else (not_fired what waited, w))"
  by pat_completeness auto

termination wait_loop
  by (relation "measure (\<lambda>(H, what, timeout, start, b, waited, w). timeout - waited)") auto

declare wait_loop.simps [simp del]

definition WaitEvent :: "'w hid_api \<Rightarrow> request \<Rightarrow> 'w vpad \<Rightarrow> (bool \<times> reply) \<times> 'w vpad" where
  "WaitEvent H req s =
     (let what = as_string ''app_change'' (arg req ''event'');
          timeout_ms = ms_arg req ''timeout_ms'' 10000 100;
          start = AppRunning H (pworld s);
          start_buttons = (case ReadPad H (pworld s) of None \<Rightarrow> 0 | Some st \<Rightarrow> pad_buttons st)
      in if what = ''app_start'' \<and> fst start then (held_already what start, s)
         else if what = ''app_exit'' \<and> \<not> fst start then (held_already what start, s)
         else let (r, w) = wait_loop H what timeout_ms start start_buttons 0 (pworld s)
              in (r, s\<lparr>pworld := w\<rparr>))"

section \<open>Recording\<close>

definition step_ms :: nat where "step_ms = 50"

definition step_json :: "u64 \<Rightarrow> nat \<Rightarrow> json" where
  "step_json b idle =
     json_fields [(''buttons'', ButtonsToArray b), (''hold_ms'', JInt (word_of_nat (step_ms * 2))),
       (''wait_ms'', JInt (word_of_nat idle))]"

function record_loop ::
  "'w hid_api \<Rightarrow> nat \<Rightarrow> u64 \<Rightarrow> nat \<Rightarrow> nat \<Rightarrow> json list \<Rightarrow> 'w \<Rightarrow> (json list \<times> nat) \<times> 'w" where
  "record_loop H duration prev idle elapsed steps w =
     (if elapsed < duration then
        let w = sleep_ns H (word_of_nat step_ms * 1000000) w; elapsed = elapsed + step_ms
        in case ReadPad H w of
             None \<Rightarrow> record_loop H duration prev (idle + step_ms) elapsed steps w
           | Some st \<Rightarrow>
               let b = pad_buttons st
               in if b = prev then record_loop H duration prev (idle + step_ms) elapsed steps w
                  else if b \<noteq> 0 then record_loop H duration b 0 elapsed (steps @ [step_json b idle]) w
                  else record_loop H duration b idle elapsed steps w
      else ((steps, elapsed), w))"
  by pat_completeness auto

termination record_loop
  by (relation "measure (\<lambda>(H, duration, prev, idle, elapsed, steps, w). duration - elapsed)") (auto simp: step_ms_def)

declare record_loop.simps [simp del]

definition RecordInput :: "'w hid_api \<Rightarrow> request \<Rightarrow> 'w vpad \<Rightarrow> (bool \<times> reply) \<times> 'w vpad" where
  "RecordInput H req s =
     (let ((steps, elapsed), w) = record_loop H (ms_arg req ''duration_ms'' 5000 200) 0 0 0 [] (pworld s)
      in (success [(''recorded_ms'', JInt (word_of_nat elapsed)), (''steps'', JInt (word_of_nat (length steps))),
            (''sequence'', JArr steps),
            (''note'', JStr (''pass '' @ quoted ''sequence'' @ '' straight to send_input_sequence to replay it''))],
          s\<lparr>pworld := w\<rparr>))"

definition ReadInput :: "'w hid_api \<Rightarrow> request \<Rightarrow> 'w vpad \<Rightarrow> (bool \<times> reply) \<times> 'w vpad" where
  "ReadInput H req s =
     (case ReadPad H (pworld s) of
        None \<Rightarrow> (Fail ''no_pad'' ''no controller state available'', s)
      | Some st \<Rightarrow>
          (success [(''buttons'', ButtonsToArray (pad_buttons st)), (''raw'', JInt (pad_buttons st)),
             (''left_stick'', json_fields [(''x'', JInt (of_i32 (pad_lx st))), (''y'', JInt (of_i32 (pad_ly st)))]),
             (''right_stick'', json_fields [(''x'', JInt (of_i32 (pad_rx st))), (''y'', JInt (of_i32 (pad_ry st)))])], s))"

section \<open>The lock screen thread\<close>

definition kFirstPressNs :: u64 where "kFirstPressNs = 12000000000"
definition kGapNs :: u64 where "kGapNs = 4000000000"
definition kPresses :: nat where "kPresses = 3"

definition PressB :: "'w hid_api \<Rightarrow> 'w vpad \<Rightarrow> 'w vpad" where
  "PressB H s =
     (case Ensure H s of
        (False, s) \<Rightarrow> s
      | (True, s) \<Rightarrow>
          snd (SetButtons H 0 0 0 0 0 (pad_sleep H 120000000 (snd (SetButtons H (npad_bit H Npad_B) 0 0 0 0 s)))))"

definition ApplicationRunning :: "'w hid_api \<Rightarrow> 'w \<Rightarrow> bool" where
  "ApplicationRunning H w = (case app_pid H w of None \<Rightarrow> False | Some pid \<Rightarrow> pid \<noteq> 0)"

text \<open>The presses left to make, with the gap between them.\<close>

fun press_loop :: "'w hid_api \<Rightarrow> nat \<Rightarrow> 'w vpad \<Rightarrow> 'w vpad" where
  "press_loop H 0 s = s"
| "press_loop H (Suc n) s =
     (let s = PressB H s in press_loop H n (if 0 < n then pad_sleep H kGapNs s else s))"

definition unlock :: "'w hid_api \<Rightarrow> 'w vpad \<Rightarrow> 'w vpad" where
  "unlock H s = Release H (press_loop H kPresses (pad_sleep H kFirstPressNs s))"

text \<open>One round of the endless keep-awake loop.\<close>

definition keep_awake :: "'w hid_api \<Rightarrow> u64 \<Rightarrow> 'w vpad \<Rightarrow> 'w vpad" where
  "keep_awake H period s =
     (let s = pad_sleep H period s
      in if ApplicationRunning H (pworld s) then s else Release H (PressB H s))"

text \<open>The thread after \<open>n\<close> rounds of its endless loop, which it enters only with a period.\<close>

definition Worker :: "'w hid_api \<Rightarrow> u64 \<Rightarrow> nat \<Rightarrow> 'w vpad \<Rightarrow> 'w vpad" where
  "Worker H period n s = (if period = 0 then unlock H s else (keep_awake H period ^^ n) (unlock H s))"

text \<open>Whether the thread was started, and the period it will read.\<close>

record unlocker =
  g_started :: bool
  g_keep_awake_ns :: u64

datatype thread_call = Create_failed | Start_failed | Running

definition ScheduleUnlock :: "agent_config \<Rightarrow> thread_call \<Rightarrow> unlocker \<Rightarrow> unlocker" where
  "ScheduleUnlock cfg threads u =
     (if g_started u then u
      else let u = u\<lparr>g_keep_awake_ns := of_i32 (keep_awake_minutes cfg) * 60 * 1000000000\<rparr>
           in if \<not> clear_lockscreen_on_boot cfg \<and> keep_awake_minutes cfg = 0 then u
              else if tier_int (cfg_tier cfg) < tier_int Control then u
              else case threads of
                     Create_failed \<Rightarrow> u
                   | Start_failed \<Rightarrow> u
                   | Running \<Rightarrow> u\<lparr>g_started := True\<rparr>)"

end
