(* ===== verification/VpadLaws.thy ===== *)
theory VpadLaws
  imports Events
begin

text \<open>
  What the input side guarantees: the controller's resources are never leaked, whatever the two
  threads that use it do and whichever calls fail; no button stays held; what is recorded can be
  replayed; waiting returns, with the first moment the event held.
\<close>

section \<open>The handler contract\<close>

interpretation input_handler: command_handler "Input H"
  by unfold_locales (auto simp: Input_def Let_def split: prod.split bool.split)

interpretation type_handler: command_handler "TypeText H"
  by unfold_locales (auto simp: TypeText_def Let_def split: prod.split option.split)

interpretation touch_handler: command_handler "Touch H"
  by unfold_locales (auto simp: Touch_def Let_def split: prod.split bool.split)

text \<open>One poll of the wait, after its sleep: the reply where the event has happened.\<close>

definition poll :: "'w hid_api \<Rightarrow> string \<Rightarrow> bool \<times> u64 \<Rightarrow> u64 \<Rightarrow> nat \<Rightarrow> 'w \<Rightarrow> (bool \<times> reply) option" where
  "poll H what start start_buttons waited w =
     (if what = ''app_start'' \<or> what = ''app_exit'' \<or> what = ''app_change'' then
        (if app_event what start (AppRunning H w) then Some (fired_app what waited (AppRunning H w)) else None)
      else if what = ''button'' then
        (case ReadPad H w of
           None \<Rightarrow> None
         | Some st \<Rightarrow> if pad_buttons st \<noteq> 0 \<and> pad_buttons st \<noteq> start_buttons
                      then Some (fired_button what waited (pad_buttons st)) else None)
      else Some (Fail ''bad_arg'' ''event must be app_start, app_exit, app_change or button''))"

lemma wait_loop_poll:
  "wait_loop H what timeout start b waited w =
     (if waited < timeout then
        case poll H what start b (waited + 200) (sleep_ns H kPollNs w) of
          Some r \<Rightarrow> (r, sleep_ns H kPollNs w)
        | None \<Rightarrow> wait_loop H what timeout start b (waited + 200) (sleep_ns H kPollNs w)
      else (not_fired what waited, w))"
proof (cases "what = ''app_start'' \<or> what = ''app_exit'' \<or> what = ''app_change''")
  case True
  then show ?thesis
    unfolding wait_loop.simps [of H what timeout start b waited w] poll_def Let_def if_P [OF True]
    by (simp only: option.case split: if_split) simp
next
  case False
  then show ?thesis
    unfolding wait_loop.simps [of H what timeout start b waited w] poll_def Let_def if_not_P [OF False]
    by (cases "what = ''button''"; cases "ReadPad H (sleep_ns H kPollNs w)")
      (simp_all only: option.case if_True if_False if_cancel simp_thms split: if_split, simp_all)
qed

lemma poll_contract: "poll H what start b waited w = Some r \<Longrightarrow> keeps_contract r"
  by (auto simp: poll_def fired_app_def fired_button_def split: if_splits option.splits)

text \<open>The loop looks for the first poll that has an answer, \<open>k\<close> rounds from now, at most \<open>n\<close>.\<close>

lemma wait_loop_find:
  "timeout \<le> waited + 200 * n \<Longrightarrow> n = 0 \<or> waited + 200 * (n - 1) < timeout \<Longrightarrow>
   wait_loop H what timeout start b waited w =
     (case find (\<lambda>k. poll H what start b (waited + 200 * k) ((sleep_ns H kPollNs ^^ k) w) \<noteq> None) [1..<Suc n] of
        Some k \<Rightarrow> (the (poll H what start b (waited + 200 * k) ((sleep_ns H kPollNs ^^ k) w)), (sleep_ns H kPollNs ^^ k) w)
      | None \<Rightarrow> (not_fired what (waited + 200 * n), (sleep_ns H kPollNs ^^ n) w))"
proof (induction n arbitrary: waited w)
  case 0
  then show ?case by (simp add: wait_loop_poll)
next
  case (Suc n)
  let ?w = "sleep_ns H kPollNs w"
  have l: "[1..<Suc (Suc n)] = 1 # map Suc [1..<Suc n]"
    by (simp add: map_Suc_upt upt_conv_Cons del: upt_Suc)
  have lt: "waited < timeout" using Suc.prems by (cases n) auto
  show ?case
  proof (cases "poll H what start b (waited + 200) ?w")
    case (Some r)
    then show ?thesis
      unfolding l by (subst wait_loop_poll) (simp add: lt)
  next
    case None
    have IH: "wait_loop H what timeout start b (waited + 200) ?w =
     (case find (\<lambda>k. poll H what start b (waited + 200 + 200 * k) ((sleep_ns H kPollNs ^^ k) ?w) \<noteq> None) [1..<Suc n] of
        Some k \<Rightarrow> (the (poll H what start b (waited + 200 + 200 * k) ((sleep_ns H kPollNs ^^ k) ?w)), (sleep_ns H kPollNs ^^ k) ?w)
      | None \<Rightarrow> (not_fired what (waited + 200 + 200 * n), (sleep_ns H kPollNs ^^ n) ?w))"
      using Suc.prems by (intro Suc.IH) auto
    have "wait_loop H what timeout start b waited w = wait_loop H what timeout start b (waited + 200) ?w"
      by (subst wait_loop_poll) (simp add: lt None)
    moreover have "find P (map Suc xs) = map_option Suc (find (\<lambda>k. P (Suc k)) xs)" for P xs
      by (induction xs) auto
    ultimately show ?thesis
      unfolding l IH using None
      by (simp add: funpow_swap1 algebra_simps split: option.split del: upt_Suc)
  qed
qed

lemma wait_loop_contract: "keeps_contract (fst (wait_loop H what timeout start b waited w))"
proof -
  have "keeps_contract (fst (wait_loop H what timeout start b waited w))" if "timeout - waited \<le> n" for n
    using that
  proof (induction n arbitrary: waited w)
    case 0
    then show ?case by (subst wait_loop_poll) (simp add: not_fired_def)
  next
    case (Suc n)
    then show ?case
      by (subst wait_loop_poll) (auto simp: not_fired_def poll_contract split: option.split)
  qed
  then show ?thesis by blast
qed

interpretation wait_handler: command_handler "WaitEvent H"
proof
  have "keeps_contract (held_already what app)" for what app
    by (simp add: held_already_def)
  then show "keeps_contract (fst (WaitEvent H req s))" for req s
    by (simp add: WaitEvent_def Let_def split_beta wait_loop_contract)
qed

interpretation record_handler: command_handler "RecordInput H"
  by unfold_locales (auto simp: RecordInput_def Let_def split: prod.split)

interpretation read_handler: command_handler "ReadInput H"
  by unfold_locales (auto simp: ReadInput_def split: option.split)

section \<open>Calls of the virtual controller\<close>

text \<open>
  The calls the threads make, one at a time: the connection's thread through the handlers and at
  disconnect, the lock screen thread through its presses. An interleaving of the two is a sequence
  of such calls.
\<close>

datatype pad_call =
    CEnsure
  | CSet u64 i32 i32 i32 i32
  | CRelease
  | CSleep u64

fun run_call :: "'w hid_api \<Rightarrow> pad_call \<Rightarrow> 'w vpad \<Rightarrow> 'w vpad" where
  "run_call H CEnsure s = snd (Ensure H s)"
| "run_call H (CSet b lx ly rx' ry') s = snd (SetButtons H b lx ly rx' ry' s)"
| "run_call H CRelease s = Release H s"
| "run_call H (CSleep ns) s = pad_sleep H ns s"

definition run_calls :: "'w hid_api \<Rightarrow> pad_call list \<Rightarrow> 'w vpad \<Rightarrow> 'w vpad" where
  "run_calls H cs s = fold (run_call H) cs s"

lemma run_calls_simps [simp]:
  "run_calls H [] s = s"
  "run_calls H (c # cs) s = run_calls H cs (run_call H c s)"
  "run_calls H (cs @ ds) s = run_calls H ds (run_calls H cs s)"
  by (simp_all add: run_calls_def)

text \<open>
  The services as documented, seen through the work buffers given out and the buttons each virtual
  device holds: attaching gives a new one or fails without effect, detaching takes it back, setting
  a state either holds its buttons or fails without effect, and nothing else touches them.
\<close>

definition pad_laws :: "'w hid_api \<Rightarrow> ('w \<Rightarrow> u64 set) \<Rightarrow> ('w \<Rightarrow> u64 \<Rightarrow> u64 option) \<Rightarrow> bool" where
  "pad_laws H bufs pads \<longleftrightarrow>
     (\<forall>w. bufs (snd (hdls_attach_buffer H w)) = set_option (fst (hdls_attach_buffer H w)) \<union> bufs w \<and>
          pads (snd (hdls_attach_buffer H w)) = pads w) \<and>
     (\<forall>b w. bufs (hdls_release_buffer H b w) = bufs w - {b} \<and> pads (hdls_release_buffer H b w) = pads w) \<and>
     (\<forall>w. bufs (snd (hdls_attach_device H virtual_pad w)) = bufs w \<and>
          pads (snd (hdls_attach_device H virtual_pad w)) =
            (case fst (hdls_attach_device H virtual_pad w) of None \<Rightarrow> pads w | Some h \<Rightarrow> (pads w)(h \<mapsto> 0))) \<and>
     (\<forall>h w. bufs (hdls_detach_device H h w) = bufs w \<and> pads (hdls_detach_device H h w) = (pads w)(h := None)) \<and>
     (\<forall>h st w. bufs (snd (hdls_set_state H h st w)) = bufs w \<and>
          pads (snd (hdls_set_state H h st w)) =
            (if fst (hdls_set_state H h st w) \<and> pads w h \<noteq> None then (pads w)(h \<mapsto> pad_buttons st) else pads w)) \<and>
     (\<forall>ns w. bufs (sleep_ns H ns w) = bufs w \<and> pads (sleep_ns H ns w) = pads w)"

text \<open>The agent's view of its resources is the truth, and nothing else is attached.\<close>

definition pad_inv :: "('w \<Rightarrow> u64 set) \<Rightarrow> ('w \<Rightarrow> u64 \<Rightarrow> u64 option) \<Rightarrow> 'w vpad \<Rightarrow> bool" where
  "pad_inv bufs pads s \<longleftrightarrow>
     (if g_attached s then bufs (pworld s) = {g_session s} \<and> dom (pads (pworld s)) = {g_handle s}
      else bufs (pworld s) = {} \<and> pads (pworld s) = Map.empty)"

lemma pad_lawsD:
  assumes "pad_laws H bufs pads"
  shows "bufs (snd (hdls_attach_buffer H w)) = set_option (fst (hdls_attach_buffer H w)) \<union> bufs w"
    and "pads (snd (hdls_attach_buffer H w)) = pads w"
    and "bufs (hdls_release_buffer H b w) = bufs w - {b}"
    and "pads (hdls_release_buffer H b w) = pads w"
    and "bufs (snd (hdls_attach_device H virtual_pad w)) = bufs w"
    and "pads (snd (hdls_attach_device H virtual_pad w)) =
            (case fst (hdls_attach_device H virtual_pad w) of None \<Rightarrow> pads w | Some h \<Rightarrow> (pads w)(h \<mapsto> 0))"
    and "bufs (hdls_detach_device H h w) = bufs w"
    and "pads (hdls_detach_device H h w) = (pads w)(h := None)"
    and "bufs (snd (hdls_set_state H h st w)) = bufs w"
    and "pads (snd (hdls_set_state H h st w)) =
            (if fst (hdls_set_state H h st w) \<and> pads w h \<noteq> None then (pads w)(h \<mapsto> pad_buttons st) else pads w)"
    and "bufs (sleep_ns H ns w) = bufs w"
    and "pads (sleep_ns H ns w) = pads w"
  using assms unfolding pad_laws_def by simp_all

lemma dom_single_del: "dom m = {h} \<Longrightarrow> m(h := None) = Map.empty"
  by (auto simp: fun_eq_iff dom_def)

lemma Ensure_inv:
  assumes L: "pad_laws H bufs pads" and i: "pad_inv bufs pads s"
  shows "pad_inv bufs pads (snd (Ensure H s)) \<and> g_attached (snd (Ensure H s)) = fst (Ensure H s) \<and>
    (fst (Ensure H s) \<longrightarrow> \<not> g_attached s \<longrightarrow>
       pads (pworld (snd (Ensure H s))) = [g_handle (snd (Ensure H s)) \<mapsto> 0])"
proof (cases "g_attached s")
  case True
  with i show ?thesis by (simp add: Ensure_def)
next
  case False
  obtain b v where b: "hdls_attach_buffer H (pworld s) = (b, v)" by fastforce
  then have v: "bufs v = set_option b" "pads v = Map.empty"
    using pad_lawsD(1,2) [OF L, of "pworld s"] i False by (simp_all add: pad_inv_def)
  obtain h u where h: "hdls_attach_device H virtual_pad v = (h, u)" by fastforce
  then have u: "bufs u = set_option b" "pads u = (case h of None \<Rightarrow> Map.empty | Some x \<Rightarrow> [x \<mapsto> 0])"
    using pad_lawsD(5,6) [OF L, of v] v by (simp_all split: option.split)
  show ?thesis
    using False b h v u
    by (auto simp: Ensure_def Let_def pad_inv_def pad_lawsD(3,4) [OF L] split: option.splits)
qed

lemma run_call_inv:
  assumes L: "pad_laws H bufs pads" and i: "pad_inv bufs pads s"
  shows "pad_inv bufs pads (run_call H c s)"
proof (cases c)
  case CEnsure
  then show ?thesis using Ensure_inv [OF assms] by simp
next
  case (CSet b lx ly rx' ry')
  obtain ok t where t: "Ensure H s = (ok, t)" by fastforce
  then have "pad_inv bufs pads t" "g_attached t = ok" using Ensure_inv [OF assms] by simp_all
  then show ?thesis
    using t CSet by (auto simp: SetButtons_def Let_def split_beta pad_inv_def pad_lawsD(9,10) [OF L] split: bool.split)
next
  case CRelease
  then show ?thesis
    using i dom_single_del [of "pads (pworld s)" "g_handle s"]
    by (cases "g_attached s") (simp_all add: Release_def Let_def pad_inv_def pad_lawsD [OF L])
next
  case (CSleep ns)
  then show ?thesis
    using i by (simp add: pad_sleep_def pad_inv_def pad_lawsD [OF L])
qed

lemma run_calls_inv:
  "pad_laws H bufs pads \<Longrightarrow> pad_inv bufs pads s \<Longrightarrow> pad_inv bufs pads (run_calls H cs s)"
  by (induction cs arbitrary: s) (simp_all add: run_call_inv)



section \<open>No button stays held\<close>

definition quiet :: "('w \<Rightarrow> u64 \<Rightarrow> u64 option) \<Rightarrow> 'w vpad \<Rightarrow> bool" where
  "quiet pads s \<longleftrightarrow> (\<forall>b\<in>ran (pads (pworld s)). b = 0)"

text \<open>Services that are there and accept every state.\<close>

definition reliable :: "'w hid_api \<Rightarrow> bool" where
  "reliable H \<longleftrightarrow>
     (\<forall>w. fst (hdls_attach_buffer H w) \<noteq> None \<and> fst (hdls_attach_device H virtual_pad w) \<noteq> None) \<and>
     (\<forall>h st w. fst (hdls_set_state H h st w))"

text \<open>The calls of a command, of a press of the lock screen thread, and of that thread.\<close>

definition input_script :: "'w hid_api \<Rightarrow> request \<Rightarrow> pad_call list" where
  "input_script H req =
     (let sticks = arg req ''sticks''; axis = (\<lambda>k. StickAxis (as_double 0 (idx sticks k)))
      in [CEnsure, CSet (buttons_mask H (arg req ''buttons'')) (axis ''lx'') (axis ''ly'') (axis ''rx'') (axis ''ry''),
          CSleep (clamp_i64 0 10000 (as_int 100 (arg req ''hold_ms'')) * 1000000), CSet 0 0 0 0 0])"

definition press_script :: "'w hid_api \<Rightarrow> pad_call list" where
  "press_script H = [CEnsure, CSet (npad_bit H Npad_B) 0 0 0 0, CSleep 120000000, CSet 0 0 0 0 0]"

definition unlock_script :: "'w hid_api \<Rightarrow> pad_call list" where
  "unlock_script H =
     CSleep kFirstPressNs # press_script H @ CSleep kGapNs # press_script H @ CSleep kGapNs # press_script H @ [CRelease]"

text \<open>The booleans: whether an application was running at each round of the keep-awake loop.\<close>

definition worker_script :: "'w hid_api \<Rightarrow> u64 \<Rightarrow> bool list \<Rightarrow> pad_call list" where
  "worker_script H period apps =
     unlock_script H @ concat (map (\<lambda>a. CSleep period # (if a then [] else press_script H @ [CRelease])) apps)"

lemma Ensure_reliable: "reliable H \<Longrightarrow> fst (Ensure H s)"
proof -
  assume R: "reliable H"
  obtain b v where b: "hdls_attach_buffer H (pworld s) = (Some b, v)"
    using R by (cases "hdls_attach_buffer H (pworld s)") (auto simp: reliable_def dest!: spec [of _ "pworld s"])
  obtain h u where "hdls_attach_device H virtual_pad v = (Some h, u)"
    using R by (cases "hdls_attach_device H virtual_pad v") (auto simp: reliable_def dest!: spec [of _ v])
  with b show ?thesis by (simp add: Ensure_def Let_def)
qed

lemma Input_script:
  "fst (Ensure H s) \<Longrightarrow> Input H req s = (success [(''ok'', JBool True)], run_calls H (input_script H req) s)"
  by (cases "Ensure H s") (simp add: Input_def input_script_def Let_def)

lemma PressB_script: "reliable H \<Longrightarrow> PressB H s = run_calls H (press_script H) s"
  using Ensure_reliable [of H s] by (cases "Ensure H s") (simp add: PressB_def press_script_def)

lemma Worker_script:
  assumes R: "reliable H"
  shows "period \<noteq> 0 \<Longrightarrow> \<exists>apps. length apps = n \<and> Worker H period n s = run_calls H (worker_script H period apps) s"
proof (induction n)
  case 0
  then show ?case
    by (auto simp: Worker_def worker_script_def unlock_script_def unlock_def kPresses_def numeral_3_eq_3
        PressB_script [OF R] simp del: press_script_def)
next
  case (Suc n)
  then obtain apps where a: "length apps = n" "Worker H period n s = run_calls H (worker_script H period apps) s" by blast
  let ?t = "Worker H period n s"
  have "Worker H period (Suc n) s =
      run_calls H (worker_script H period (apps @ [ApplicationRunning H (pworld (pad_sleep H period ?t))])) s"
    using Suc.prems a(2) [symmetric]
    by (simp add: Worker_def worker_script_def keep_awake_def Let_def PressB_script [OF R])
  then show ?case using a(1) by (intro exI [of _ "apps @ [_]"]) simp
qed

text \<open>Calls after which nothing is held, if nothing was before.\<close>

definition affecting :: "pad_call \<Rightarrow> bool" where
  "affecting c = (case c of CSet b lx ly rx' ry' \<Rightarrow> True | CRelease \<Rightarrow> True | _ \<Rightarrow> False)"

definition calming :: "pad_call \<Rightarrow> bool" where
  "calming c = (case c of CSet b lx ly rx' ry' \<Rightarrow> b = 0 | _ \<Rightarrow> True)"

definition clean :: "pad_call list \<Rightarrow> bool" where
  "clean cs \<longleftrightarrow> (filter affecting cs \<noteq> [] \<longrightarrow> calming (last (filter affecting cs)))"

lemma last_shuffles:
  "zs \<in> shuffles xs ys \<Longrightarrow> zs \<noteq> [] \<Longrightarrow> (xs \<noteq> [] \<and> last zs = last xs) \<or> (ys \<noteq> [] \<and> last zs = last ys)"
proof (induction xs ys arbitrary: zs rule: shuffles.induct)
  case (3 x xs y ys)
  then show ?case by (auto split: if_splits) (metis last.simps list.distinct(1) shuffles.simps(1,2) singletonD)+
qed auto

lemma clean_shuffles:
  assumes "zs \<in> shuffles xs ys" "clean xs" "clean ys"
  shows "clean zs"
proof -
  have "filter affecting zs \<in> shuffles (filter affecting xs) (filter affecting ys)"
    using assms(1) filter_shuffles [of affecting xs ys] by blast
  from last_shuffles [OF this] show ?thesis using assms(2,3) by (auto simp: clean_def)
qed


lemma clean_append: "clean xs \<Longrightarrow> clean ys \<Longrightarrow> clean (xs @ ys)"
  by (cases "filter affecting ys = []") (auto simp: clean_def last_append)

lemma clean_concat: "(\<And>xs. xs \<in> set xss \<Longrightarrow> clean xs) \<Longrightarrow> clean (concat xss)"
  by (induction xss) (auto simp: clean_append, simp add: clean_def)

lemma clean_scripts [simp]: "clean (input_script H req)" "clean (press_script H)" "clean [CRelease]" "clean [CSleep ns]"
  by (simp_all add: clean_def input_script_def press_script_def affecting_def calming_def Let_def)

lemma clean_worker: "clean (worker_script H period apps)"
proof -
  have c: "clean (CSleep ns # cs) = clean cs" for ns cs by (simp add: clean_def affecting_def)
  have "clean (unlock_script H)"
    unfolding unlock_script_def c by (intro clean_append) (simp_all add: c clean_append)
  moreover have "clean (CSleep period # (if a then [] else press_script H @ [CRelease]))" for a
    unfolding c by (simp add: clean_append) (simp add: clean_def)
  ultimately show ?thesis
    unfolding worker_script_def by (intro clean_append clean_concat) auto
qed

lemma run_call_quiet:
  assumes L: "pad_laws H bufs pads" and R: "reliable H" and i: "pad_inv bufs pads s"
  shows "affecting c \<Longrightarrow> calming c \<Longrightarrow> quiet pads (run_call H c s)"
    and "\<not> affecting c \<Longrightarrow> quiet pads s \<Longrightarrow> quiet pads (run_call H c s)"
proof -
  obtain t where t: "Ensure H s = (True, t)"
    using Ensure_reliable [OF R, of s] by (cases "Ensure H s") auto
  then have ti: "pad_inv bufs pads t" "g_attached t" using Ensure_inv [OF L i] by simp_all
  have r: "fst (hdls_set_state H h st w)" for h st w using R by (simp add: reliable_def)
  show "quiet pads (run_call H c s)" if "affecting c" "calming c"
  proof (cases c)
    case (CSet b lx ly rx' ry')
    then have b: "b = 0" using that by (simp add: calming_def)
    have "\<exists>y. pads (pworld t) (g_handle t) = Some y" "dom (pads (pworld t)) = {g_handle t}"
      using ti by (auto simp: pad_inv_def)
    then show ?thesis
      using CSet b t r dom_single_del [of "pads (pworld t)" "g_handle t"]
      by (auto simp: SetButtons_def Let_def split_beta quiet_def pad_lawsD(10) [OF L] ran_def fun_eq_iff split: if_splits)
  next
    case CRelease
    have "pads (pworld (Release H s)) = Map.empty"
      using run_call_inv [OF L i, of CRelease] by (simp add: pad_inv_def Release_def Let_def split: if_splits)
    then show ?thesis using CRelease by (simp add: quiet_def)
  qed (use that in \<open>simp_all add: affecting_def\<close>)
  show "quiet pads (run_call H c s)" if "\<not> affecting c" "quiet pads s"
  proof (cases c)
    case CEnsure
    show ?thesis
    proof (cases "g_attached s")
      case True
      then show ?thesis using CEnsure that by (simp add: Ensure_def)
    next
      case False
      then have "pads (pworld t) = [g_handle t \<mapsto> 0]" using Ensure_inv [OF L i] t by simp
      then show ?thesis using CEnsure t by (simp add: quiet_def)
    qed
  next
    case (CSleep ns)
    then show ?thesis using that by (simp add: quiet_def pad_sleep_def pad_lawsD(12) [OF L])
  qed (use that in \<open>simp_all add: affecting_def\<close>)
qed

lemma run_calls_quiet:
  assumes L: "pad_laws H bufs pads" and R: "reliable H"
  shows "pad_inv bufs pads s \<Longrightarrow> clean cs \<Longrightarrow> quiet pads s \<Longrightarrow> quiet pads (run_calls H cs s)"
proof (induction cs rule: rev_induct)
  case (snoc c cs)
  have i: "pad_inv bufs pads (run_calls H cs s)" using run_calls_inv [OF L snoc.prems(1)] .
  show ?case
  proof (cases "affecting c")
    case True
    then show ?thesis
      using run_call_quiet(1) [OF L R i] snoc.prems(2) by (simp add: clean_def)
  next
    case False
    then show ?thesis
      using run_call_quiet(2) [OF L R i] snoc by (simp add: clean_def)
  qed
qed simp


text \<open>Services whose world is the buffers given out and the buttons of each device.\<close>

definition pad_box :: "(u64 set \<times> (u64 \<Rightarrow> u64 option)) hid_api" where
  "pad_box =
     \<lparr>npad_bit = (\<lambda>_. 1), modifier_shift = 2,
      hdls_attach_buffer = (\<lambda>(b, p). (Some 5, (insert 5 b, p))),
      hdls_release_buffer = (\<lambda>x (b, p). (b - {x}, p)),
      hdls_attach_device = (\<lambda>_ (b, p). (Some 7, (b, p(7 \<mapsto> 0)))),
      hdls_detach_device = (\<lambda>h (b, p). (b, p(h := None))),
      hdls_set_state = (\<lambda>h st (b, p). (True, (b, if p h \<noteq> None then p(h \<mapsto> pad_buttons st) else p))),
      keyboard_set = (\<lambda>_ w. (True, w)), keyboard_unset = (\<lambda>w. w), touch_set = (\<lambda>_ w. (True, w)),
      touch_unset = (\<lambda>w. w), sleep_ns = (\<lambda>_ w. w), handheld_pad = (\<lambda>_. None),
      full_key_pad = (\<lambda>_. None), app_pid = (\<lambda>_. None)\<rparr>"

lemma pad_box_laws: "pad_laws pad_box fst snd"
  by (simp add: pad_laws_def pad_box_def split_beta)

definition no_pad :: pad_state where
  "no_pad = \<lparr>pad_buttons = 0, pad_lx = 0, pad_ly = 0, pad_rx = 0, pad_ry = 0, battery_level = 0, pad_flags = 0\<rparr>"

definition detached :: "(u64 set \<times> (u64 \<Rightarrow> u64 option)) vpad" where
  "detached = \<lparr>pworld = ({}, Map.empty), g_attached = False, g_session = 0, g_handle = 0, g_state = no_pad\<rparr>"

lemma detached_inv: "pad_inv fst snd detached" "quiet snd detached"
  by (simp_all add: pad_inv_def detached_def quiet_def)



text \<open>
  The two threads do share the one controller: a release by the lock screen thread in the middle of
  a client's hold ends the hold.
\<close>

lemma hold_cut_short:
  assumes "pad_laws H bufs pads" "pad_inv bufs pads s"
  shows "pads (pworld (run_calls H [CEnsure, CSet b 0 0 0 0, CRelease] s)) = Map.empty"
  using run_calls_inv [OF assms, of "[CEnsure, CSet b 0 0 0 0, CRelease]"]
  by (simp add: pad_inv_def Release_def Let_def split: if_splits)


section \<open>Waiting\<close>

text \<open>
  C33. Waiting is exact and bounded: \<^verbatim>\<open>wait_event\<close> returns at once where the asked state already
  holds, and otherwise answers the first poll, 200 ms apart, at which the event has happened, with
  the time waited so far; it gives up after the polls that fill the timeout, a hundred at most, so no
  request can block the connection for longer. It changes nothing but the time.
\<close>

theorem wait_event_exact:
  "let what = as_string ''app_change'' (arg req ''event''); start = AppRunning H (pworld s);
       b = (case ReadPad H (pworld s) of None \<Rightarrow> 0 | Some st \<Rightarrow> pad_buttons st);
       n = (ms_arg req ''timeout_ms'' 10000 100 + 199) div 200;
       at = (\<lambda>k. (sleep_ns H kPollNs ^^ k) (pworld s));
       now = (\<lambda>k. poll H what start b (200 * k) (at k))
   in WaitEvent H req s =
        (if what = ''app_start'' \<and> fst start \<or> what = ''app_exit'' \<and> \<not> fst start then (held_already what start, s)
         else case find (\<lambda>k. now k \<noteq> None) [1..<Suc n] of
           Some k \<Rightarrow> (the (now k), s\<lparr>pworld := at k\<rparr>)
         | None \<Rightarrow> (not_fired what (200 * n), s\<lparr>pworld := at n\<rparr>)) \<and>
      n \<le> 100"
proof -
  define t where "t = ms_arg req ''timeout_ms'' 10000 100"
  define n where "n = (t + 199) div 200"
  have t: "100 \<le> t" "t \<le> 20000" by (auto simp: t_def ms_arg_def Let_def kMaxWaitMs_def)
  then have n: "n \<le> 100" "t \<le> 200 * n" "n = 0 \<or> 200 * (n - 1) < t"
    unfolding n_def by linarith+
  show ?thesis
    unfolding Let_def t_def [symmetric] n_def [symmetric] WaitEvent_def
    using wait_loop_find [of t 0 n H] n by (auto split: option.split)
qed

section \<open>Recording and replaying\<close>

text \<open>The values libnx documents for the named buttons: one bit each, in the order of \<^verbatim>\<open>kButtonNames\<close>.\<close>

definition buttons_documented :: "'w hid_api \<Rightarrow> bool" where
  "buttons_documented H \<longleftrightarrow> map (ButtonMask H) kButtonNames = map (\<lambda>i. push_bit i 1) [0..<16]"

lemma bit_foldl_or:
  fixes a :: u64
  shows "bit (foldl (\<lambda>m x. m OR f x) a xs) n \<longleftrightarrow> bit a n \<or> (\<exists>x\<in>set xs. bit (f x) n)"
  by (induction xs arbitrary: a) (auto simp: bit_or_iff)

lemma and_push_bit_iff: "(b :: u64) AND push_bit i 1 \<noteq> 0 \<longleftrightarrow> bit b i"
  by (simp add: push_bit_eq_mult and_exp_eq_0_iff_not_bit)

lemma replayed_buttons:
  assumes "buttons_documented H"
  shows "buttons_mask H (ButtonsToArray b) = b AND 0xFFFF"
proof (rule bit_word_eqI)
  fix n :: nat
  assume n: "n < LENGTH(64)"
  have k: "ButtonMask H (kButtonNames ! i) = push_bit i 1" if "i < 16" for i
  proof -
    have "length kButtonNames = 16" by (simp add: kButtonNames_def)
    then show ?thesis
      using arg_cong [OF assms [unfolded buttons_documented_def], of "\<lambda>xs. xs ! i"] that by simp
  qed
  have "bit (buttons_mask H (ButtonsToArray b)) n \<longleftrightarrow> (\<exists>i<16. bit b i \<and> bit (ButtonMask H (kButtonNames ! i)) n)"
    unfolding buttons_mask_def ButtonsToArray_def and_push_bit_iff
    by (auto simp: as_array_def as_string_def bit_foldl_or)
  also have "\<dots> \<longleftrightarrow> bit b n \<and> n < 16"
    using n by (auto simp: k bit_simps)
  also have "\<dots> \<longleftrightarrow> bit (b AND 0xFFFF) n"
  proof -
    have "b AND 0xFFFF = take_bit 16 b" by (simp add: take_bit_eq_mask mask_eq_exp_minus_1)
    then show ?thesis by (auto simp: bit_take_bit_iff)
  qed
  finally show "bit (buttons_mask H (ButtonsToArray b)) n = bit (b AND 0xFFFF) n" .
qed

text \<open>The presses in a series of samples: where the buttons change to something held.\<close>

definition presses :: "u64 \<Rightarrow> u64 option list \<Rightarrow> u64 list" where
  "presses prev samples = filter (\<lambda>b. b \<noteq> 0) (tl (remdups_adj (prev # map the (filter (\<lambda>x. x \<noteq> None) samples))))"

definition sample :: "'w hid_api \<Rightarrow> 'w \<Rightarrow> nat \<Rightarrow> u64 option" where
  "sample H w k = map_option pad_buttons (ReadPad H ((sleep_ns H 50000000 ^^ k) w))"

lemma presses_Cons:
  "presses prev (None # xs) = presses prev xs"
  "presses prev (Some b # xs) =
     (if b = prev then presses prev xs else if b \<noteq> 0 then b # presses b xs else presses b xs)"
proof -
  define ys where "ys = map the (filter (\<lambda>x. x \<noteq> None) xs)"
  have t: "remdups_adj (b # ys) = b # tl (remdups_adj (b # ys))"
    by (cases "remdups_adj (b # ys)") (use remdups_adj_Cons' [of b ys] in auto)
  have e: "presses p xs = filter (\<lambda>b. b \<noteq> 0) (tl (remdups_adj (p # ys)))" for p
    by (simp add: presses_def ys_def)
  have f: "presses prev (Some b # xs) = filter (\<lambda>b. b \<noteq> 0) (tl (remdups_adj (prev # b # ys)))"
    by (simp add: presses_def ys_def)
  show "presses prev (None # xs) = presses prev xs" by (simp add: presses_def)
  show "presses prev (Some b # xs) =
     (if b = prev then presses prev xs else if b \<noteq> 0 then b # presses b xs else presses b xs)"
  proof (cases "b = prev")
    case True
    then show ?thesis unfolding e f by simp
  next
    case False
    then have "presses prev (Some b # xs) = filter (\<lambda>b. b \<noteq> 0) (remdups_adj (b # ys))"
      unfolding f by simp
    also have "\<dots> = (if b \<noteq> 0 then b # presses b xs else presses b xs)"
      unfolding e by (subst t) (cases "b = 0"; simp only: filter.simps simp_thms if_True if_False)
    finally show ?thesis using False by simp
  qed
qed

lemma record_loop_presses:
  assumes D: "buttons_documented H"
  shows "duration \<le> elapsed + 50 * n \<Longrightarrow> n = 0 \<or> elapsed + 50 * (n - 1) < duration \<Longrightarrow>
    \<exists>more w'. record_loop H duration prev idle elapsed steps w = ((steps @ more, elapsed + 50 * n), w') \<and>
      map (\<lambda>j. buttons_mask H (idx j ''buttons'')) more =
        map (\<lambda>b. b AND 0xFFFF) (presses prev (map (sample H w) [1..<Suc n]))"
proof (induction n arbitrary: prev idle elapsed steps w)
  case 0
  then show ?case by (subst record_loop.simps) (simp add: presses_def)
next
  case (Suc n)
  let ?w = "sleep_ns H 50000000 w"
  have l: "map (sample H w) [Suc 0..<Suc (Suc n)] = sample H w (Suc 0) # map (sample H ?w) [Suc 0..<Suc n]"
  proof -
    have "[Suc 0..<Suc (Suc n)] = Suc 0 # map Suc [Suc 0..<Suc n]"
      by (simp add: map_Suc_upt upt_conv_Cons del: upt_Suc)
    then show ?thesis by (simp add: sample_def funpow_swap1 del: upt_Suc)
  qed
  have s1: "sample H w (Suc 0) = map_option pad_buttons (ReadPad H ?w)" by (simp add: sample_def)
  have lt: "elapsed < duration" using Suc.prems by (cases n) auto
  have "duration \<le> (elapsed + 50) + 50 * n" "n = 0 \<or> (elapsed + 50) + 50 * (n - 1) < duration"
    using Suc.prems by auto
  note IH = Suc.IH [OF this]
  have j: "buttons_mask H (idx (step_json b i) ''buttons'') = b AND 0xFFFF" for b i
    using D by (simp add: step_json_def idx_json_fields replayed_buttons)
  show ?case
  proof (cases "ReadPad H ?w")
    case None
    then show ?thesis
      using IH [of prev "idle + 50" steps ?w] lt
      by (subst record_loop.simps) (simp add: l s1 presses_Cons step_ms_def algebra_simps del: upt_Suc)
  next
    case (Some st)
    then show ?thesis
      using IH [of prev "idle + 50" steps ?w] IH [of "pad_buttons st" idle steps ?w]
        IH [of "pad_buttons st" 0 "steps @ [step_json (pad_buttons st) idle]" ?w] lt
      by (subst record_loop.simps)
        (auto simp: l s1 presses_Cons step_ms_def algebra_simps j Let_def simp del: upt_Suc)
  qed
qed



text \<open>A controller on which A is pressed when the clock stands at an odd number of samples.\<close>

definition blinking :: "nat hid_api" where
  "blinking =
     \<lparr>npad_bit = (\<lambda>b. case b of Npad_A \<Rightarrow> 2 ^ 0 | Npad_B \<Rightarrow> 2 ^ 1 | Npad_X \<Rightarrow> 2 ^ 2 | Npad_Y \<Rightarrow> 2 ^ 3
        | Npad_StickL \<Rightarrow> 2 ^ 4 | Npad_StickR \<Rightarrow> 2 ^ 5 | Npad_L \<Rightarrow> 2 ^ 6 | Npad_R \<Rightarrow> 2 ^ 7 | Npad_ZL \<Rightarrow> 2 ^ 8
        | Npad_ZR \<Rightarrow> 2 ^ 9 | Npad_Plus \<Rightarrow> 2 ^ 10 | Npad_Minus \<Rightarrow> 2 ^ 11 | Npad_Left \<Rightarrow> 2 ^ 12 | Npad_Up \<Rightarrow> 2 ^ 13
        | Npad_Right \<Rightarrow> 2 ^ 14 | Npad_Down \<Rightarrow> 2 ^ 15),
      modifier_shift = 2, hdls_attach_buffer = (\<lambda>w. (None, w)), hdls_release_buffer = (\<lambda>_ w. w),
      hdls_attach_device = (\<lambda>_ w. (None, w)), hdls_detach_device = (\<lambda>_ w. w), hdls_set_state = (\<lambda>_ _ w. (False, w)),
      keyboard_set = (\<lambda>_ w. (True, w)), keyboard_unset = (\<lambda>w. w), touch_set = (\<lambda>_ w. (True, w)),
      touch_unset = (\<lambda>w. w), sleep_ns = (\<lambda>_ w. Suc w),
      handheld_pad = (\<lambda>w. Some (no_pad\<lparr>pad_buttons := (if odd w then 1 else 0)\<rparr>, 1)),
      full_key_pad = (\<lambda>_. None), app_pid = (\<lambda>_. None)\<rparr>"

lemma blinking_documented: "buttons_documented blinking"
  unfolding buttons_documented_def kButtonNames_def
  by (simp add: ButtonMask_def button_table_def blinking_def upt_rec)


section \<open>Typing\<close>

definition keys_of :: "string \<Rightarrow> (nat \<times> bool) list" where
  "keys_of cs = map (\<lambda>c. the (CharToKey c)) (filter (\<lambda>c. CharToKey c \<noteq> None) cs)"

text \<open>A key pressed, held, released.\<close>

definition tap :: "'w hid_api \<Rightarrow> u64 \<Rightarrow> key_state \<Rightarrow> 'w \<Rightarrow> 'w" where
  "tap H ns k w = sleep_ns H ns (snd (keyboard_set H no_keys (sleep_ns H ns (snd (keyboard_set H k w)))))"

lemma type_loop_taps:
  assumes "\<And>k w. fst (keyboard_set H k w)"
  shows "type_loop H ns cs typed s =
    (Some (typed + length (keys_of cs)), s\<lparr>pworld := fold (tap H ns) (map (key_down H) (keys_of cs)) (pworld s)\<rparr>)"
proof (induction cs arbitrary: typed s)
  case Nil
  then show ?case by (simp add: keys_of_def)
next
  case (Cons c cs)
  show ?case
  proof (cases "CharToKey c")
    case None
    then show ?thesis using Cons by (simp add: keys_of_def)
  next
    case (Some k)
    obtain w where w: "keyboard_set H (key_down H k) (pworld s) = (True, w)"
      using assms [of "key_down H k" "pworld s"] by (cases "keyboard_set H (key_down H k) (pworld s)") auto
    then show ?thesis
      using Cons Some by (simp add: keys_of_def Let_def tap_def)
  qed
qed

text \<open>The US layout read backwards.\<close>

definition KeyToChar :: "nat \<times> bool \<Rightarrow> char option" where
  "KeyToChar k =
     (case k of (n, shift) \<Rightarrow>
        if 4 \<le> n \<and> n \<le> 29 then Some (char_of (n - 4 + (if shift then 65 else 97)))
        else if 30 \<le> n \<and> n \<le> 38 \<and> \<not> shift then Some (char_of (n - 30 + 49))
        else if n = 39 \<and> \<not> shift then Some (CHR ''0'')
        else map_of (map (\<lambda>(c, k). (k, c)) symbol_keys) k)"


lemma KeyToChar_symbols: "list_all (\<lambda>(c, k). KeyToChar k = Some c) symbol_keys"
  by (simp add: KeyToChar_def symbol_keys_def)

lemma KeyToChar_CharToKey:
  assumes "CharToKey c = Some k"
  shows "KeyToChar k = Some c"
proof -
  have v: "code (CHR ''a'') = 97" "code (CHR ''z'') = 122" "code (CHR ''A'') = 65" "code (CHR ''Z'') = 90"
    "code (CHR ''1'') = 49" "code (CHR ''9'') = 57" by simp_all
  have inv: "char_of (code c) = c" by simp
  show ?thesis
  proof (cases "map_of symbol_keys c = Some k")
    case True
    then have "(c, k) \<in> set symbol_keys" by (rule map_of_SomeD)
    then show ?thesis using KeyToChar_symbols by (auto simp: list_all_iff)
  next
    case False
    then show ?thesis
      using assms inv unfolding CharToKey_def Let_def v
      by (auto simp: KeyToChar_def add.commute split: if_splits)
  qed
qed




end
