(* ===== verification/LogFile.thy ===== *)
theory LogFile
  imports GuardsLaws
begin

text \<open>
  The size-capped log (\<^verbatim>\<open>log.cpp\<close>), over the same functions on files as the journal. The clock is a
  parameter, and so is the formatted message: a log call is the text \<^verbatim>\<open>vfprintf\<close> prints.
\<close>

section \<open>Levels and lines\<close>

datatype Level = Lvl_Error | Lvl_Warn | Lvl_Info | Lvl_Debug

fun level_int :: "Level \<Rightarrow> nat" where
  "level_int Lvl_Error = 0"
| "level_int Lvl_Warn = 1"
| "level_int Lvl_Info = 2"
| "level_int Lvl_Debug = 3"

fun LevelName :: "Level \<Rightarrow> string" where
  "LevelName Lvl_Error = ''ERROR''"
| "LevelName Lvl_Warn = ''WARN''"
| "LevelName Lvl_Info = ''INFO''"
| "LevelName Lvl_Debug = ''DEBUG''"

record 'w logger =
  lworld :: 'w
  log_path :: string
  log_level :: Level
  log_max :: nat

text \<open>\<^verbatim>\<open>"[%s] %-5s "\<close>, the message, a newline.\<close>

definition log_line :: "string \<Rightarrow> Level \<Rightarrow> string \<Rightarrow> string" where
  "log_line ts l msg = ''['' @ ts @ ''] '' @ pad_right 5 (LevelName l) @ '' '' @ msg @ [CHR 0x0A]"

definition log_Init :: "'w card \<Rightarrow> string \<Rightarrow> Level \<Rightarrow> nat \<Rightarrow> 'w logger \<Rightarrow> 'w logger" where
  "log_Init C path l max_bytes g =
     (let g = g\<lparr>log_path := path, log_level := l, log_max := max_bytes\<rparr>
      in case card_size C (lworld g) (c_str path) of
           None \<Rightarrow> g
         | Some n \<Rightarrow>
             if n > max_bytes
             then (case card_write C (c_str path) [] (lworld g) of None \<Rightarrow> g | Some w \<Rightarrow> g\<lparr>lworld := w\<rparr>)
             else g)"

text \<open>
  Opening for append creates the file; where it is over the cap it is opened again, empty, and a
  failure of that loses the line.
\<close>

definition log_Write :: "'w card \<Rightarrow> string \<Rightarrow> Level \<Rightarrow> string \<Rightarrow> 'w logger \<Rightarrow> 'w logger" where
  "log_Write C ts l msg g =
     (if level_int l > level_int (log_level g) then g
      else if log_path g = [] then g
      else let p = c_str (log_path g)
           in case card_append C p [] (lworld g) of
                None \<Rightarrow> g
              | Some w \<Rightarrow>
                  (case (if (case card_size C w p of None \<Rightarrow> False | Some n \<Rightarrow> n > log_max g)
                         then card_write C p [] w else Some w) of
                     None \<Rightarrow> g\<lparr>lworld := w\<rparr>
                   | Some w \<Rightarrow>
                       (case card_append C p (bytes_of (log_line ts l msg)) w of
                          None \<Rightarrow> g\<lparr>lworld := w\<rparr>
                        | Some w \<Rightarrow> g\<lparr>lworld := w\<rparr>)))"

section \<open>The cap\<close>

text \<open>The file after one call: cut where it was over the cap, then the line.\<close>

lemma log_Write_view:
  assumes "keeps_files C view" "level_int l \<le> level_int (log_level g)" "log_path g \<noteq> []"
  shows "view (lworld (log_Write C ts l msg g)) = (view (lworld g))(c_str (log_path g) \<mapsto>
      (let old = file_text view (lworld g) (c_str (log_path g))
       in (if length old > log_max g then [] else old) @ bytes_of (log_line ts l msg)))" (is ?file)
    and "log_path (log_Write C ts l msg g) = log_path g \<and> log_max (log_Write C ts l msg g) = log_max g \<and>
      log_level (log_Write C ts l msg g) = log_level g" (is ?rest)
proof -
  note K = keeps_filesD [OF assms(1)]
  let ?p = "c_str (log_path g)"
  let ?old = "file_text view (lworld g) ?p"
  let ?line = "bytes_of (log_line ts l msg)"
  obtain w1 where w1: "card_append C ?p [] (lworld g) = Some w1" "view w1 = (view (lworld g))(?p \<mapsto> ?old)"
    using K(2) [of ?p "[]" "lworld g"] by auto
  have n: "card_size C w1 ?p = Some (length ?old)" by (simp add: K(5) w1(2))
  have "?file \<and> ?rest"
  proof (cases "length ?old > log_max g")
    case True
    obtain w2 where w2: "card_write C ?p [] w1 = Some w2" "view w2 = (view w1)(?p \<mapsto> [])"
      using K(3) [of ?p "[]" w1] by auto
    obtain w3 where "card_append C ?p ?line w2 = Some w3" "view w3 = (view w2)(?p \<mapsto> ?line)"
      using K(2) [of ?p ?line w2] w2(2) by (auto simp: file_text_def)
    then show ?thesis using assms(2,3) w1 w2 n True by (simp add: log_Write_def Let_def)
  next
    case False
    obtain w3 where "card_append C ?p ?line w1 = Some w3" "view w3 = (view w1)(?p \<mapsto> ?old @ ?line)"
      using K(2) [of ?p ?line w1] w1(2) by (auto simp: file_text_def)
    then show ?thesis using assms(2,3) w1 n False by (simp add: log_Write_def Let_def)
  qed
  then show ?file ?rest by blast+
qed

lemma log_Write_quiet:
  "level_int (log_level g) < level_int l \<or> log_path g = [] \<Longrightarrow> log_Write C ts l msg g = g"
  by (auto simp: log_Write_def)

text \<open>A history of log calls: the time stamp, the level and the message of each.\<close>

fun log_all :: "'w card \<Rightarrow> (string \<times> Level \<times> string) list \<Rightarrow> 'w logger \<Rightarrow> 'w logger" where
  "log_all C [] g = g"
| "log_all C ((ts, l, msg) # es) g = log_all C es (log_Write C ts l msg g)"

lemma log_all_shape:
  assumes "keeps_files C view"
  shows "(\<exists>k. file_text view (lworld g) (c_str (log_path g)) = drop k hist \<and>
            (k = 0 \<or> k \<le> length hist)) \<Longrightarrow>
    length (file_text view (lworld g) (c_str (log_path g))) \<le> log_max g + n \<Longrightarrow>
    (\<And>ts l msg. (ts, l, msg) \<in> set es \<Longrightarrow> length (log_line ts l msg) \<le> n) \<Longrightarrow>
    log_path g \<noteq> [] \<Longrightarrow>
    \<exists>k. file_text view (lworld (log_all C es g)) (c_str (log_path g)) =
        drop k (hist @ concat (map (\<lambda>(ts, l, msg). if level_int l \<le> level_int (log_level g)
           then bytes_of (log_line ts l msg) else []) es)) \<and>
      length (file_text view (lworld (log_all C es g)) (c_str (log_path g))) \<le> log_max g + n"
proof (induction es arbitrary: g hist)
  case Nil
  then show ?case by auto
next
  case (Cons e es)
  obtain ts l msg where e: "e = (ts, l, msg)" by (cases e) auto
  let ?p = "c_str (log_path g)"
  let ?old = "file_text view (lworld g) ?p"
  let ?line = "bytes_of (log_line ts l msg)"
  obtain k where k: "?old = drop k hist" using Cons.prems(1) by blast
  show ?case
  proof (cases "level_int l \<le> level_int (log_level g)")
    case True
    note V = log_Write_view [OF assms True Cons.prems(4), of ts msg]
    have ln: "length ?line \<le> n" using Cons.prems(3) e by simp
    let ?g = "log_Write C ts l msg g"
    have t: "file_text view (lworld ?g) ?p = (if length ?old > log_max g then [] else ?old) @ ?line"
      using V(1) by (simp add: file_text_def Let_def)
    have "\<exists>k. file_text view (lworld ?g) ?p = drop k (hist @ ?line) \<and> (k = 0 \<or> k \<le> length (hist @ ?line))"
    proof (cases "length ?old > log_max g")
      case True
      then show ?thesis using t by (intro exI [of _ "length hist"]) simp
    next
      case False
      then show ?thesis using t k by (intro exI [of _ "min k (length hist)"]) (simp add: min_def)
    qed
    moreover have "length (file_text view (lworld ?g) ?p) \<le> log_max g + n"
      using t ln by (auto split: if_splits)
    ultimately show ?thesis
      using Cons.IH [of ?g "hist @ ?line"] Cons.prems(3,4) V(2) e True by simp
  next
    case False
    then have "log_Write C ts l msg g = g" by (intro log_Write_quiet) simp
    then show ?thesis using Cons.IH [of g hist] Cons.prems e False by simp
  qed
qed

lemma log_all_append: "log_all C (es @ fs) g = log_all C fs (log_all C es g)"
  by (induction es arbitrary: g) auto

lemma log_Write_fields:
  "log_path (log_Write C ts l msg g) = log_path g" "log_level (log_Write C ts l msg g) = log_level g"
  by (simp_all add: log_Write_def Let_def split: option.split)

lemma log_all_fields: "log_path (log_all C es g) = log_path g" "log_level (log_all C es g) = log_level g"
  by (induction es arbitrary: g) (auto simp: log_Write_fields)

text \<open>
  The log stays small and loses only its past: after any history of log calls, from a file within
  the cap, the file holds an end of everything that was to be logged, that is, of the lines at or
  above the configured level in order; the last of them is always there; and the file is never longer
  than the cap and one line.
\<close>

theorem log_bounded:
  assumes "keeps_files C view" "log_path g \<noteq> []"
    and "length (file_text view (lworld g) (c_str (log_path g))) \<le> log_max g"
    and "\<And>ts l msg. (ts, l, msg) \<in> set es \<Longrightarrow> length (log_line ts l msg) \<le> n"
  shows "(\<exists>k. file_text view (lworld (log_all C es g)) (c_str (log_path g)) =
      drop k (file_text view (lworld g) (c_str (log_path g)) @
        concat (map (\<lambda>(ts, l, msg). if level_int l \<le> level_int (log_level g)
           then bytes_of (log_line ts l msg) else []) es))) \<and>
    length (file_text view (lworld (log_all C es g)) (c_str (log_path g))) \<le> log_max g + n \<and>
    (\<forall>front ts l msg. es = front @ [(ts, l, msg)] \<and> level_int l \<le> level_int (log_level g) \<longrightarrow>
       (\<exists>past. file_text view (lworld (log_all C es g)) (c_str (log_path g)) = past @ bytes_of (log_line ts l msg)))"
proof -
  have "\<exists>k. file_text view (lworld g) (c_str (log_path g)) =
      drop k (file_text view (lworld g) (c_str (log_path g))) \<and>
      (k = 0 \<or> k \<le> length (file_text view (lworld g) (c_str (log_path g))))" by (intro exI [of _ 0]) simp
  note shape = log_all_shape [OF assms(1) this _ assms(4) assms(2)]
  have "\<exists>past. file_text view (lworld (log_all C es g)) (c_str (log_path g)) = past @ bytes_of (log_line ts l msg)"
    if "es = front @ [(ts, l, msg)]" "level_int l \<le> level_int (log_level g)" for front ts l msg
    using log_Write_view(1) [OF assms(1), of l "log_all C front g" ts msg] that assms(2)
    by (auto simp: log_all_append log_all_fields file_text_def Let_def)
  with shape assms(3) show ?thesis by auto
qed

theorem log_bounded_witness:
  "let g = \<lparr>lworld = (\<lambda>_. None), log_path = ''l'', log_level = Lvl_Info, log_max = 4\<rparr>
   in length (file_text id (lworld (log_all ram_card [(''t'', Lvl_Warn, ''m''), (''t'', Lvl_Info, ''m'')] g)) ''l'') \<le> 4 + 12"
proof -
  let ?g = "\<lparr>lworld = (\<lambda>_. None), log_path = ''l'', log_level = Lvl_Info, log_max = 4\<rparr> ::
    (string \<Rightarrow> byte list option) logger"
  let ?es = "[(''t'', Lvl_Warn, ''m''), (''t'', Lvl_Info, ''m'')]"
  have n: "length (log_line ts l msg) \<le> 12" if "(ts, l, msg) \<in> set ?es" for ts l msg
    using that by (auto simp: log_line_def pad_right_def)
  have "length (file_text id (lworld (log_all ram_card ?es ?g)) (c_str (log_path ?g))) \<le> log_max ?g + 12"
    by (rule log_bounded [THEN conjunct2, THEN conjunct1, OF ram_card_keeps _ _ n]) (simp_all add: file_text_def)
  then show ?thesis by (simp add: Let_def)
qed

end
