(* ===== verification/PowerControl.thy ===== *)
theory PowerControl
  imports Vpad
begin

text \<open>
  Power and clock control (\<^verbatim>\<open>handlers/power.cpp\<close>): the deferred reboot or shutdown on a thread of
  its own, brightness, clocks, sleep plans and the agent's self-description. The services are a
  record of functions over an abstract world.
\<close>

section \<open>The services\<close>

datatype PowerAction = Do_reboot | Do_shutdown

datatype pcv_module = PcvModule_CpuBus | PcvModule_GPU | PcvModule_EMC

record sleep_settings =
  sleep_flags :: u32
  handheld_sleep_plan :: i32
  console_sleep_plan :: i32

record firmware =
  fw_major :: byte
  fw_minor :: byte
  fw_micro :: byte

record 'w power_api =
  thread_create :: "'w \<Rightarrow> bool \<times> 'w"
  thread_start :: "'w \<Rightarrow> bool \<times> 'w"
  thread_close :: "'w \<Rightarrow> 'w"
  thread_sleep :: "u64 \<Rightarrow> 'w \<Rightarrow> 'w"
  bpc_reboot :: "'w \<Rightarrow> 'w"
  bpc_shutdown :: "'w \<Rightarrow> 'w"
  lbl_set :: "dbl \<Rightarrow> 'w \<Rightarrow> bool \<times> 'w"
  lbl_backlight_on :: "'w \<Rightarrow> 'w"
  pcv_set :: "pcv_module \<Rightarrow> u32 \<Rightarrow> 'w \<Rightarrow> bool \<times> 'w"
  get_sleep :: "'w \<Rightarrow> sleep_settings option"
  set_sleep :: "sleep_settings \<Rightarrow> 'w \<Rightarrow> bool \<times> 'w"
  handheld_never :: i32
  console_never :: i32
  fw_version :: "'w \<Rightarrow> firmware option"

section \<open>Reboot and shutdown\<close>

text \<open>The function's static \<^verbatim>\<open>started\<close> and the pending action.\<close>

record 'w power =
  powerd :: 'w
  g_pending_action :: PowerAction
  power_started :: bool

definition PowerThread :: "'w power_api \<Rightarrow> 'w power \<Rightarrow> 'w power" where
  "PowerThread A s =
     (let w = thread_sleep A 500000000 (powerd s)
      in s\<lparr>powerd := (if g_pending_action s = Do_shutdown then bpc_shutdown A w else bpc_reboot A w)\<rparr>)"

definition SchedulePowerAction :: "'w power_api \<Rightarrow> PowerAction \<Rightarrow> 'w power \<Rightarrow> bool \<times> 'w power" where
  "SchedulePowerAction A act s =
     (if power_started s then (True, s)
      else let s = s\<lparr>g_pending_action := act\<rparr>
           in case thread_create A (powerd s) of
                (False, w) \<Rightarrow> (False, s\<lparr>powerd := w\<rparr>)
              | (True, w) \<Rightarrow>
                  (case thread_start A w of
                     (False, w) \<Rightarrow> (False, s\<lparr>powerd := thread_close A w\<rparr>)
                   | (True, w) \<Rightarrow> (True, s\<lparr>powerd := w, power_started := True\<rparr>)))"

definition power_handler ::
  "'w power_api \<Rightarrow> PowerAction \<Rightarrow> string \<Rightarrow> string \<Rightarrow> 'w power \<Rightarrow> (bool \<times> reply) \<times> 'w power" where
  "power_handler A act failure note_text s =
     (let (ok, s) = SchedulePowerAction A act s
      in if \<not> ok then (Fail ''bpc_failed'' failure, s)
         else (success [(''ok'', JBool True), (''note'', JStr note_text)], s))"

definition Reboot :: "'w power_api \<Rightarrow> request \<Rightarrow> 'w power \<Rightarrow> (bool \<times> reply) \<times> 'w power" where
  "Reboot A req = power_handler A Do_reboot ''could not schedule reboot'' ''rebooting in ~500ms''"

definition Shutdown :: "'w power_api \<Rightarrow> request \<Rightarrow> 'w power \<Rightarrow> (bool \<times> reply) \<times> 'w power" where
  "Shutdown A req = power_handler A Do_shutdown ''could not schedule shutdown'' ''powering off in ~500ms''"

definition RebootToPayload :: "'w power_api \<Rightarrow> request \<Rightarrow> 'w power \<Rightarrow> (bool \<times> reply) \<times> 'w power" where
  "RebootToPayload A req =
     power_handler A Do_reboot ''could not schedule reboot'' ''plain reboot (bpc:ams payload reboot not wired up yet)''"

definition AgentRestart :: "'w power_api \<Rightarrow> request \<Rightarrow> 'w power \<Rightarrow> (bool \<times> reply) \<times> 'w power" where
  "AgentRestart A req = power_handler A Do_reboot ''could not schedule reboot'' ''rebooting to reload the agent''"

section \<open>Brightness, clocks and sleep\<close>

text \<open>
  The C++ conversion of a \<^verbatim>\<open>double\<close> to \<^verbatim>\<open>float\<close>, as the double of the same value: rounded to 24
  significant bits, to the nearest and ties to even, with the subnormals and the overflow of the
  smaller format.
\<close>

definition to_float :: "dbl \<Rightarrow> dbl" where
  "to_float d =
     (if \<not> dbl_finite d \<or> dbl_num d = 0 then d
      else let n = dbl_num d; m = dbl_den d;
               l = int (bit_len n) - int (bit_len m);
               e = (if l \<ge> 0 then (if n \<ge> m * 2 ^ nat l then l else l - 1)
                    else (if n * 2 ^ nat (- l) \<ge> m then l else l - 1));
               k = nat (e - 23 + 149);
               q = round_div (n * 2 ^ (149 - k)) (m * 2 ^ (k - 149))
           in if k * 2 ^ 23 + q \<ge> 255 * 2 ^ 23
              then word_of_nat ((if dbl_neg d then 2 ^ 63 else 0) + 2047 * 2 ^ 52)
              else dbl_of_frac (dbl_neg d) (q * 2 ^ (k - 149)) (2 ^ (149 - k)))"

text \<open>\<^verbatim>\<open>if (v < 0) v = 0; if (v > 1) v = 1;\<close>: a negative zero and a NaN stay.\<close>

definition clamp_level :: "dbl \<Rightarrow> dbl" where
  "clamp_level v =
     (let v = (if dbl_neg v \<and> (if dbl_finite v then dbl_num v \<noteq> 0 else dbl_frac v = 0) then 0 else v)
      in if beyond_one v \<and> \<not> dbl_neg v then dbl_one else v)"

definition SetBrightness :: "'w power_api \<Rightarrow> request \<Rightarrow> 'w power \<Rightarrow> (bool \<times> reply) \<times> 'w power" where
  "SetBrightness A req s =
     (let level = clamp_level (to_float (as_double 0x3FE0000000000000 (arg req ''level'')))
      in case lbl_set A level (powerd s) of
           (False, w) \<Rightarrow> (Fail ''lbl_failed'' ''brightness set failed'', s\<lparr>powerd := w\<rparr>)
         | (True, w) \<Rightarrow>
             (success [(''ok'', JBool True), (''level'', JDouble level)], s\<lparr>powerd := lbl_backlight_on A w\<rparr>))"

definition clock_modules :: "(string \<times> pcv_module) list" where
  "clock_modules = [(''cpu_hz'', PcvModule_CpuBus), (''gpu_hz'', PcvModule_GPU), (''emc_hz'', PcvModule_EMC)]"

fun clock_loop ::
  "'w power_api \<Rightarrow> request \<Rightarrow> (string \<times> pcv_module) list \<Rightarrow> (string \<times> json) list \<Rightarrow> 'w \<Rightarrow> (string \<times> json) list \<times> 'w" where
  "clock_loop A req [] applied w = (applied, w)"
| "clock_loop A req ((k, m) # ms) applied w =
     (if \<not> has (req_msg req) k then clock_loop A req ms applied w
      else let hz = (ucast (as_int 0 (arg req k)) :: u32)
           in if hz = 0 then clock_loop A req ms applied w
              else case pcv_set A m hz w of
                     (True, w) \<Rightarrow> clock_loop A req ms (applied @ [(k, JInt (ucast hz))]) w
                   | (False, w) \<Rightarrow> clock_loop A req ms applied w)"

definition SetClocks :: "'w power_api \<Rightarrow> request \<Rightarrow> 'w power \<Rightarrow> (bool \<times> reply) \<times> 'w power" where
  "SetClocks A req s =
     (if \<not> allow_overclock (req_cfg req) then (Fail ''disabled'' ''clock control disabled in config'', s)
      else let (applied, w) = clock_loop A req clock_modules [] (powerd s)
           in (success [(''ok'', JBool True), (''applied'', json_fields applied)], s\<lparr>powerd := w\<rparr>))"

definition asked_sleep :: "'w power_api \<Rightarrow> request \<Rightarrow> sleep_settings \<Rightarrow> sleep_settings" where
  "asked_sleep A req st =
     (if as_bool True (arg req ''disable'')
      then st\<lparr>handheld_sleep_plan := handheld_never A, console_sleep_plan := console_never A\<rparr>
      else let st = (if has (req_msg req) ''handheld_plan''
                     then st\<lparr>handheld_sleep_plan := to_i32 (as_int 0 (arg req ''handheld_plan''))\<rparr> else st)
           in if has (req_msg req) ''console_plan''
              then st\<lparr>console_sleep_plan := to_i32 (as_int 0 (arg req ''console_plan''))\<rparr> else st)"

definition SetSleep :: "'w power_api \<Rightarrow> request \<Rightarrow> 'w power \<Rightarrow> (bool \<times> reply) \<times> 'w power" where
  "SetSleep A req s =
     (case get_sleep A (powerd s) of
        None \<Rightarrow> (Fail ''setsys_failed'' ''cannot read sleep settings'', s)
      | Some st \<Rightarrow>
          (case set_sleep A (asked_sleep A req st) (powerd s) of
             (False, w) \<Rightarrow> (Fail ''setsys_failed'' ''cannot write sleep settings'', s\<lparr>powerd := w\<rparr>)
           | (True, w) \<Rightarrow>
               (success [(''ok'', JBool True),
                  (''handheld_sleep_plan'', JInt (of_i32 (handheld_sleep_plan (asked_sleep A req st)))),
                  (''console_sleep_plan'', JInt (of_i32 (console_sleep_plan (asked_sleep A req st))))],
                s\<lparr>powerd := w\<rparr>)))"

definition firmware_text :: "firmware \<Rightarrow> string" where
  "firmware_text f = dec_nat (unat (fw_major f)) @ ''.'' @ dec_nat (unat (fw_minor f)) @ ''.'' @ dec_nat (unat (fw_micro f))"

definition AgentInfo :: "'w power_api \<Rightarrow> request \<Rightarrow> 'w power \<Rightarrow> (bool \<times> reply) \<times> 'w power" where
  "AgentInfo A req s =
     (success ([(''agent_version'', JStr ''0.2.0''), (''protocol_version'', JInt 1)] @
        (case fw_version A (powerd s) of None \<Rightarrow> [] | Some f \<Rightarrow> [(''firmware'', JStr (firmware_text f))]) @
        [(''nand_write_allowed'', JBool (allow_nand_write (req_cfg req))),
         (''overclock_allowed'', JBool (allow_overclock (req_cfg req)))]), s)"

section \<open>What holds\<close>

lemma power_handler_contract: "keeps_contract (fst (power_handler A act f n s))"
  by (simp add: power_handler_def Let_def split: prod.split)

interpretation reboot: command_handler "Reboot A"
  by unfold_locales (simp add: Reboot_def power_handler_contract)

interpretation shutdown: command_handler "Shutdown A"
  by unfold_locales (simp add: Shutdown_def power_handler_contract)

interpretation reboot_payload: command_handler "RebootToPayload A"
  by unfold_locales (simp add: RebootToPayload_def power_handler_contract)

interpretation agent_restart: command_handler "AgentRestart A"
  by unfold_locales (simp add: AgentRestart_def power_handler_contract)

interpretation set_brightness: command_handler "SetBrightness A"
  by unfold_locales (simp add: SetBrightness_def Let_def split: prod.split bool.split)

interpretation set_clocks: command_handler "SetClocks A"
  by unfold_locales (simp add: SetClocks_def Let_def split: prod.split)

interpretation set_sleep_plan: command_handler "SetSleep A"
  by unfold_locales (simp add: SetSleep_def split: option.split prod.split bool.split)

interpretation agent_info: command_handler "AgentInfo A"
  by unfold_locales (simp add: AgentInfo_def split: option.split)

text \<open>The four commands that end in a power transition, and the transition each asks for.\<close>

definition power_commands :: "'w power_api \<Rightarrow> ((request \<Rightarrow> 'w power \<Rightarrow> (bool \<times> reply) \<times> 'w power) \<times> PowerAction) list" where
  "power_commands A =
     [(Reboot A, Do_reboot), (Shutdown A, Do_shutdown), (RebootToPayload A, Do_reboot), (AgentRestart A, Do_reboot)]"

fun run_power ::
  "((request \<Rightarrow> 'w power \<Rightarrow> (bool \<times> reply) \<times> 'w power) \<times> PowerAction) list \<Rightarrow> request \<Rightarrow> 'w power \<Rightarrow> bool list \<times> 'w power" where
  "run_power [] req s = ([], s)"
| "run_power ((h, act) # hs) req s =
     (let (r, s) = h req s; (oks, s) = run_power hs req s in (fst r # oks, s))"

lemma power_command_step:
  assumes "(h, act) \<in> set (power_commands A)" "h req s = (r, s')"
  shows "fst r = power_started s' \<and> (power_started s \<longrightarrow> s' = s) \<and>
    (\<not> power_started s \<longrightarrow> power_started s' \<longrightarrow> g_pending_action s' = act)"
proof -
  obtain f n where "h req s = power_handler A act f n s"
    using assms(1) by (auto simp: power_commands_def Reboot_def Shutdown_def RebootToPayload_def AgentRestart_def)
  then show ?thesis
    using assms(2)
    by (auto simp: power_handler_def SchedulePowerAction_def Let_def split: if_splits prod.splits bool.splits)
qed

lemma run_power_started:
  "set hs \<subseteq> set (power_commands A) \<Longrightarrow> power_started s \<Longrightarrow> run_power hs req s = (replicate (length hs) True, s)"
proof (induction hs)
  case (Cons x hs)
  obtain h act where x: "x = (h, act)" by fastforce
  obtain r s' where h: "h req s = (r, s')" by fastforce
  have "fst r" "s' = s" using power_command_step [of h act A req s r s'] Cons.prems x h by auto
  then show ?case using Cons x h by simp
qed simp

text \<open>
  C37. One power transition at most, and the first one wins: over any sequence of reboot, shutdown,
  payload and restart commands there is a first that can be scheduled; the ones before it failed and
  changed nothing that lasts, every one after it is answered with success, and the transition that
  will happen is the first one's: a shutdown asked for after a reboot is acknowledged, and reboots.
\<close>

theorem first_power_action_wins:
  assumes "set hs \<subseteq> set (power_commands A)" "\<not> power_started s" "run_power hs req s = (oks, s')"
  shows "\<exists>n\<le>length hs. oks = replicate n False @ replicate (length hs - n) True \<and>
    (power_started s' \<longleftrightarrow> n < length hs) \<and> (n < length hs \<longrightarrow> g_pending_action s' = snd (hs ! n))"
  using assms
proof (induction hs arbitrary: s oks)
  case (Cons x hs)
  obtain h act where x: "x = (h, act)" by fastforce
  obtain r t where h: "h req s = (r, t)" by fastforce
  obtain oks' where o': "run_power hs req t = (oks', s')" "oks = fst r # oks'"
    using Cons.prems(3) x h by (auto split: prod.splits)
  have st: "fst r = power_started t" "power_started t \<longrightarrow> g_pending_action t = act"
    using power_command_step [of h act A req s r t] Cons.prems(1,2) x h by auto
  show ?case
  proof (cases "power_started t")
    case True
    then have "oks' = replicate (length hs) True" "s' = t"
      using run_power_started [of hs A t req] Cons.prems(1) o' by auto
    then show ?thesis using True st o' x by (intro exI [of _ 0]) simp
  next
    case False
    then obtain n where "n \<le> length hs" "oks' = replicate n False @ replicate (length hs - n) True"
        "power_started s' \<longleftrightarrow> n < length hs" "n < length hs \<longrightarrow> g_pending_action s' = snd (hs ! n)"
      using Cons.IH [of t oks'] Cons.prems(1) o' by auto
    then show ?thesis using False st o' by (intro exI [of _ "Suc n"]) simp
  qed
qed simp

text \<open>Services that start every thread.\<close>

definition willing :: "PowerAction list power_api" where
  "willing =
     \<lparr>thread_create = (\<lambda>w. (True, w)), thread_start = (\<lambda>w. (True, w)), thread_close = (\<lambda>w. w),
      thread_sleep = (\<lambda>_ w. w), bpc_reboot = (\<lambda>w. w @ [Do_reboot]), bpc_shutdown = (\<lambda>w. w @ [Do_shutdown]),
      lbl_set = (\<lambda>_ w. (True, w)), lbl_backlight_on = (\<lambda>w. w), pcv_set = (\<lambda>_ _ w. (True, w)),
      get_sleep = (\<lambda>_. None), set_sleep = (\<lambda>_ w. (False, w)), handheld_never = 5, console_never = 5,
      fw_version = (\<lambda>_. None)\<rparr>"

theorem first_power_action_wins_witness:
  "\<exists>s'. run_power [(Reboot willing, Do_reboot), (Shutdown willing, Do_shutdown)]
       \<lparr>req_msg = JNull, req_payload = [], req_cfg = default_config\<rparr>
       \<lparr>powerd = [], g_pending_action = Do_shutdown, power_started = False\<rparr> = ([True, True], s') \<and>
     powerd (PowerThread willing s') = [Do_reboot]"
proof -
  let ?hs = "[(Reboot willing, Do_reboot), (Shutdown willing, Do_shutdown)]"
  let ?q = "\<lparr>req_msg = JNull, req_payload = [], req_cfg = default_config\<rparr>"
  let ?s = "\<lparr>powerd = [], g_pending_action = Do_shutdown, power_started = False\<rparr> :: PowerAction list power"
  obtain oks s' where r: "run_power ?hs ?q ?s = (oks, s')" by fastforce
  then have o': "oks = [True, True]" "powerd s' = []"
    by (auto simp: Reboot_def Shutdown_def power_handler_def SchedulePowerAction_def willing_def)
  have "set ?hs \<subseteq> set (power_commands willing)" "\<not> power_started ?s" by (simp_all add: power_commands_def)
  from first_power_action_wins [OF this r] obtain n where
      n: "oks = replicate n False @ replicate (length ?hs - n) True"
         "n < length ?hs \<longrightarrow> g_pending_action s' = snd (?hs ! n)" by (elim exE conjE)
  have "n = 0" using n(1) unfolding o'(1) by (cases n) simp_all
  then have "g_pending_action s' = Do_reboot" using n(2) by simp
  then show ?thesis using r o' by (simp add: PowerThread_def willing_def)
qed

end
