(* ===== verification/Reports.thy ===== *)
theory Reports
  imports PowerControl FilesystemLaws CopyTree
begin

text \<open>
  Diagnostics (\<^verbatim>\<open>handlers/sysinfo.cpp\<close>, and the fatal reports of \<^verbatim>\<open>handlers/system.cpp\<close>): system
  information gathered service by service, the process list, crash and fatal reports and the log
  tail. Files are read through the same functions as the filesystem commands.
\<close>

section \<open>System information\<close>


record 'w info_api =
  info_fw :: "'w \<Rightarrow> (firmware \<times> string) option"
  info_uptime_ns :: "'w \<Rightarrow> u64"
  info_charge :: "'w \<Rightarrow> u32 option"
  info_charger :: "'w \<Rightarrow> u32 option"
  charger_none :: u32
  info_old_hos :: bool
  info_milli :: "bool \<Rightarrow> 'w \<Rightarrow> i32 option"
  info_ts_open :: "bool \<Rightarrow> 'w \<Rightarrow> bool"
  info_ts_temp :: "bool \<Rightarrow> 'w \<Rightarrow> dbl option"
  info_sd :: "'w \<Rightarrow> bool"
  info_sd_free :: "'w \<Rightarrow> i64 option"
  info_sd_total :: "'w \<Rightarrow> i64 option"
  info_connection :: "'w \<Rightarrow> (bool \<times> u32 \<times> bool) option"
  info_ip :: "'w \<Rightarrow> u32 option"
  info_mem_used :: "'w \<Rightarrow> u64"
  info_mem_total :: "'w \<Rightarrow> u64"
  svc_process_list :: "nat \<Rightarrow> 'w \<Rightarrow> u64 list option"
  process_tid :: "u64 \<Rightarrow> 'w \<Rightarrow> u64 option"

definition opt_field :: "string \<Rightarrow> ('a \<Rightarrow> json) \<Rightarrow> 'a option \<Rightarrow> (string \<times> json) list" where
  "opt_field k f v = (case v of None \<Rightarrow> [] | Some x \<Rightarrow> [(k, f x)])"

text \<open>\<^verbatim>\<open>%u.%u.%u.%u\<close> of an address, lowest byte first.\<close>

definition ip_text :: "u32 \<Rightarrow> string" where
  "ip_text ip =
     dec_nat (unat (ip AND 0xFF)) @ ''.'' @ dec_nat (unat (drop_bit 8 ip AND 0xFF)) @ ''.'' @
     dec_nat (unat (drop_bit 16 ip AND 0xFF)) @ ''.'' @ dec_nat (unat (drop_bit 24 ip AND 0xFF))"

text \<open>\<^verbatim>\<open>milli / 1000.0\<close>\<close>

definition milli_to_dbl :: "i32 \<Rightarrow> dbl" where
  "milli_to_dbl m = dbl_of_frac (sint m < 0) (nat \<bar>sint m\<bar>) 1000"

text \<open>The two temperatures: \<open>True\<close> is the sensor at the SoC, which libnx calls external.\<close>

definition temperature :: "'w info_api \<Rightarrow> bool \<Rightarrow> 'w \<Rightarrow> dbl option" where
  "temperature I external w =
     (if info_old_hos I then map_option milli_to_dbl (info_milli I external w)
      else if info_ts_open I external w then info_ts_temp I external w else None)"

definition SysInfo :: "'w info_api \<Rightarrow> request \<Rightarrow> 'w store \<Rightarrow> (bool \<times> reply) \<times> 'w store" where
  "SysInfo I req s =
     (let w = disk s;
          storage = json_fields (opt_field ''sd_free'' JInt (info_sd_free I w) @ opt_field ''sd_total'' JInt (info_sd_total I w));
          net = json_fields
            ((case info_connection I w of
                None \<Rightarrow> []
              | Some (connected, strength, wifi) \<Rightarrow>
                  [(''connected'', JBool connected), (''signal'', JInt (ucast strength)),
                   (''connection_type'', JStr (if wifi then ''wifi'' else ''ethernet''))]) @
             opt_field ''ip'' (\<lambda>ip. JStr (take 15 (ip_text ip))) (info_ip I w))
      in (success
           ((case info_fw I w of
               None \<Rightarrow> []
             | Some (f, display) \<Rightarrow> [(''firmware'', JStr (firmware_text f)), (''firmware_display'', JStr display)]) @
            [(''uptime_s'', JInt (info_uptime_ns I w div 1000000000))] @
            opt_field ''battery_pct'' (\<lambda>c. JInt (ucast c)) (info_charge I w) @
            (case info_charger I w of
               None \<Rightarrow> []
             | Some t \<Rightarrow> [(''charging'', JBool (t \<noteq> charger_none I)), (''charger_type'', JInt (ucast t))]) @
            opt_field ''temp_soc_c'' JDouble (temperature I True w) @
            opt_field ''temp_pcb_c'' JDouble (temperature I False w) @
            (if info_sd I w then [(''storage'', storage)] else []) @
            [(''network'', net),
             (''memory'', json_fields [(''agent_used'', JInt (info_mem_used I w)), (''agent_total'', JInt (info_mem_total I w))])]),
          s))"

definition ProcessList :: "'w info_api \<Rightarrow> request \<Rightarrow> 'w store \<Rightarrow> (bool \<times> reply) \<times> 'w store" where
  "ProcessList I req s =
     (case svc_process_list I 300 (disk s) of
        None \<Rightarrow> (Fail ''svc_failed'' ''svcGetProcessList failed'', s)
      | Some pids \<Rightarrow>
          (success [(''processes'', JArr (map (\<lambda>p. json_fields
              ((''pid'', JInt p) # opt_field ''tid'' (\<lambda>t. JStr (fmt_016lx t)) (process_tid I p (disk s)))) pids))], s))"

section \<open>Crash and fatal reports\<close>

definition crash_dir :: string where "crash_dir = ''sdmc:/atmosphere/crash_reports''"
definition fatal_dir :: string where "fatal_dir = ''sdmc:/atmosphere/fatal_reports''"

definition crash_entry :: "'w fsapi \<Rightarrow> 'w \<Rightarrow> string \<Rightarrow> json" where
  "crash_entry A w name =
     json_fields ((''name'', JStr name) #
       (case fs_stat A w (c_str (child crash_dir name)) of
          None \<Rightarrow> []
        | Some st \<Rightarrow> [(''size'', JInt (st_size st)), (''mtime'', JInt (st_mtime st))]))"

definition CrashReports :: "'w fsapi \<Rightarrow> request \<Rightarrow> 'w store \<Rightarrow> (bool \<times> reply) \<times> 'w store" where
  "CrashReports A req s =
     (if has (req_msg req) ''name'' then
        let name = as_string [] (arg req ''name'')
        in if contains ''..'' name then (Fail ''bad_path'' ''invalid name'', s)
           else case fs_open_read A (disk s) (c_str (child crash_dir name)) of
                  None \<Rightarrow> (Fail ''not_found'' ''no such crash report'', s)
                | Some (content, _) \<Rightarrow>
                    (success [(''name'', JStr name), (''content'', JStr (string_of_bytes content))], s)
      else
        (success [(''reports'', JArr (case fs_dir A (disk s) crash_dir of
            None \<Rightarrow> []
          | Some es \<Rightarrow> map (crash_entry A (disk s)) (filter (\<lambda>n. \<not> is_dot n) (map fst es))))], s))"

text \<open>The loop over pieces of 4096 bytes: it stops at the end of the file, or where 48000 are held.\<close>

function capped_read :: "byte list \<Rightarrow> byte list \<Rightarrow> byte list" where
  "capped_read rest got =
     (if rest = [] \<or> length got \<ge> 48000 then got
      else capped_read (drop 4096 rest) (got @ take 4096 rest))"
  by pat_completeness auto

termination capped_read
  by (relation "measure (\<lambda>(rest, got). length rest)") auto

declare capped_read.simps [simp del]

definition fatal_entry :: "'w fsapi \<Rightarrow> 'w \<Rightarrow> string \<Rightarrow> json" where
  "fatal_entry A w name =
     json_fields ((''name'', JStr name) #
       (case fs_stat A w (c_str (child fatal_dir name)) of None \<Rightarrow> [] | Some st \<Rightarrow> [(''size'', JInt (st_size st))]))"

definition FatalReports :: "'w fsapi \<Rightarrow> request \<Rightarrow> 'w store \<Rightarrow> (bool \<times> reply) \<times> 'w store" where
  "FatalReports A req s =
     (let name = as_string [] (arg req ''name'')
      in if name \<noteq> [] then
           if CHR ''/'' \<in> set name \<or> contains ''..'' name then (Fail ''bad_path'' ''name must be a bare filename'', s)
           else case fs_open_read A (disk s) (c_str (child fatal_dir name)) of
                  None \<Rightarrow> (Fail ''not_found'' ''no such fatal report'', s)
                | Some (content, _) \<Rightarrow>
                    (success [(''name'', JStr name), (''content'', JStr (string_of_bytes (capped_read content [])))], s)
         else case fs_dir A (disk s) fatal_dir of
                None \<Rightarrow>
                  (success [(''reports'', JArr []), (''note'', JStr ''no fatal_reports directory (nothing has gone fatal)'')], s)
              | Some es \<Rightarrow>
                  let names = take 200 (filter (\<lambda>n. \<not> is_dot n \<and> n \<noteq> ''dumps'') (map fst es))
                  in (success [(''count'', JInt (word_of_nat (length names))),
                        (''reports'', JArr (map (fatal_entry A (disk s)) names))], s))"

section \<open>The log tail\<close>

definition ReadLog :: "'w fsapi \<Rightarrow> request \<Rightarrow> 'w store \<Rightarrow> (bool \<times> reply) \<times> 'w store" where
  "ReadLog A req s =
     (let path = as_string ''sdmc:/config/switch-agentd/agent.log'' (arg req ''path'')
      in if \<not> starts_with ''sdmc:/'' path \<or> contains ''..'' path
         then (Fail ''bad_path'' ''only sdmc: paths without .. allowed'', s)
         else
           let m = as_int (16 * 1024) (arg req ''max_bytes'');
               max_bytes = (if m \<le>s 0 \<or> 256 * 1024 <s m then 16 * 1024 else unat m)
           in case fs_open_read A (disk s) (c_str path) of
                None \<Rightarrow> (Fail ''not_found'' ''cannot open log'', s)
              | Some (content, _) \<Rightarrow>
                  let start = (if length content > max_bytes then length content - max_bytes else 0)
                  in (success [(''content'', JStr (string_of_bytes (drop start content))),
                        (''truncated'', JBool (start > 0))], s))"

section \<open>What holds\<close>

interpretation sys_info: command_handler "SysInfo I"
  by unfold_locales (auto simp: SysInfo_def Let_def opt_field_def split: option.split)

interpretation process_list: command_handler "ProcessList I"
  by unfold_locales (simp add: ProcessList_def split: option.split)

interpretation crash_reports: command_handler "CrashReports A"
  by unfold_locales (simp add: CrashReports_def Let_def split: option.split)

interpretation fatal_reports: command_handler "FatalReports A"
  by unfold_locales (simp add: FatalReports_def Let_def split: option.split)

interpretation read_log: command_handler "ReadLog A"
  by unfold_locales (simp add: ReadLog_def Let_def split: option.split)

text \<open>The capped read is the first twelve pieces.\<close>

lemma capped_read_take: "length got \<le> 4096 * 12 \<Longrightarrow> 4096 dvd length got \<or> rest = [] \<Longrightarrow>
  capped_read rest got = got @ take (4096 * 12 - length got) rest"
proof (induction rest got rule: capped_read.induct)
  case (1 rest got)
  show ?case
  proof (cases "rest = [] \<or> length got \<ge> 48000")
    case True
    then have "rest = [] \<or> length got = 4096 * 12"
      using 1(2,3) by (auto simp: dvd_def)
    then show ?thesis using True by (subst capped_read.simps) auto
  next
    case False
    then have d: "4096 dvd length got" "length got < 48000" using 1(3) by auto
    then have l: "length got \<le> 4096 * 11" by (auto simp: dvd_def)
    have "4096 dvd length (got @ take 4096 rest) \<or> drop 4096 rest = []"
      using d by (cases "length rest < 4096") auto
    then have "capped_read (drop 4096 rest) (got @ take 4096 rest) =
        (got @ take 4096 rest) @ take (4096 * 12 - length (got @ take 4096 rest)) (drop 4096 rest)"
      using 1(1) False l by simp
    also have "\<dots> = got @ take (4096 * 12 - length got) rest"
    proof (cases "length rest < 4096")
      case True
      then show ?thesis using l by simp
    next
      case False
      have "4096 * 12 - length got = 4096 + (4096 * 12 - length got - 4096)" using l by simp
      then have "take (4096 * 12 - length got) rest =
          take 4096 rest @ take (4096 * 12 - length got - 4096) (drop 4096 rest)"
        by (metis take_add)
      then show ?thesis using False by (simp add: min_def)
    qed
    finally show ?thesis using False by (subst capped_read.simps) simp
  qed
qed

text \<open>
  Two file systems agree on the card where every path that starts at its root and has no parent
  step reads, stats and lists the same. What a directory lists are names.
\<close>

definition agree_on_card :: "'w fsapi \<Rightarrow> 'w fsapi \<Rightarrow> bool" where
  "agree_on_card A B \<longleftrightarrow>
     (\<forall>w p. stays ''sdmc'' p \<longrightarrow>
        fs_open_read A w p = fs_open_read B w p \<and> fs_stat A w p = fs_stat B w p \<and> fs_dir A w p = fs_dir B w p)"

definition lists_names :: "'w fsapi \<Rightarrow> bool" where
  "lists_names A \<longleftrightarrow> (\<forall>w d es. fs_dir A w d = Some es \<longrightarrow> (\<forall>n \<in> fst ` set es. is_dot n \<or> good_name n))"

lemma segment_inside: "g \<in> set (segments t) \<Longrightarrow> contains g t"
proof (induction t rule: segments.induct)
  case (1 t)
  show ?case
  proof (cases "t = []")
    case False
    have t: "t = seg_of t @ drop (length (seg_of t)) t"
      by (metis append_take_drop_id length_takeWhile_le seg_of_def takeWhile_eq_take)
    have "g = seg_of t \<or> g \<in> set (segments (after_seg t))"
      using 1(2) False by (auto simp: segments.simps [of t])
    then show ?thesis
    proof
      assume "g = seg_of t"
      then have "t = [] @ g @ drop (length g) t" using t by simp
      then show ?thesis unfolding contains_iff by blast
    next
      assume "g \<in> set (segments (after_seg t))"
      then have "contains g (after_seg t)" using 1 False by blast
      then obtain a b where "after_seg t = a @ g @ b" by (auto simp: contains_iff)
      moreover obtain u where "t = u @ after_seg t" by (metis after_seg_def append_take_drop_id)
      ultimately have "t = (u @ a) @ g @ b" by simp
      then show ?thesis unfolding contains_iff by blast
    qed
  qed (use 1 in simp)
qed

lemma no_dots_stays: "starts_with ''sdmc:/'' p \<Longrightarrow> \<not> contains ''..'' p \<Longrightarrow> stays ''sdmc'' (c_str p)"
proof -
  assume p: "starts_with ''sdmc:/'' p" "\<not> contains ''..'' p"
  have "\<not> contains ''..'' (c_str p)"
    using p(2) c_str_prefix [of p] by (metis append.assoc contains_iff)
  then have "''..'' \<notin> set (segments (c_str p))" using segment_inside by blast
  moreover have "starts_with ''sdmc:/'' (c_str p)" using p(1) by (rule starts_with_c_str) simp
  ultimately show ?thesis by (simp add: stays_def)
qed

lemma report_path_stays:
  "\<not> contains ''..'' name \<Longrightarrow> stays ''sdmc'' (c_str (child crash_dir name))"
  "\<not> contains ''..'' name \<Longrightarrow> stays ''sdmc'' (c_str (child fatal_dir name))"
  by (rule no_dots_stays; simp add: child_def crash_dir_def fatal_dir_def)+

lemma report_dirs_stay: "stays ''sdmc'' crash_dir" "stays ''sdmc'' fatal_dir"
  using no_dots_stays [of crash_dir] no_dots_stays [of fatal_dir] by (simp_all add: crash_dir_def fatal_dir_def)

lemma listed_stays:
  assumes "lists_names A" "fs_dir A w d = Some es" "n \<in> fst ` set es" "\<not> is_dot n"
    and "stays ''sdmc'' d" "CHR 0x00 \<notin> set d"
  shows "stays ''sdmc'' (c_str (child d n))"
proof -
  have g: "good_name n" using assms(1-4) by (auto simp: lists_names_def)
  then have "n \<noteq> ''..''" using assms(4) by (auto simp: is_dot_def)
  with g have "stays ''sdmc'' (child d n)"
    using stays_child [OF assms(5), of n] by (simp add: child_def good_name_def)
  then show ?thesis using c_str_child [OF assms(6) g] by simp
qed

lemma agreeD:
  assumes "agree_on_card A B" "stays ''sdmc'' p"
  shows "fs_open_read A w p = fs_open_read B w p" "fs_stat A w p = fs_stat B w p" "fs_dir A w p = fs_dir B w p"
  using assms by (simp_all add: agree_on_card_def)

lemma crash_reports_confined:
  assumes "agree_on_card A B" "lists_names A"
  shows "CrashReports A req s = CrashReports B req s"
proof -
  have l: "fs_dir A (disk s) crash_dir = fs_dir B (disk s) crash_dir"
    using agreeD(3) [OF assms(1) report_dirs_stay(1)] .
  have n: "crash_entry A (disk s) n = crash_entry B (disk s) n"
    if "fs_dir A (disk s) crash_dir = Some es" "n \<in> set (filter (\<lambda>n. \<not> is_dot n) (map fst es))" for es n
  proof -
    have "n \<in> fst ` set es" "\<not> is_dot n" using that(2) by fastforce+
    from listed_stays [OF assms(2) that(1) this report_dirs_stay(1)]
    have "stays ''sdmc'' (c_str (child crash_dir n))" by (simp add: crash_dir_def)
    then show ?thesis unfolding crash_entry_def by (simp only: agreeD(2) [OF assms(1)])
  qed
  show ?thesis
  proof (cases "has (req_msg req) ''name''")
    case True
    then show ?thesis
      using agreeD(1) [OF assms(1) report_path_stays(1)] by (simp add: CrashReports_def Let_def)
  next
    case False
    show ?thesis
    proof (cases "fs_dir A (disk s) crash_dir")
      case None
      then show ?thesis using False l by (simp add: CrashReports_def)
    next
      case (Some es)
      then have b: "fs_dir B (disk s) crash_dir = Some es" using l by simp
      have m: "map (crash_entry A (disk s)) (filter (\<lambda>n. \<not> is_dot n) (map fst es)) =
          map (crash_entry B (disk s)) (filter (\<lambda>n. \<not> is_dot n) (map fst es))"
        using n [OF Some] by (intro map_cong) auto
      show ?thesis using False by (simp only: CrashReports_def Let_def Some b m option.case if_False if_True simp_thms)
    qed
  qed
qed

lemma fatal_reports_confined:
  assumes "agree_on_card A B" "lists_names A"
  shows "FatalReports A req s = FatalReports B req s"
proof -
  have l: "fs_dir A (disk s) fatal_dir = fs_dir B (disk s) fatal_dir"
    using agreeD(3) [OF assms(1) report_dirs_stay(2)] .
  have n: "fatal_entry A (disk s) n = fatal_entry B (disk s) n"
    if "fs_dir A (disk s) fatal_dir = Some es"
      "n \<in> set (take 200 (filter (\<lambda>n. \<not> is_dot n \<and> n \<noteq> ''dumps'') (map fst es)))" for es n
  proof -
    have "n \<in> fst ` set es" "\<not> is_dot n" using set_take_subset that(2) by fastforce+
    from listed_stays [OF assms(2) that(1) this report_dirs_stay(2)]
    have "stays ''sdmc'' (c_str (child fatal_dir n))" by (simp add: fatal_dir_def)
    then show ?thesis unfolding fatal_entry_def by (simp only: agreeD(2) [OF assms(1)])
  qed
  show ?thesis
  proof (cases "as_string [] (arg req ''name'') = []")
    case False
    then show ?thesis
      using agreeD(1) [OF assms(1) report_path_stays(2)] by (simp add: FatalReports_def Let_def)
  next
    case True
    show ?thesis
    proof (cases "fs_dir A (disk s) fatal_dir")
      case None
      then show ?thesis using True l by (simp add: FatalReports_def Let_def)
    next
      case (Some es)
      then have b: "fs_dir B (disk s) fatal_dir = Some es" using l by simp
      have m: "map (fatal_entry A (disk s)) (take 200 (filter (\<lambda>n. \<not> is_dot n \<and> n \<noteq> ''dumps'') (map fst es))) =
          map (fatal_entry B (disk s)) (take 200 (filter (\<lambda>n. \<not> is_dot n \<and> n \<noteq> ''dumps'') (map fst es)))"
        using n [OF Some] by (intro map_cong) auto
      show ?thesis using True by (simp only: FatalReports_def Let_def Some b m option.case if_False if_True simp_thms)
    qed
  qed
qed

lemma log_confined:
  assumes "agree_on_card A B"
  shows "ReadLog A req s = ReadLog B req s"
proof -
  let ?p = "as_string ''sdmc:/config/switch-agentd/agent.log'' (arg req ''path'')"
  show ?thesis
  proof (cases "\<not> starts_with ''sdmc:/'' ?p \<or> contains ''..'' ?p")
    case True
    then show ?thesis by (simp only: ReadLog_def Let_def if_True)
  next
    case False
    then have "fs_open_read A (disk s) (c_str ?p) = fs_open_read B (disk s) (c_str ?p)"
      using agreeD(1) [OF assms no_dots_stays] by blast
    with False show ?thesis by (simp only: ReadLog_def Let_def if_False)
  qed
qed

text \<open>
  The diagnostic commands read the SD card and nothing else: whatever name or path the client
  sends, their replies are the same on two file systems that agree on the card's paths without a
  parent step. The saves, the other devices and what lies above a named directory do not enter.
\<close>

theorem reports_confined:
  assumes "agree_on_card A B" "lists_names A"
  shows "CrashReports A req s = CrashReports B req s \<and> FatalReports A req s = FatalReports B req s \<and>
    ReadLog A req s = ReadLog B req s"
  using crash_reports_confined [OF assms] fatal_reports_confined [OF assms] log_confined [OF assms(1)] by blast

definition off_card :: "tree fsapi" where
  "off_card = ram_tree\<lparr>fs_open_read := (\<lambda>w p. if stays ''sdmc'' p then fs_open_read ram_tree w p else Some ([7], False))\<rparr>"

theorem reports_confined_witness:
  "ReadLog ram_tree (save_request [(''path'', JStr ''sdmc:/log'')]) \<lparr>disk = [(''sdmc:/log'', File [1, 2])], save_mounted = False\<rparr> =
     ReadLog off_card (save_request [(''path'', JStr ''sdmc:/log'')]) \<lparr>disk = [(''sdmc:/log'', File [1, 2])], save_mounted = False\<rparr> \<and>
   fs_open_read off_card [] ''save:/x'' = Some ([7], False)"
proof -
  have "agree_on_card ram_tree off_card" by (simp add: agree_on_card_def off_card_def)
  moreover have "lists_names ram_tree"
    using ram_tree_calls by (auto simp: lists_names_def tree_calls_def)
  ultimately have "ReadLog ram_tree q s = ReadLog off_card q s" for q s
    using reports_confined [of ram_tree off_card q s] by blast
  moreover have "fs_open_read off_card [] ''save:/x'' = Some ([7], False)"
    by (simp add: off_card_def stays_def)
  ultimately show ?thesis by blast
qed

end
