(* ===== verification/SystemTools.thy ===== *)
theory SystemTools
  imports Reports
begin

text \<open>
  The system tools (\<^verbatim>\<open>handlers/system.cpp\<close>, without its fatal reports, which are in \<open>Reports\<close>): display,
  sound, radio and clock settings, what the console says of itself, settings items, and the copy of
  a file within the SD card.
\<close>

section \<open>The services\<close>

text \<open>\<^verbatim>\<open>No1\<close> to \<^verbatim>\<open>No8\<close>, by their distance from the first, and the handheld pad.\<close>

datatype npad = Npad_No nat | Npad_Handheld

record power_info =
  battery_level :: u32
  is_charging :: bool
  is_powered :: bool

record 'w sys_api =
  lbl_get :: "'w \<Rightarrow> dbl option"
  lbl_auto :: "bool \<Rightarrow> 'w \<Rightarrow> bool \<times> 'w"
  audctl_get :: "'w \<Rightarrow> dbl option"
  audctl_set :: "dbl \<Rightarrow> 'w \<Rightarrow> bool \<times> 'w"
  nifm_set_wireless :: "bool \<Rightarrow> 'w \<Rightarrow> bool \<times> 'w"
  nifm_wireless :: "'w \<Rightarrow> bool option"
  nifm_accepted :: "'w \<Rightarrow> bool"
  nifm_ip :: "'w \<Rightarrow> u32 option"
  nifm_config :: "'w \<Rightarrow> (u32 \<times> u32 \<times> u32 \<times> u32 \<times> u32) option"
  time_get :: "'w \<Rightarrow> u64 option"
  time_set :: "u64 \<Rightarrow> 'w \<Rightarrow> bool \<times> 'w"
  set_serial :: "'w \<Rightarrow> string option"
  set_nickname :: "'w \<Rightarrow> string option"
  set_color :: "'w \<Rightarrow> u32 option"
  color_dark :: u32
  set_region :: "'w \<Rightarrow> i32 option"
  clk_open :: "pcv_module \<Rightarrow> 'w \<Rightarrow> bool \<times> 'w"
  clk_rate :: "pcv_module \<Rightarrow> 'w \<Rightarrow> u32 option"
  clk_close :: "pcv_module \<Rightarrow> 'w \<Rightarrow> 'w"
  hid_style :: "npad \<Rightarrow> 'w \<Rightarrow> u32"
  hid_power :: "npad \<Rightarrow> 'w \<Rightarrow> power_info"
  npad_id :: "npad \<Rightarrow> i64"
  sleep_get :: "'w \<Rightarrow> sleep_settings option"
  item_size :: "string \<Rightarrow> string \<Rightarrow> 'w \<Rightarrow> u32 + u64"
  item_value :: "string \<Rightarrow> string \<Rightarrow> 'w \<Rightarrow> byte list option"

section \<open>Settings\<close>

definition GetBrightness :: "'w sys_api \<Rightarrow> request \<Rightarrow> 'w \<Rightarrow> (bool \<times> reply) \<times> 'w" where
  "GetBrightness Y req w =
     (case lbl_get Y w of
        None \<Rightarrow> (Fail ''lbl_failed'' ''cannot read brightness'', w)
      | Some level \<Rightarrow> (success [(''level'', JDouble level)], w))"

definition SetAutoBrightness :: "'w sys_api \<Rightarrow> request \<Rightarrow> 'w \<Rightarrow> (bool \<times> reply) \<times> 'w" where
  "SetAutoBrightness Y req w =
     (let enable = as_bool True (arg req ''enable'')
      in case lbl_auto Y enable w of
           (False, w) \<Rightarrow> (Fail ''lbl_failed'' ''auto-brightness toggle failed'', w)
         | (True, w) \<Rightarrow> (success [(''ok'', JBool True), (''auto_brightness'', JBool enable)], w))"

definition GetVolume :: "'w sys_api \<Rightarrow> request \<Rightarrow> 'w \<Rightarrow> (bool \<times> reply) \<times> 'w" where
  "GetVolume Y req w =
     (case audctl_get Y w of
        None \<Rightarrow> (Fail ''audctl_failed'' ''cannot read volume'', w)
      | Some vol \<Rightarrow> (success [(''volume'', JDouble vol)], w))"

definition SetVolume :: "'w sys_api \<Rightarrow> request \<Rightarrow> 'w \<Rightarrow> (bool \<times> reply) \<times> 'w" where
  "SetVolume Y req w =
     (let vol = clamp_level (to_float (as_double 0x3FE0000000000000 (arg req ''volume'')))
      in case audctl_set Y vol w of
           (False, w) \<Rightarrow> (Fail ''audctl_failed'' ''cannot set volume'', w)
         | (True, w) \<Rightarrow> (success [(''ok'', JBool True), (''volume'', JDouble vol)], w))"

definition SetWireless :: "'w sys_api \<Rightarrow> request \<Rightarrow> 'w \<Rightarrow> (bool \<times> reply) \<times> 'w" where
  "SetWireless Y req w =
     (let enable = as_bool True (arg req ''enable'')
      in case nifm_set_wireless Y enable w of
           (False, w) \<Rightarrow> (Fail ''nifm_failed'' ''cannot toggle wireless'', w)
         | (True, w) \<Rightarrow> (success [(''ok'', JBool True), (''wireless_enabled'', JBool enable)], w))"

definition GetTime :: "'w sys_api \<Rightarrow> request \<Rightarrow> 'w \<Rightarrow> (bool \<times> reply) \<times> 'w" where
  "GetTime Y req w =
     (case time_get Y w of
        None \<Rightarrow> (Fail ''time_failed'' ''cannot read time'', w)
      | Some ts \<Rightarrow> (success [(''unix_time'', JInt ts)], w))"

definition SetTime :: "'w sys_api \<Rightarrow> request \<Rightarrow> 'w \<Rightarrow> (bool \<times> reply) \<times> 'w" where
  "SetTime Y req w =
     (let ts = as_int 0 (arg req ''unix_time'')
      in if ts \<le>s 0 then (Fail ''bad_arg'' ''missing unix_time'', w)
         else case time_set Y ts w of
                (False, w) \<Rightarrow> (Fail ''time_failed'' ''cannot set time'', w)
              | (True, w) \<Rightarrow> (success [(''ok'', JBool True), (''unix_time'', JInt ts)], w))"

definition GetSleep :: "'w sys_api \<Rightarrow> request \<Rightarrow> 'w \<Rightarrow> (bool \<times> reply) \<times> 'w" where
  "GetSleep Y req w =
     (case sleep_get Y w of
        None \<Rightarrow> (Fail ''setsys_failed'' ''cannot read sleep settings'', w)
      | Some z \<Rightarrow>
          (let kHandheld = [''1min'', ''3min'', ''5min'', ''10min'', ''30min'', ''never''];
               kConsole = [''1h'', ''2h'', ''3h'', ''6h'', ''12h'', ''never''];
               h = handheld_sleep_plan z; c = console_sleep_plan z
           in (success
                ([(''handheld_sleep_plan'', JInt (scast h)), (''console_sleep_plan'', JInt (scast c))] @
                 (if 0 \<le>s h \<and> h \<le>s 5 then [(''handheld'', JStr (kHandheld ! unat h))] else []) @
                 (if 0 \<le>s c \<and> c \<le>s 5 then [(''console'', JStr (kConsole ! unat c))] else []) @
                 [(''flags'', JInt (ucast (sleep_flags z))),
                  (''sleeps_while_playing_media'', JBool (sleep_flags z AND 1 \<noteq> 0)),
                  (''wakes_at_power_state_change'', JBool (sleep_flags z AND 2 \<noteq> 0))]), w)))"

section \<open>What the console says of itself\<close>

definition region_names :: "string list" where
  "region_names = [''JPN'', ''USA'', ''EUR'', ''AUS'', ''HTK'', ''CHN'']"

definition ConsoleInfo :: "'w sys_api \<Rightarrow> request \<Rightarrow> 'w \<Rightarrow> (bool \<times> reply) \<times> 'w" where
  "ConsoleInfo Y req w =
     (success
        (opt_field ''serial'' JStr (set_serial Y w) @ opt_field ''nickname'' JStr (set_nickname Y w) @
         opt_field ''theme'' (\<lambda>c. JStr (if c = color_dark Y then ''dark'' else ''light'')) (set_color Y w) @
         opt_field ''region''
           (\<lambda>r. JStr (if 0 \<le>s r \<and> r <s 6 then region_names ! unat r else ''unknown'')) (set_region Y w)), w)"

definition clock_reads :: "(string \<times> pcv_module) list" where
  "clock_reads = [(''cpu_hz'', PcvModule_CpuBus), (''gpu_hz'', PcvModule_GPU), (''emc_hz'', PcvModule_EMC)]"

fun clocks_loop ::
  "'w sys_api \<Rightarrow> (string \<times> pcv_module) list \<Rightarrow> (string \<times> json) list \<Rightarrow> 'w \<Rightarrow> (string \<times> json) list \<times> 'w" where
  "clocks_loop Y [] fs w = (fs, w)"
| "clocks_loop Y ((key, m) # ms) fs w =
     (case clk_open Y m w of
        (False, w) \<Rightarrow> clocks_loop Y ms fs w
      | (True, w) \<Rightarrow>
          clocks_loop Y ms (fs @ opt_field key (\<lambda>hz. JInt (ucast hz)) (clk_rate Y m w)) (clk_close Y m w))"

definition GetClocks :: "'w sys_api \<Rightarrow> request \<Rightarrow> 'w \<Rightarrow> (bool \<times> reply) \<times> 'w" where
  "GetClocks Y req w = (let (fs, w) = clocks_loop Y clock_reads [] w in (success fs, w))"

definition npads :: "npad list" where
  "npads = map Npad_No [0 ..< 8] @ [Npad_Handheld]"

definition Controllers :: "'w sys_api \<Rightarrow> request \<Rightarrow> 'w \<Rightarrow> (bool \<times> reply) \<times> 'w" where
  "Controllers Y req w =
     (success [(''controllers'', JArr (map (\<lambda>n.
        json_fields
          [(''id'', JInt (if n = Npad_Handheld then 0x20 else npad_id Y n)), (''handheld'', JBool (n = Npad_Handheld)),
           (''style_set'', JInt (ucast (hid_style Y n w))), (''battery'', JInt (ucast (battery_level (hid_power Y n w)))),
           (''charging'', JBool (is_charging (hid_power Y n w))), (''powered'', JBool (is_powered (hid_power Y n w)))])
        (filter (\<lambda>n. hid_style Y n w \<noteq> 0) npads)))], w)"

definition NetInfo :: "'w sys_api \<Rightarrow> request \<Rightarrow> 'w \<Rightarrow> (bool \<times> reply) \<times> 'w" where
  "NetInfo Y req w =
     (success
        (opt_field ''ip'' (\<lambda>ip. JStr (ip_text ip)) (nifm_ip Y w) @
         (case nifm_config Y w of
            None \<Rightarrow> []
          | Some (cur, msk, gw, dns1, dns2) \<Rightarrow>
              [(''address'', JStr (ip_text cur)), (''subnet_mask'', JStr (ip_text msk)), (''gateway'', JStr (ip_text gw)),
               (''dns_primary'', JStr (ip_text dns1)), (''dns_secondary'', JStr (ip_text dns2))]) @
         opt_field ''wireless_enabled'' JBool (nifm_wireless Y w) @
         [(''internet_request_accepted'', JBool (nifm_accepted Y w))]), w)"

section \<open>Settings items\<close>

text \<open>\<^verbatim>\<open>v |= (uint64_t)buf[i] << (8 * i)\<close>, from the byte at \<open>i\<close> on.\<close>

fun or_bytes :: "nat \<Rightarrow> byte list \<Rightarrow> u64 \<Rightarrow> u64" where
  "or_bytes i [] v = v"
| "or_bytes i (b # bs) v = or_bytes (Suc i) bs (v OR push_bit (8 * i) (ucast b))"

definition hex_pair :: "byte \<Rightarrow> string" where
  "hex_pair b =
     (let hd = ''0123456789abcdef'' in [hd ! unat (drop_bit 4 b), hd ! unat (b AND 0xF)])"

definition item_printable :: "byte list \<Rightarrow> bool" where
  "item_printable buf \<longleftrightarrow> buf \<noteq> [] \<and> (\<forall>b \<in> set buf. b = 0 \<or> 0x20 \<le> b \<and> b \<le> 0x7E)"

definition item_reply :: "string \<Rightarrow> string \<Rightarrow> byte list \<Rightarrow> bool \<times> reply" where
  "item_reply name key buf =
     (let got = length buf
      in success
        ([(''name'', JStr name), (''key'', JStr key), (''size'', JInt (word_of_nat got))] @
         (if 1 \<le> got \<and> got \<le> 8
          then (''value'', JInt (or_bytes 0 buf 0)) # (if got = 1 then [(''as_bool'', JBool (hd buf \<noteq> 0))] else [])
          else []) @
         [(''hex'', JStr (concat (map hex_pair buf)))] @
         (if item_printable buf then [(''as_string'', JStr (string_of_bytes buf))] else [])))"

text \<open>What is read is what the service reports as read: \<open>item_value\<close> is the buffer after \<^verbatim>\<open>buf.resize(got)\<close>.\<close>

definition SettingsGet :: "'w sys_api \<Rightarrow> request \<Rightarrow> 'w \<Rightarrow> (bool \<times> reply) \<times> 'w" where
  "SettingsGet Y req w =
     (let name = as_string [] (arg req ''name''); key = as_string [] (arg req ''key'')
      in if name = [] \<or> key = [] then (Fail ''bad_arg'' (''need both '' @ [CHR 0x27] @ ''name'' @ [CHR 0x27] @ '' and '' @ [CHR 0x27] @ ''key'' @ [CHR 0x27]), w)
         else case item_size Y (c_str name) (c_str key) w of
                Inl rc \<Rightarrow> (FailS ''not_found'' (''no such settings item (rc='' @ dec_nat (unat rc) @ '')''), w)
              | Inr n \<Rightarrow>
                  if n = 0 \<or> 65536 < n
                  then (FailS ''bad_size'' (''settings item exists but has size '' @ dec_nat (unat n)), w)
                  else case item_value Y (c_str name) (c_str key) w of
                         None \<Rightarrow> (Fail ''read_failed'' ''cannot read settings item'', w)
                       | Some buf \<Rightarrow> (item_reply name key buf, w))"

section \<open>Copying a file on the card\<close>

text \<open>The loop over pieces of 64 KiB, adding up what \<^verbatim>\<open>fwrite\<close> reports.\<close>

function fcopy_loop :: "'w fsapi \<Rightarrow> string \<Rightarrow> nat \<Rightarrow> byte list \<Rightarrow> 'w \<Rightarrow> nat \<times> 'w" where
  "fcopy_loop A d wrote content w =
     (if content = [] then (wrote, w)
      else let (n, w) = fs_pwrite A d wrote (take (64 * 1024) content) w
           in fcopy_loop A d (wrote + n) (drop (64 * 1024) content) w)"
  by pat_completeness auto
termination
  by (relation "measure (\<lambda>(A, d, wrote, content, w). length content)") auto

declare fcopy_loop.simps [simp del]

text \<open>
  The source is opened before the destination is created but read after it: what the loop reads is
  what the source holds then, which is nothing where both are one file.
\<close>

definition FsCopy :: "'w fsapi \<Rightarrow> request \<Rightarrow> 'w store \<Rightarrow> (bool \<times> reply) \<times> 'w store" where
  "FsCopy A req s =
     (let device = as_string ''sd'' (arg req ''device'')
      in if device \<noteq> ''sd'' \<and> device \<noteq> ''sdmc'' then
           (Fail ''read_only_device''
             (''fs.copy writes, so it only works on the SD card (device='' @ [CHR 0x22] @ ''sd'' @ [CHR 0x22] @ '')''), s)
         else case ResolveSdPath (as_string '''' (arg req ''from'')) of
                None \<Rightarrow> (Fail ''bad_path'' ''invalid or unsafe path'', s)
              | Some src \<Rightarrow>
                  (case ResolveSdPath (as_string '''' (arg req ''to'')) of
                     None \<Rightarrow> (Fail ''bad_path'' ''invalid or unsafe path'', s)
                   | Some dst \<Rightarrow>
                       if fs_open_read A (disk s) (c_str src) = None
                       then (Fail ''not_found'' ''source not found'', s)
                       else let (opened, s) = on_disk (fs_create A (c_str dst)) s
                            in if \<not> opened then (Fail ''io_error'' ''cannot open destination'', s)
                               else let content = (case fs_open_read A (disk s) (c_str src) of None \<Rightarrow> [] | Some (c, _) \<Rightarrow> c);
                                        (n, s) = on_disk (fcopy_loop A (c_str dst) 0 content) s
                                    in (success [(''ok'', JBool True), (''bytes'', JInt (word_of_nat n))], s)))"

end
