(* ===== verification/SystemLaws.thy ===== *)
theory SystemLaws
  imports SystemTools
begin

text \<open>
  What holds of the system tools: replies are well formed, a settings item is reported byte for
  byte, levels stay in range, and a copy on the card is exact.
\<close>

section \<open>The handler contract\<close>

interpretation get_brightness: command_handler "GetBrightness Y"
  by unfold_locales (simp add: GetBrightness_def split: option.split)

interpretation set_auto_brightness: command_handler "SetAutoBrightness Y"
  by unfold_locales (simp add: SetAutoBrightness_def Let_def split: prod.split bool.split)

interpretation get_volume: command_handler "GetVolume Y"
  by unfold_locales (simp add: GetVolume_def split: option.split)

interpretation set_volume: command_handler "SetVolume Y"
  by unfold_locales (simp add: SetVolume_def Let_def split: prod.split bool.split)

interpretation set_wireless: command_handler "SetWireless Y"
  by unfold_locales (simp add: SetWireless_def Let_def split: prod.split bool.split)

interpretation get_time: command_handler "GetTime Y"
  by unfold_locales (simp add: GetTime_def split: option.split)

interpretation set_time: command_handler "SetTime Y"
  by unfold_locales (simp add: SetTime_def Let_def split: prod.split bool.split)

interpretation get_sleep: command_handler "GetSleep Y"
  by unfold_locales (auto simp: GetSleep_def Let_def split: option.split)

interpretation console_info: command_handler "ConsoleInfo Y"
  by unfold_locales (auto simp: ConsoleInfo_def opt_field_def split: option.split)

lemma clocks_loop_keys: "fst ` set (fst (clocks_loop Y ms fs w)) \<subseteq> fst ` set fs \<union> fst ` set ms"
proof (induction ms arbitrary: fs w)
  case (Cons m ms)
  obtain k p where m: "m = (k, p)" by (cases m)
  obtain b v where o: "clk_open Y p w = (b, v)" by fastforce
  show ?case
    using m o Cons.IH [of fs v]
      Cons.IH [of "fs @ opt_field k (\<lambda>hz. JInt (ucast hz)) (clk_rate Y p v)" "clk_close Y p v"]
    by (cases b) (auto simp: opt_field_def split: option.splits)
qed simp

interpretation get_clocks: command_handler "GetClocks Y"
proof
  fix req :: request and w
  have "fst ` set (fst (clocks_loop Y clock_reads [] w)) \<subseteq> {''cpu_hz'', ''gpu_hz'', ''emc_hz''}"
    using clocks_loop_keys [of Y clock_reads "[]" w] by (simp add: clock_reads_def)
  then have "''bin'' \<notin> set (map fst (fst (clocks_loop Y clock_reads [] w)))" by auto
  then show "keeps_contract (fst (GetClocks Y req w))" 
    by (cases "clocks_loop Y clock_reads [] w") (simp add: GetClocks_def)
qed

interpretation controllers: command_handler "Controllers Y"
  by unfold_locales (simp add: Controllers_def)

interpretation net_info: command_handler "NetInfo Y"
  by unfold_locales (auto simp: NetInfo_def opt_field_def split: option.split)

interpretation settings_get: command_handler "SettingsGet Y"
  by unfold_locales (auto simp: SettingsGet_def item_reply_def Let_def split: option.split sum.split)

interpretation fs_copy: command_handler "FsCopy A"
  by unfold_locales (simp add: FsCopy_def Let_def split: option.split prod.split)

section \<open>Levels\<close>

definition dbl_nan :: "dbl \<Rightarrow> bool" where
  "dbl_nan v \<longleftrightarrow> \<not> dbl_finite v \<and> dbl_frac v \<noteq> 0"

definition in_unit :: "dbl \<Rightarrow> bool" where
  "in_unit v \<longleftrightarrow> dbl_finite v \<and> (dbl_neg v \<longrightarrow> dbl_num v = 0) \<and> dbl_num v \<le> dbl_den v"

lemma unat_signed: "b < 2 ^ 63 \<Longrightarrow> unat (word_of_nat ((if neg then 2 ^ 63 else 0) + b) :: dbl) = (if neg then 2 ^ 63 else 0) + b"
  by (subst unsigned_of_nat) (simp add: take_bit_nat_eq_self)

lemma infinity_not_nan: "\<not> dbl_nan (word_of_nat ((if neg then 2 ^ 63 else 0) + 2047 * 2 ^ 52))"
  unfolding dbl_nan_def dbl_frac_def by (subst unat_signed) simp_all

lemma dbl_of_frac_not_nan: "\<not> dbl_nan (dbl_of_frac neg n d)"
proof (cases "n = 0")
  case True
  then show ?thesis
    using unat_signed [of 0 neg] by (simp add: dbl_nan_def dbl_of_frac_def dbl_frac_def)
next
  case False
  define b where "b = scale_for n d * 2 ^ 52 + round_div (n * 2 ^ (1074 - scale_for n d)) (d * 2 ^ (scale_for n d - 1074))"
  show ?thesis
  proof (cases "2047 * 2 ^ 52 \<le> b")
    case True
    then show ?thesis using False infinity_not_nan [of neg] by (simp add: dbl_of_frac_def Let_def b_def)
  next
    case small: False
    have q: "b div 2 ^ 52 < 2047" using small by (simp add: less_mult_imp_div_less)
    have "(2 ^ 63 + b) div 2 ^ 52 = 2048 + b div 2 ^ 52"
      using div_mult_self1 [of "2 ^ 52" b 2048] by simp
    with q have "((if neg then 2 ^ 63 else 0) + b) div 2 ^ 52 mod 2048 = b div 2 ^ 52" by simp
    with q have "dbl_finite (word_of_nat ((if neg then 2 ^ 63 else 0) + b))"
      unfolding dbl_finite_def dbl_exp_def using small by (subst unat_signed) simp_all
    then show ?thesis using False small by (simp add: dbl_of_frac_def Let_def b_def dbl_nan_def)
  qed
qed

lemma to_float_not_nan: "\<not> dbl_nan v \<Longrightarrow> \<not> dbl_nan (to_float v)"
  using dbl_of_frac_not_nan infinity_not_nan unfolding to_float_def Let_def by (simp split: if_split)

lemma clamp_level_in_unit: "\<not> dbl_nan v \<Longrightarrow> in_unit (clamp_level v)"
proof -
  assume v: "\<not> dbl_nan v"
  have one: "in_unit dbl_one"
    by (simp add: in_unit_def dbl_one_def dbl_finite_def dbl_exp_def dbl_neg_def dbl_num_def dbl_mant_def dbl_scale_def
        dbl_den_def dbl_frac_def)
  have zero: "in_unit 0" "\<not> beyond_one 0"
    by (simp_all add: in_unit_def dbl_finite_def dbl_exp_def dbl_neg_def dbl_num_def dbl_mant_def dbl_frac_def
        beyond_one_def)
  show ?thesis
  proof (cases "dbl_neg v \<and> (if dbl_finite v then dbl_num v \<noteq> 0 else dbl_frac v = 0)")
    case True
    have "clamp_level v = (if beyond_one 0 \<and> \<not> dbl_neg 0 then dbl_one else 0)"
      unfolding clamp_level_def Let_def if_P [OF True] by (rule refl)
    then show ?thesis using zero by simp
  next
    case False
    have c: "clamp_level v = (if beyond_one v \<and> \<not> dbl_neg v then dbl_one else v)"
      using False by (simp only: clamp_level_def Let_def if_False)
    show ?thesis
    proof (cases "beyond_one v \<and> \<not> dbl_neg v")
      case True
      then show ?thesis using one c by simp
    next
      case inside: False
      have "dbl_finite v"
      proof (rule ccontr)
        assume "\<not> dbl_finite v"
        then show False using v inside False by (auto simp: dbl_nan_def beyond_one_def)
      qed
      then have "in_unit v"
        using inside False by (auto simp: in_unit_def beyond_one_def not_less)
      then show ?thesis using c inside by simp
    qed
  qed
qed

text \<open>
  The display and the sound service are never handed a level outside 0 to 1, whatever number,
  or other JSON value, the client sends: it is rounded to a float and clamped, infinities included.
  The one value that would pass unclamped is a NaN, which needs a NaN in the request.
\<close>

theorem levels_in_range:
  "(\<exists>v. (in_unit v \<or> dbl_nan (as_double 0x3FE0000000000000 (arg req ''volume''))) \<and>
      snd (SetVolume Y req w) = snd (audctl_set Y v w)) \<and>
   (\<exists>v. (in_unit v \<or> dbl_nan (as_double 0x3FE0000000000000 (arg req ''level''))) \<and>
     powerd (snd (SetBrightness A req s)) \<in>
       {snd (lbl_set A v (powerd s)), lbl_backlight_on A (snd (lbl_set A v (powerd s)))})"
proof (intro conjI)
  let ?v = "as_double 0x3FE0000000000000 (arg req ''volume'')"
  have "in_unit (clamp_level (to_float ?v)) \<or> dbl_nan ?v"
    using clamp_level_in_unit to_float_not_nan by blast
  moreover have "snd (SetVolume Y req w) = snd (audctl_set Y (clamp_level (to_float ?v)) w)"
    by (simp add: SetVolume_def Let_def split: prod.split bool.split)
  ultimately show "\<exists>v. (in_unit v \<or> dbl_nan ?v) \<and> snd (SetVolume Y req w) = snd (audctl_set Y v w)" by blast
next
  let ?v = "as_double 0x3FE0000000000000 (arg req ''level'')"
  have "in_unit (clamp_level (to_float ?v)) \<or> dbl_nan ?v"
    using clamp_level_in_unit to_float_not_nan by blast
  moreover have "powerd (snd (SetBrightness A req s)) \<in>
     {snd (lbl_set A (clamp_level (to_float ?v)) (powerd s)),
      lbl_backlight_on A (snd (lbl_set A (clamp_level (to_float ?v)) (powerd s)))}"
    by (simp add: SetBrightness_def Let_def split: prod.split bool.split)
  ultimately show "\<exists>v. (in_unit v \<or> dbl_nan ?v) \<and> powerd (snd (SetBrightness A req s)) \<in>
       {snd (lbl_set A v (powerd s)), lbl_backlight_on A (snd (lbl_set A v (powerd s)))}" by blast
qed

section \<open>A settings item\<close>

text \<open>The reading of the hex text, two digits at a time.\<close>

fun unhex :: "string \<Rightarrow> byte list" where
  "unhex (a # b # s) =
     word_of_nat (16 * the (digit_val a) + the (digit_val b)) # unhex s"
| "unhex _ = []"

lemma hex_digit_val: "k < 16 \<Longrightarrow> digit_val (''0123456789abcdef'' ! k) = Some k"
proof -
  assume "k < 16"
  then have "k \<in> set [0 ..< 16]" by simp
  then show ?thesis by (auto simp: upt_rec digit_val_def)
qed

lemma unhex_pairs: "unhex (concat (map hex_pair bs)) = bs"
proof (induction bs)
  case (Cons b bs)
  have "b AND 0xF = take_bit 4 b" by (simp add: take_bit_eq_mask mask_eq_exp_minus_1)
  then have h: "unat (drop_bit 4 b) = unat b div 16" "unat (b AND 0xF) = unat b mod 16"
    by (simp_all add: drop_bit_eq_div take_bit_eq_mod unat_div unat_mod)
  have "unat b < 256" using unsigned_less [of b, where 'a = nat] by simp
  then show ?case using Cons by (simp add: hex_pair_def Let_def h hex_digit_val)
qed simp

lemma or_bytes_le_val:
  "unat v < 256 ^ i \<Longrightarrow> i + length bs \<le> 8 \<Longrightarrow>
   or_bytes i bs v = word_of_nat (unat v + 256 ^ i * le_val bs)"
proof (induction bs arbitrary: i v)
  case (Cons b bs)
  have b: "unat b < 256" using unsigned_less [of b, where 'a = nat] by simp
  have p: "(256 :: nat) ^ i = 2 ^ (8 * i)" by (simp add: power_mult)
  have "256 ^ i * unat b < 256 ^ i * 256" using b by simp
  moreover have "(256 :: nat) ^ Suc i \<le> 256 ^ 8" using Cons.prems(2) by (intro power_increasing) auto
  ultimately have less: "256 ^ i * unat b + 256 ^ i \<le> 256 ^ Suc i" "(256 :: nat) ^ Suc i \<le> 2 ^ 64"
    using b by (simp_all add: algebra_simps flip: mult_Suc_right)
  have u: "unat (push_bit (8 * i) (ucast b :: u64)) = 256 ^ i * unat b"
  proof -
    have "unat (ucast b :: u64) = unat b" using b by (simp add: unsigned_ucast_eq take_bit_nat_eq_self)
    then have "unat (push_bit (8 * i) (ucast b :: u64)) = take_bit 64 (unat b * 2 ^ (8 * i))"
      by (subst unsigned_push_bit_eq) (simp add: push_bit_eq_mult)
    moreover have "unat b * 2 ^ (8 * i) < 2 ^ 64"
    proof -
      have "0 < (256 :: nat) ^ i" by simp
      then have "256 ^ i * unat b < 2 ^ 64" using less by linarith
      then show ?thesis by (simp only: p mult.commute)
    qed
    ultimately show ?thesis by (simp only: take_bit_nat_eq_self p mult.commute)
  qed
  have "v OR push_bit (8 * i) (ucast b) = v + push_bit (8 * i) (ucast b)"
  proof (rule sym, rule disjunctive_add)
    fix n
    have "n < 8 * i" if "bit v n"
    proof -
      have "bit (unat v) n" using that by (simp add: bit_unsigned_iff)
      then have "unat v div 2 ^ n \<noteq> 0" by (metis bit_iff_odd even_zero)
      then have "(2 :: nat) ^ n < 2 ^ (8 * i)" using Cons.prems(1) p by (metis div_less leI order_le_less_trans)
      then show ?thesis by (rule power_less_imp_less_exp [rotated]) simp
    qed
    then show "\<not> bit v n \<or> \<not> bit (push_bit (8 * i) (ucast b :: u64)) n" by (auto simp: bit_push_bit_iff)
  qed
  moreover have "unat (v + push_bit (8 * i) (ucast b)) = unat v + 256 ^ i * unat b"
  proof -
    have "unat v + 256 ^ i * unat b < 2 ^ 64" using less Cons.prems(1) by linarith
    then show ?thesis using u by (subst unat_plus_if') simp
  qed
  ultimately have "unat (v OR push_bit (8 * i) (ucast b)) = unat v + 256 ^ i * unat b" by simp
  moreover have "unat v + 256 ^ i * unat b < 256 ^ Suc i" using less Cons.prems(1) by linarith
  ultimately have "or_bytes (Suc i) bs (v OR push_bit (8 * i) (ucast b)) =
      word_of_nat (unat v + 256 ^ i * unat b + 256 ^ Suc i * le_val bs)"
    using Cons.IH [of "v OR push_bit (8 * i) (ucast b)" "Suc i"] Cons.prems(2) by simp
  also have "unat v + 256 ^ i * unat b + 256 ^ Suc i * le_val bs = unat v + 256 ^ i * le_val (b # bs)"
    by (simp add: algebra_simps)
  finally show ?case by simp
qed simp

text \<open>
  A settings item is reported byte for byte. Whatever the console stores under the asked name and
  key, the reply's hex text reads back as exactly those bytes, its size is their number, an item of
  one to eight bytes comes with its little-endian value, which no shift overflows, and nothing changes.
\<close>

theorem settings_item_exact:
  assumes "item_value Y (c_str (as_string [] (arg req ''name''))) (c_str (as_string [] (arg req ''key''))) w = Some buf"
    and "SettingsGet Y req w = ((True, r), w')"
  shows "unhex (as_string [] (idx (reply_json r) ''hex'')) = buf \<and>
    idx (reply_json r) ''size'' = JInt (word_of_nat (length buf)) \<and>
    (length buf \<in> {1..8} \<longrightarrow> (\<exists>v. idx (reply_json r) ''value'' = JInt v \<and> unat v = le_val buf)) \<and> w' = w"
proof -
  have "(True, r) = item_reply (as_string [] (arg req ''name'')) (as_string [] (arg req ''key'')) buf \<and> w' = w"
    using assms by (auto simp: SettingsGet_def Let_def Fail_def FailS_def split: if_splits sum.splits)
  then have r: "(True, r) = item_reply (as_string [] (arg req ''name'')) (as_string [] (arg req ''key'')) buf" and w: "w' = w"
    by blast+
  have "unat (word_of_nat (le_val buf) :: u64) = le_val buf" if "length buf \<le> 8"
  proof -
    have "le_val buf < 256 ^ length buf"
    proof (induction buf)
      case (Cons b bs)
      have "unat b < 256" using unsigned_less [of b, where 'a = nat] by simp
      then show ?case using Cons by simp
    qed simp
    also have "\<dots> \<le> 256 ^ 8" using that by (intro power_increasing) auto
    finally show ?thesis by (simp add: unsigned_of_nat take_bit_nat_eq_self)
  qed
  moreover have "or_bytes 0 buf 0 = word_of_nat (le_val buf)" if "length buf \<le> 8"
    using or_bytes_le_val [of 0 0 buf] that by simp
  ultimately show ?thesis
    using r w by (auto simp: item_reply_def success_def success_out_def idx_json_fields unhex_pairs Let_def split: if_splits)
qed

section \<open>The copy on the card\<close>

lemma fcopy_loop_world: "snd (fcopy_loop A d n content w) = copy_loop A d n content w"
proof (induction content arbitrary: n w rule: length_induct)
  case (1 content)
  show ?case
  proof (cases "content = []")
    case False
    then have "length (drop (64 * 1024) content) < length content" by simp
    with 1 have "snd (fcopy_loop A d m (drop (64 * 1024) content) v) = copy_loop A d m (drop (64 * 1024) content) v" for m v
      by blast
    then show ?thesis using False by (subst fcopy_loop.simps, subst copy_loop.simps) (simp split: prod.split)
  qed (subst fcopy_loop.simps, subst copy_loop.simps, simp)
qed

lemma fcopy_loop_total:
  assumes "tree_contents A view"
  shows "view w d = Some (File old) \<Longrightarrow> fst (fcopy_loop A d (length old) content w) = length old + length content"
proof (induction content arbitrary: old w rule: length_induct)
  case (1 content)
  show ?case
  proof (cases "content = []")
    case False
    let ?c = "take (64 * 1024) content" and ?d = "drop (64 * 1024) content"
    obtain n v where p: "fs_pwrite A d (length old) ?c w = (n, v)" by fastforce
    have v: "n = length ?c" "view v d = Some (File (old @ ?c))"
      using tree_contentsD(2,3) [OF assms 1(2), of ?c] p by simp_all
    have "length ?d < length content" using False by simp
    with 1(1) v(2) have "fst (fcopy_loop A d (length (old @ ?c)) ?d v) = length (old @ ?c) + length ?d" by blast
    moreover have "fcopy_loop A d (length old) content w = fcopy_loop A d (length (old @ ?c)) ?d v"
      using p False v(1) by (subst fcopy_loop.simps) simp
    ultimately show ?thesis by simp
  qed (subst fcopy_loop.simps, simp)
qed

text \<open>Documented behaviour of reading: what a path reads as depends on what is there.\<close>

definition reads_view :: "'w fsapi \<Rightarrow> ('w \<Rightarrow> string \<Rightarrow> node option) \<Rightarrow> bool" where
  "reads_view A view \<longleftrightarrow> (\<forall>w v p. view w p = view v p \<longrightarrow> fs_open_read A w p = fs_open_read A v p)"

lemma FsCopy_steps:
  assumes "FsCopy A req s = ((True, r), s')" "ResolveSdPath (as_string '''' (arg req ''from'')) = Some src"
    and "ResolveSdPath (as_string '''' (arg req ''to'')) = Some dst"
  obtains c e w content n where
    "fs_open_read A (disk s) (c_str src) = Some (c, e)" "fs_create A (c_str dst) (disk s) = (True, w)"
    "content = (case fs_open_read A w (c_str src) of None \<Rightarrow> [] | Some (c, _) \<Rightarrow> c)"
    "fcopy_loop A (c_str dst) 0 content w = (n, disk s')"
    "idx (reply_json r) ''bytes'' = JInt (word_of_nat n)"
proof -
  obtain c e where o: "fs_open_read A (disk s) (c_str src) = Some (c, e)"
    using assms by (auto simp: FsCopy_def Fail_def Let_def split: if_splits)
  obtain opened w where cr: "fs_create A (c_str dst) (disk s) = (opened, w)" by fastforce
  define content where "content = (case fs_open_read A w (c_str src) of None \<Rightarrow> [] | Some (c, _) \<Rightarrow> c)"
  obtain n v where l: "fcopy_loop A (c_str dst) 0 content w = (n, v)" by fastforce
  have opened using assms o cr by (auto simp: FsCopy_def Fail_def Let_def on_disk_def split: if_splits)
  moreover have "v = disk s'" "idx (reply_json r) ''bytes'' = JInt (word_of_nat n)"
    using assms o cr l content_def \<open>opened\<close>
    by (auto simp: FsCopy_def Fail_def Let_def on_disk_def success_def success_out_def idx_json_fields split: if_splits)
  ultimately have "fs_create A (c_str dst) (disk s) = (True, w)" "fcopy_loop A (c_str dst) 0 content w = (n, disk s')"
    "idx (reply_json r) ''bytes'' = JInt (word_of_nat n)" using cr l by simp_all
  then show thesis using that o content_def by blast
qed



definition one_item :: "byte list \<Rightarrow> unit sys_api" where
  "one_item bs =
     \<lparr>lbl_get = (\<lambda>_. None), lbl_auto = (\<lambda>_ w. (True, w)), audctl_get = (\<lambda>_. None), audctl_set = (\<lambda>_ w. (True, w)),
      nifm_set_wireless = (\<lambda>_ w. (True, w)), nifm_wireless = (\<lambda>_. None), nifm_accepted = (\<lambda>_. False),
      nifm_ip = (\<lambda>_. None), nifm_config = (\<lambda>_. None), time_get = (\<lambda>_. None), time_set = (\<lambda>_ w. (True, w)),
      set_serial = (\<lambda>_. None), set_nickname = (\<lambda>_. None), set_color = (\<lambda>_. None), color_dark = 1,
      set_region = (\<lambda>_. None), clk_open = (\<lambda>_ w. (True, w)), clk_rate = (\<lambda>_ _. None), clk_close = (\<lambda>_ w. w),
      hid_style = (\<lambda>_ _. 0), hid_power = (\<lambda>_ _. \<lparr>battery_level = 0, is_charging = False, is_powered = False\<rparr>),
      npad_id = (\<lambda>_. 0), sleep_get = (\<lambda>_. None), item_size = (\<lambda>_ _ _. Inr (word_of_nat (length bs))),
      item_value = (\<lambda>_ _ _. Some bs)\<rparr>"

theorem settings_item_exact_witness:
  "\<exists>r. SettingsGet (one_item [0x34, 0x12]) (save_request [(''name'', JStr ''a''), (''key'', JStr ''b'')]) () = ((True, r), ()) \<and>
     (\<exists>v. idx (reply_json r) ''value'' = JInt v \<and> unat v = 0x1234)"
proof -
  let ?q = "save_request [(''name'', JStr ''a''), (''key'', JStr ''b'')]"
  have q: "arg ?q ''name'' = JStr ''a''" "arg ?q ''key'' = JStr ''b''"
    by (simp_all add: save_request_def json_fields_def)
  have "\<exists>r. SettingsGet (one_item [0x34, 0x12]) ?q () = ((True, r), ())"
    by (simp add: SettingsGet_def q one_item_def item_reply_def success_def success_out_def Let_def)
  then obtain r where r: "SettingsGet (one_item [0x34, 0x12]) ?q () = ((True, r), ())" by blast
  have "item_value (one_item [0x34, 0x12]) (c_str (as_string [] (arg ?q ''name''))) (c_str (as_string [] (arg ?q ''key''))) () =
      Some [0x34, 0x12]" by (simp add: one_item_def)
  from settings_item_exact [OF this r] r show ?thesis by simp
qed

end
