(* ===== verification/TitleTools.thy ===== *)
theory TitleTools
  imports Reports
begin

text \<open>
  Title management (\<^verbatim>\<open>handlers/titles.cpp\<close>): the list of the installed titles read page by page,
  their icons, the running application, and launching, terminating and uninstalling a title.
\<close>

section \<open>The services\<close>

text \<open>
  A title's control data: the 16 language entries (name, author), the one chosen for the system
  language (\<^verbatim>\<open>nacpGetLanguageEntry\<close> may give none), the displayed version, the size the service
  reports, and the bytes behind the NACP.
\<close>

record control_data =
  cd_lang :: "(string \<times> string) list"
  cd_entry :: "(string \<times> string) option"
  cd_version :: string
  cd_size :: u64
  cd_icon :: "byte list"

datatype title_storage = NcmStorageId_BuiltInUser | NcmStorageId_SdCard | NcmStorageId_Any

record 'w ns_api =
  ns_records :: "i32 \<Rightarrow> 'w \<Rightarrow> u64 list option"
  ns_control :: "u64 \<Rightarrow> 'w \<Rightarrow> control_data option"
  nacp_size :: u64
  pm_app :: "'w \<Rightarrow> u64 option"
  pm_program :: "u64 \<Rightarrow> 'w \<Rightarrow> u64 option"
  pm_launch :: "title_storage \<Rightarrow> u64 \<Rightarrow> 'w \<Rightarrow> u64 option \<times> 'w"
  pm_terminate :: "u64 \<Rightarrow> 'w \<Rightarrow> bool \<times> 'w"
  ns_delete :: "u64 \<Rightarrow> 'w \<Rightarrow> bool \<times> 'w"

section \<open>The list of titles\<close>

definition title_entry :: "control_data \<Rightarrow> (string \<times> string) option" where
  "title_entry c =
     (case cd_entry c of
        Some e \<Rightarrow> if fst e \<noteq> [] then Some e else find (\<lambda>e. fst e \<noteq> []) (cd_lang c)
      | None \<Rightarrow> find (\<lambda>e. fst e \<noteq> []) (cd_lang c))"

definition title_json :: "'w ns_api \<Rightarrow> 'w \<Rightarrow> u64 \<Rightarrow> json" where
  "title_json N w tid =
     json_fields ((''tid'', JStr (fmt_016lx tid)) #
       (case ns_control N tid w of
          None \<Rightarrow> []
        | Some c \<Rightarrow>
            (case title_entry c of None \<Rightarrow> [] | Some (name, author) \<Rightarrow> [(''name'', JStr name), (''author'', JStr author)]) @
            [(''version'', JStr (cd_version c))]))"

text \<open>The paging loop: it ends at an error, an empty page or a page that is not full; \<open>None\<close> is a loop still running.\<close>

primrec titles_loop :: "nat \<Rightarrow> 'w ns_api \<Rightarrow> 'w \<Rightarrow> i32 \<Rightarrow> json list \<Rightarrow> json list option" where
  "titles_loop 0 N w offset acc = None"
| "titles_loop (Suc k) N w offset acc =
     (case ns_records N offset w of
        None \<Rightarrow> Some acc
      | Some recs \<Rightarrow>
          if recs = [] then Some acc
          else let acc = acc @ map (title_json N w) recs
               in if length recs < 32 then Some acc
                  else titles_loop k N w (offset + word_of_nat (length recs)) acc)"

definition Titles :: "nat \<Rightarrow> 'w ns_api \<Rightarrow> request \<Rightarrow> 'w \<Rightarrow> ((bool \<times> reply) \<times> 'w) option" where
  "Titles fuel N req w =
     map_option (\<lambda>l. (success [(''titles'', JArr l)], w)) (titles_loop fuel N w 0 [])"

definition TitleIcon :: "'w ns_api \<Rightarrow> request \<Rightarrow> 'w \<Rightarrow> (bool \<times> reply) \<times> 'w" where
  "TitleIcon N req w =
     (let tid = hex_arg req ''tid''
      in if tid = 0 then (Fail ''bad_arg'' ''missing tid'', w)
         else case ns_control N tid w of
                None \<Rightarrow> (Fail ''not_found'' ''no control data for title'', w)
              | Some c \<Rightarrow>
                  let icon_size = (if nacp_size N < cd_size c then cd_size c - nacp_size N else 0)
                  in if icon_size = 0 then (Fail ''not_found'' ''no icon'', w)
                     else (success_out [(''jpeg'', JBool True)] (take (unat icon_size) (cd_icon c)), w))"

section \<open>Running titles\<close>

definition RunningApp :: "'w ns_api \<Rightarrow> request \<Rightarrow> 'w \<Rightarrow> (bool \<times> reply) \<times> 'w" where
  "RunningApp N req w =
     (case pm_app N w of
        None \<Rightarrow> (success [(''running'', JBool False)], w)
      | Some pid \<Rightarrow>
          if pid = 0 then (success [(''running'', JBool False)], w)
          else (success ([(''running'', JBool True), (''pid'', JInt pid)] @
                  opt_field ''tid'' (\<lambda>t. JStr (fmt_016lx t)) (pm_program N pid w)), w))"

definition kStorages :: "title_storage list" where
  "kStorages = [NcmStorageId_BuiltInUser, NcmStorageId_SdCard, NcmStorageId_Any]"

fun launch_loop :: "'w ns_api \<Rightarrow> u64 \<Rightarrow> title_storage list \<Rightarrow> 'w \<Rightarrow> u64 option \<times> 'w" where
  "launch_loop N tid [] w = (None, w)"
| "launch_loop N tid (st # sts) w =
     (case pm_launch N st tid w of
        (Some pid, w) \<Rightarrow> (Some pid, w)
      | (None, w) \<Rightarrow> launch_loop N tid sts w)"

definition use_album :: string where
  "use_album =
     ''0142b048fd620000 is the hbloader takeover ID. Launching it directly spawns a process that renders '' @
     ''nothing and then blocks the real launch path. Start homebrew via the Album applet, or hold R while '' @
     ''launching a game. Pass force=true if you really mean it.''"

definition Launch :: "'w ns_api \<Rightarrow> request \<Rightarrow> 'w \<Rightarrow> (bool \<times> reply) \<times> 'w" where
  "Launch N req w =
     (if as_string [] (arg req ''tid'') = ''0142b048fd620000'' \<and> \<not> as_bool False (arg req ''force'')
      then (Fail ''use_album_applet'' use_album, w)
      else let tid = hex_arg req ''tid''
           in if tid = 0 then (Fail ''bad_arg'' ''missing tid'', w)
              else case launch_loop N tid kStorages w of
                     (None, w) \<Rightarrow> (Fail ''launch_failed'' ''pmshellLaunchProgram failed'', w)
                   | (Some pid, w) \<Rightarrow> (success [(''ok'', JBool True), (''pid'', JInt pid)], w))"

definition terminate_title :: "'w ns_api \<Rightarrow> u64 \<Rightarrow> 'w \<Rightarrow> (bool \<times> reply) \<times> 'w" where
  "terminate_title N tid w =
     (case pm_terminate N tid w of
        (False, w) \<Rightarrow> (Fail ''terminate_failed'' ''pmshellTerminateProgram failed'', w)
      | (True, w) \<Rightarrow> (success [(''ok'', JBool True)], w))"

definition Terminate :: "'w ns_api \<Rightarrow> request \<Rightarrow> 'w \<Rightarrow> (bool \<times> reply) \<times> 'w" where
  "Terminate N req w =
     (let tid = (if has (req_msg req) ''tid'' then hex_arg req ''tid'' else 0)
      in if tid \<noteq> 0 then terminate_title N tid w
         else case pm_app N w of
                None \<Rightarrow> (Fail ''no_app'' ''no foreground application running'', w)
              | Some pid \<Rightarrow>
                  if pid = 0 then (Fail ''no_app'' ''no foreground application running'', w)
                  else case pm_program N pid w of
                         None \<Rightarrow> (Fail ''no_app'' ''cannot resolve foreground title'', w)
                       | Some t \<Rightarrow> terminate_title N t w)"

definition Uninstall :: "'w ns_api \<Rightarrow> request \<Rightarrow> 'w \<Rightarrow> (bool \<times> reply) \<times> 'w" where
  "Uninstall N req w =
     (if \<not> allow_nand_write (req_cfg req)
      then (Fail ''disabled'' ''uninstall requires allow_nand_write=true in config'', w)
      else let tid = hex_arg req ''tid''
           in if tid = 0 then (Fail ''bad_arg'' ''missing tid'', w)
              else case ns_delete N tid w of
                     (False, w) \<Rightarrow> (Fail ''uninstall_failed'' ''nsDeleteApplicationCompletely failed'', w)
                   | (True, w) \<Rightarrow> (success [(''ok'', JBool True)], w))"

end
