(* ===== verification/Hardware.thy ===== *)
theory Hardware
  imports Reports
begin

text \<open>
  The remaining device services: the i2c and gpio buses (\<^verbatim>\<open>handlers/hardware.cpp\<close>), the capture album
  (\<^verbatim>\<open>handlers/album.cpp\<close>), screenshots (\<^verbatim>\<open>handlers/screen.cpp\<close>) and the cheat service's own commands
  (\<^verbatim>\<open>handlers/cheat.cpp\<close>).
\<close>

section \<open>Buses\<close>

text \<open>A session is known by a number; a send or receive reports whether it succeeded.\<close>

record 'w bus_api =
  i2c_open :: "u32 \<Rightarrow> 'w \<Rightarrow> u32 option \<times> 'w"
  i2c_send :: "u32 \<Rightarrow> byte list \<Rightarrow> 'w \<Rightarrow> bool \<times> 'w"
  i2c_receive :: "u32 \<Rightarrow> nat \<Rightarrow> 'w \<Rightarrow> byte list option \<times> 'w"
  i2c_close :: "u32 \<Rightarrow> 'w \<Rightarrow> 'w"
  gpio_open :: "u32 \<Rightarrow> 'w \<Rightarrow> u32 option \<times> 'w"
  gpio_value :: "u32 \<Rightarrow> 'w \<Rightarrow> u32 option"
  gpio_close :: "u32 \<Rightarrow> 'w \<Rightarrow> 'w"
  dev_tmp451 :: i64
  pad_vol_up :: i64
  gpio_high :: u32

definition I2cRead :: "'w bus_api \<Rightarrow> request \<Rightarrow> 'w \<Rightarrow> (bool \<times> reply) \<times> 'w" where
  "I2cRead B req w =
     (if \<not> allow_hardware (req_cfg req) then (Fail ''disabled'' ''i2c requires allow_hardware=true in config'', w)
      else let dev = (ucast (as_int (dev_tmp451 B) (arg req ''device'')) :: u32);
               len = as_int 1 (arg req ''len'');
               len = (if len \<le>s 0 \<or> 256 <s len then 1 else len)
           in case i2c_open B dev w of
                (None, w) \<Rightarrow> (Fail ''i2c_failed'' ''cannot open i2c device'', w)
              | (Some h, w) \<Rightarrow>
                  let w = (if has (req_msg req) ''reg''
                           then snd (i2c_send B h [ucast (as_int 0 (arg req ''reg''))] w) else w);
                      (got, w) = i2c_receive B h (unat len) w;
                      w = i2c_close B h w
                  in case got of
                       None \<Rightarrow> (Fail ''i2c_failed'' ''i2c receive failed'', w)
                     | Some buf \<Rightarrow> (success_out [(''device'', JInt (ucast dev))] buf, w))"

definition I2cWrite :: "'w bus_api \<Rightarrow> request \<Rightarrow> 'w \<Rightarrow> (bool \<times> reply) \<times> 'w" where
  "I2cWrite B req w =
     (if \<not> allow_hardware (req_cfg req) then (Fail ''disabled'' ''i2c requires allow_hardware=true in config'', w)
      else if req_payload req = [] then (Fail ''bad_arg'' ''no bytes to write'', w)
      else let dev = (ucast (as_int 0 (arg req ''device'')) :: u32)
           in case i2c_open B dev w of
                (None, w) \<Rightarrow> (Fail ''i2c_failed'' ''cannot open i2c device'', w)
              | (Some h, w) \<Rightarrow>
                  let (ok, w) = i2c_send B h (req_payload req) w;
                      w = i2c_close B h w
                  in if \<not> ok then (Fail ''i2c_failed'' ''i2c send failed'', w)
                     else (success [(''ok'', JBool True), (''written'', JInt (word_of_nat (length (req_payload req))))], w))"

definition GpioRead :: "'w bus_api \<Rightarrow> request \<Rightarrow> 'w \<Rightarrow> (bool \<times> reply) \<times> 'w" where
  "GpioRead B req w =
     (if \<not> allow_hardware (req_cfg req) then (Fail ''disabled'' ''gpio requires allow_hardware=true in config'', w)
      else let pad = (ucast (as_int (pad_vol_up B) (arg req ''pad'')) :: u32)
           in case gpio_open B pad w of
                (None, w) \<Rightarrow> (Fail ''gpio_failed'' ''cannot open gpio pad'', w)
              | (Some h, w) \<Rightarrow>
                  let v = gpio_value B h w;
                      w = gpio_close B h w
                  in case v of
                       None \<Rightarrow> (Fail ''gpio_failed'' ''gpio read failed'', w)
                     | Some v \<Rightarrow>
                         (success [(''pad'', JInt (ucast pad)), (''value'', JInt (ucast v)),
                            (''high'', JBool (v = gpio_high B))], w))"

section \<open>The album\<close>

record album_date =
  ad_year :: u16
  ad_month :: byte
  ad_day :: byte
  ad_hour :: byte
  ad_minute :: byte
  ad_second :: byte
  ad_id :: byte

record album_id =
  application_id :: u64
  ai_date :: album_date
  ai_storage :: byte
  ai_content :: byte

record 'w album_api =
  album_count :: "u32 \<Rightarrow> 'w \<Rightarrow> u64 option"
  album_files :: "u32 \<Rightarrow> nat \<Rightarrow> 'w \<Rightarrow> (u64 \<times> album_id) list option"
  album_load :: "album_id \<Rightarrow> nat \<Rightarrow> 'w \<Rightarrow> byte list option"
  storage_sd :: i64
  content_screenshot :: byte
  content_movie :: byte
  content_extra_screenshot :: byte
  content_extra_movie :: byte

definition ContentName :: "'w album_api \<Rightarrow> byte \<Rightarrow> string" where
  "ContentName L c =
     (if c = content_screenshot L then ''screenshot'' else if c = content_movie L then ''movie''
      else if c = content_extra_screenshot L then ''extra_screenshot''
      else if c = content_extra_movie L then ''extra_movie'' else ''unknown'')"

definition two_digits :: "byte \<Rightarrow> string" where
  "two_digits b = pad_left 2 (CHR ''0'') (dec_nat (unat b))"

definition date_text :: "album_date \<Rightarrow> string" where
  "date_text d =
     pad_left 4 (CHR ''0'') (dec_nat (unat (ad_year d))) @ ''-'' @ two_digits (ad_month d) @ ''-'' @
     two_digits (ad_day d) @ '' '' @ two_digits (ad_hour d) @ '':'' @ two_digits (ad_minute d) @ '':'' @
     two_digits (ad_second d)"

definition album_json :: "'w album_api \<Rightarrow> u64 \<times> album_id \<Rightarrow> json" where
  "album_json L e =
     (let (n, i) = e; d = ai_date i
      in json_fields
        [(''size'', JInt n), (''application_id'', JStr (fmt_016lx (application_id i))),
         (''content'', JStr (ContentName L (ai_content i))), (''storage'', JInt (ucast (ai_storage i))),
         (''year'', JInt (ucast (ad_year d))), (''month'', JInt (ucast (ad_month d))), (''day'', JInt (ucast (ad_day d))),
         (''hour'', JInt (ucast (ad_hour d))), (''minute'', JInt (ucast (ad_minute d))),
         (''second'', JInt (ucast (ad_second d))), (''id'', JInt (ucast (ad_id d))),
         (''datetime'', JStr (take 23 (date_text d)))])"

definition AlbumList :: "'w album_api \<Rightarrow> request \<Rightarrow> 'w \<Rightarrow> (bool \<times> reply) \<times> 'w" where
  "AlbumList L req w =
     (let storage = (ucast (as_int (storage_sd L) (arg req ''storage'')) :: u32)
      in case album_count L storage w of
           None \<Rightarrow> (Fail ''caps_failed'' ''cannot count album files'', w)
         | Some c \<Rightarrow>
             let c = (if 1000 < c then 1000 else c)
             in case (if c = 0 then Some [] else album_files L storage (unat c) w) of
                  None \<Rightarrow> (Fail ''caps_failed'' ''cannot list album files'', w)
                | Some es \<Rightarrow>
                    (success [(''files'', JArr (map (album_json L) es)), (''count'', JInt (word_of_nat (length es)))], w))"

definition download_id :: "'w album_api \<Rightarrow> request \<Rightarrow> album_id" where
  "download_id L req =
     \<lparr>application_id = hex_arg req ''application_id'',
      ai_date = \<lparr>ad_year = ucast (as_int 0 (arg req ''year'')), ad_month = ucast (as_int 0 (arg req ''month'')),
        ad_day = ucast (as_int 0 (arg req ''day'')), ad_hour = ucast (as_int 0 (arg req ''hour'')),
        ad_minute = ucast (as_int 0 (arg req ''minute'')), ad_second = ucast (as_int 0 (arg req ''second'')),
        ad_id = ucast (as_int 0 (arg req ''id''))\<rparr>,
      ai_storage = ucast (as_int (storage_sd L) (arg req ''storage'')),
      ai_content = ucast (as_int (ucast (content_screenshot L)) (arg req ''content_type''))\<rparr>"

definition AlbumDownload :: "'w album_api \<Rightarrow> request \<Rightarrow> 'w \<Rightarrow> (bool \<times> reply) \<times> 'w" where
  "AlbumDownload L req w =
     (let i = download_id L req
      in case album_load L i (2 ^ 20) w of
           None \<Rightarrow>
             (if ai_content i = content_movie L
              then (Fail ''too_large'' ''movies exceed the 1 MiB transfer cap'', w)
              else (Fail ''caps_failed'' ''cannot load album file'', w))
         | Some buf \<Rightarrow> (success_out [(''jpeg'', JBool (ai_content i = content_screenshot L))] buf, w))"

section \<open>Screenshots\<close>

datatype layer_stack = ViLayerStack_Default | ViLayerStack_ApplicationForDebug | ViLayerStack_Screenshot

definition kStacks :: "layer_stack list" where
  "kStacks = [ViLayerStack_Default, ViLayerStack_ApplicationForDebug, ViLayerStack_Screenshot]"

text \<open>The first stack that captures something; a capture of no bytes goes on to the next.\<close>

fun capture_loop :: "(layer_stack \<Rightarrow> nat \<Rightarrow> 'w \<Rightarrow> byte list option \<times> 'w) \<Rightarrow> layer_stack list \<Rightarrow> 'w \<Rightarrow> byte list option \<times> 'w" where
  "capture_loop capture [] w = (None, w)"
| "capture_loop capture (l # ls) w =
     (case capture l (512 * 1024) w of
        (Some (b # bs), w) \<Rightarrow> (Some (b # bs), w)
      | (_, w) \<Rightarrow> capture_loop capture ls w)"

definition Screenshot ::
  "(layer_stack \<Rightarrow> nat \<Rightarrow> 'w \<Rightarrow> byte list option \<times> 'w) \<Rightarrow> request \<Rightarrow> 'w \<Rightarrow> (bool \<times> reply) \<times> 'w" where
  "Screenshot capture req w =
     (case capture_loop capture kStacks w of
        (None, w) \<Rightarrow> (Fail ''capture_failed'' ''no capturable layer (screen may be protected)'', w)
      | (Some buf, w) \<Rightarrow> (success_out [(''jpeg'', JBool True), (''width'', JInt 1280), (''height'', JInt 720)] buf, w))"

section \<open>The cheat service\<close>

record cheat_entry =
  ce_enabled :: u32
  ce_id :: u32
  ce_name :: string
  ce_opcodes :: u32

text \<open>One call of the service: the command number, the raw words in, a word out where it succeeds.\<close>

record 'w cht_service =
  sm_get :: "'w \<Rightarrow> bool \<times> 'w"
  cht_call :: "nat \<Rightarrow> u64 list \<Rightarrow> 'w \<Rightarrow> u64 option \<times> 'w"
  cht_entries :: "nat \<Rightarrow> u64 \<Rightarrow> u64 \<Rightarrow> nat \<Rightarrow> 'w \<Rightarrow> (u64 \<times> cheat_entry list) option \<times> 'w"

record 'w cht =
  chtd :: 'w
  g_cht_open :: bool

definition OpenCht :: "'w cht_service \<Rightarrow> 'w cht \<Rightarrow> (bool \<times> reply) option \<times> 'w cht" where
  "OpenCht C s =
     (if g_cht_open s then (None, s)
      else case sm_get C (chtd s) of
             (False, w) \<Rightarrow> (Some (Fail ''no_service'' ''dmnt:cht unavailable (cheat module off?)''), s\<lparr>chtd := w\<rparr>)
           | (True, w) \<Rightarrow> (None, s\<lparr>chtd := w, g_cht_open := True\<rparr>))"

definition cht_do :: "'w cht_service \<Rightarrow> nat \<Rightarrow> u64 list \<Rightarrow> 'w cht \<Rightarrow> u64 option \<times> 'w cht" where
  "cht_do C cmd args s = (let (r, w) = cht_call C cmd args (chtd s) in (r, s\<lparr>chtd := w\<rparr>))"

definition CheatStatus :: "'w cht_service \<Rightarrow> request \<Rightarrow> 'w cht \<Rightarrow> (bool \<times> reply) \<times> 'w cht" where
  "CheatStatus C req s =
     (case OpenCht C s of
        (Some e, s) \<Rightarrow> (e, s)
      | (None, s) \<Rightarrow>
          (case cht_do C 65000 [] s of
             (None, s) \<Rightarrow> (Fail ''ipc_failed'' ''HasCheatProcess failed'', s)
           | (Some v, s) \<Rightarrow>
               let present = ((ucast v :: byte) \<noteq> 0)
               in if \<not> present then (success [(''has_cheat_process'', JBool present)], s)
                  else let (count, s) = cht_do C 65100 [] s;
                           (frozen, s) = cht_do C 65200 [] s
                       in (success ([(''has_cheat_process'', JBool present)] @ opt_field ''cheat_count'' JInt count @
                             opt_field ''frozen_count'' JInt frozen), s)))"

definition cheat_json :: "cheat_entry \<Rightarrow> json" where
  "cheat_json e =
     json_fields [(''cheat_id'', JInt (ucast (ce_id e))), (''enabled'', JBool (ce_enabled e \<noteq> 0)),
       (''name'', JStr (take 63 (ce_name e))), (''opcode_count'', JInt (ucast (ce_opcodes e)))]"

text \<open>\<open>ce_name\<close> is the C string in the entry's name field; the list has an entry for every slot of the buffer.\<close>

definition CheatList :: "'w cht_service \<Rightarrow> request \<Rightarrow> 'w cht \<Rightarrow> (bool \<times> reply) \<times> 'w cht" where
  "CheatList C req s =
     (case OpenCht C s of
        (Some e, s) \<Rightarrow> (e, s)
      | (None, s) \<Rightarrow>
          (case cht_do C 65100 [] s of
             (None, s) \<Rightarrow> (Fail ''ipc_failed'' ''GetCheatCount failed'', s)
           | (Some total_cheats, s) \<Rightarrow>
               let n = (if 128 < total_cheats then 128 else total_cheats);
                   cap = (if n = 0 then 1 else unat n);
                   (r, w) = cht_entries C 65101 n 0 cap (chtd s);
                   s = s\<lparr>chtd := w\<rparr>
               in case r of
                    None \<Rightarrow> (Fail ''ipc_failed'' ''GetCheats failed'', s)
                  | Some (out_count, entries) \<Rightarrow>
                      (success [(''cheats'', JArr (map cheat_json (take (min (unat out_count) cap) entries)))], s)))"

definition CheatToggle :: "'w cht_service \<Rightarrow> request \<Rightarrow> 'w cht \<Rightarrow> (bool \<times> reply) \<times> 'w cht" where
  "CheatToggle C req s =
     (case OpenCht C s of
        (Some e, s) \<Rightarrow> (e, s)
      | (None, s) \<Rightarrow>
          let cid = (ucast (as_int (- 1) (arg req ''cheat_id'')) :: u32)
          in case cht_do C 65103 [ucast cid] s of
               (None, s) \<Rightarrow> (Fail ''ipc_failed'' ''ToggleCheat failed'', s)
             | (Some _, s) \<Rightarrow> (success [(''ok'', JBool True), (''cheat_id'', JInt (ucast cid))], s))"

definition FreezeAddress :: "'w cht_service \<Rightarrow> request \<Rightarrow> 'w cht \<Rightarrow> (bool \<times> reply) \<times> 'w cht" where
  "FreezeAddress C req s =
     (case OpenCht C s of
        (Some e, s) \<Rightarrow> (e, s)
      | (None, s) \<Rightarrow>
          (case cht_do C 65203 [as_int 0 (arg req ''addr''), as_int 4 (arg req ''width'')] s of
             (None, s) \<Rightarrow> (Fail ''ipc_failed'' ''EnableFrozenAddress failed'', s)
           | (Some v, s) \<Rightarrow> (success [(''ok'', JBool True), (''frozen_value'', JInt v)], s)))"

definition UnfreezeAddress :: "'w cht_service \<Rightarrow> request \<Rightarrow> 'w cht \<Rightarrow> (bool \<times> reply) \<times> 'w cht" where
  "UnfreezeAddress C req s =
     (case OpenCht C s of
        (Some e, s) \<Rightarrow> (e, s)
      | (None, s) \<Rightarrow>
          (case cht_do C 65204 [as_int 0 (arg req ''addr'')] s of
             (None, s) \<Rightarrow> (Fail ''ipc_failed'' ''DisableFrozenAddress failed'', s)
           | (Some _, s) \<Rightarrow> (success [(''ok'', JBool True)], s)))"

end
