(* ===== verification/DeviceLaws.thy ===== *)
theory DeviceLaws
  imports TitleTools Hardware
begin

text \<open>
  What holds of the title, bus, album, screenshot and cheat commands: well-formed replies, a complete
  title list, a download that addresses the listed file, buses that are closed again and touched only
  where the configuration allows it.
\<close>

section \<open>The handler contract\<close>

interpretation running_app: command_handler "RunningApp N"
  by unfold_locales (auto simp: RunningApp_def opt_field_def split: option.split)

interpretation launch: command_handler "Launch N"
  by unfold_locales (simp add: Launch_def Let_def split: prod.split option.split)

interpretation terminate: command_handler "Terminate N"
  by unfold_locales (simp add: Terminate_def terminate_title_def Let_def split: prod.split option.split bool.split)

interpretation uninstall: command_handler "Uninstall N"
  by unfold_locales (simp add: Uninstall_def Let_def split: prod.split bool.split)

interpretation i2c_write: command_handler "I2cWrite B"
  by unfold_locales (simp add: I2cWrite_def Let_def split: prod.split option.split)

interpretation gpio_read: command_handler "GpioRead B"
  by unfold_locales (simp add: GpioRead_def Let_def split: prod.split option.split)

interpretation album_list: command_handler "AlbumList L"
  by unfold_locales (simp add: AlbumList_def Let_def split: option.split)

lemma OpenCht_error: "OpenCht C s = (Some e, s') \<Longrightarrow> keeps_contract e"
  by (auto simp: OpenCht_def split: if_splits prod.splits bool.splits)

interpretation cheat_status: command_handler "CheatStatus C"
  by unfold_locales
    (auto simp: CheatStatus_def opt_field_def Let_def dest: OpenCht_error split: prod.split option.split)

interpretation cheat_list: command_handler "CheatList C"
  by unfold_locales (auto simp: CheatList_def Let_def dest: OpenCht_error split: prod.split option.split)

interpretation cheat_toggle: command_handler "CheatToggle C"
  by unfold_locales (auto simp: CheatToggle_def Let_def dest: OpenCht_error split: prod.split option.split)

interpretation freeze_address: command_handler "FreezeAddress C"
  by unfold_locales (auto simp: FreezeAddress_def dest: OpenCht_error split: prod.split option.split)

interpretation unfreeze_address: command_handler "UnfreezeAddress C"
  by unfold_locales (auto simp: UnfreezeAddress_def dest: OpenCht_error split: prod.split option.split)

section \<open>Hex numbers read back\<close>

lemma digit_not_special:
  assumes "digit_val c \<noteq> None"
  shows "\<not> is_space c \<and> c \<noteq> CHR ''-'' \<and> c \<noteq> CHR ''+'' \<and> c \<noteq> CHR ''x'' \<and> c \<noteq> CHR ''X'' \<and> code c \<noteq> 0"
  using assms by (auto simp: digit_val_def is_space_def Let_def split: if_splits)

lemma strtoull16_digits:
  assumes "\<forall>c \<in> set s. digit_val c \<noteq> None"
  shows "strtoull16 s = strtoull_digits 16 False s"
proof (cases s)
  case Nil
  then show ?thesis by (simp add: strtoull16_def read_sign_def skip_0x_def)
next
  case (Cons a t)
  have a: "\<not> is_space a" "a \<noteq> CHR ''-''" "a \<noteq> CHR ''+''" using assms Cons digit_not_special [of a] by auto
  have "skip_0x s = s"
  proof (cases t)
    case (Cons b u)
    then have "b \<noteq> CHR ''x''" "b \<noteq> CHR ''X''" using assms \<open>s = a # t\<close> digit_not_special [of b] by auto
    then show ?thesis using \<open>s = a # t\<close> Cons by (simp add: skip_0x_def split: list.split)
  qed (simp add: skip_0x_def Cons)
  then show ?thesis using a Cons by (simp add: strtoull16_def read_sign_def)
qed

lemma read_digits_hex_nat: "fst (read_digits 16 acc (hex_nat n)) = acc * 16 ^ length (hex_nat n) + n"
proof (induction n arbitrary: acc rule: hex_nat.induct)
  case (1 n)
  show ?case
  proof (cases "n < 16")
    case True
    then show ?thesis by (simp add: hex_nat.simps [of n])
  next
    case False
    have digs: "\<forall>c \<in> set (hex_nat (n div 16)). digit_in 16 c \<noteq> None"
    proof
      fix c assume "c \<in> set (hex_nat (n div 16))"
      then have "digit_val c \<noteq> None" by (rule hex_nat_chars)
      then show "digit_in 16 c \<noteq> None" by (auto simp: digit_in_def digit_val_def Let_def split: if_splits)
    qed
    have "fst (read_digits 16 acc (hex_nat n)) =
        (acc * 16 ^ length (hex_nat (n div 16)) + n div 16) * 16 + n mod 16"
      using False by (subst hex_nat.simps) (simp add: read_digits_append [OF digs] "1.IH" [OF False])
    also have "\<dots> = acc * 16 ^ length (hex_nat n) + n"
      using False by (subst (2) hex_nat.simps) (simp add: algebra_simps)
    finally show ?thesis .
  qed
qed

lemma read_digits_zeros: "read_digits 16 0 (replicate k (CHR ''0'') @ s) = read_digits 16 0 s"
  by (induction k) (simp_all add: digit_in_def digit_val_def)

lemma fmt_016lx_chars: "c \<in> set (fmt_016lx w) \<Longrightarrow> digit_val c \<noteq> None"
  using hex_nat_chars [of c "unat w"] by (auto simp: fmt_016lx_def pad_left_def digit_val_def)

lemma strtoull16_fmt: "strtoull16 (c_str (fmt_016lx w)) = w"
proof -
  have "c_str (fmt_016lx w) = fmt_016lx w"
    using fmt_016lx_chars digit_not_special by (intro c_str_id) blast
  moreover have "unat w < 2 ^ 64" using unsigned_less [of w, where 'a = nat] by simp
  then have "strtoull_digits 16 False (fmt_016lx w) = w"
    by (simp add: strtoull_digits_def fmt_016lx_def pad_left_def read_digits_zeros read_digits_hex_nat)
  ultimately show ?thesis using strtoull16_digits fmt_016lx_chars by metis
qed

section \<open>Titles\<close>

lemma titles_loop_pages:
  assumes "\<And>k. k \<le> length tids \<Longrightarrow> ns_records N (word_of_nat k) w = Some (take 32 (drop k tids))"
  shows "k \<le> length tids \<Longrightarrow> (length tids - k) div 32 < fuel \<Longrightarrow>
    titles_loop fuel N w (word_of_nat k) acc = Some (acc @ map (title_json N w) (drop k tids))"
proof (induction fuel arbitrary: k acc)
  case (Suc fuel)
  let ?page = "take 32 (drop k tids)"
  have p: "ns_records N (word_of_nat k) w = Some ?page" using assms Suc.prems(1) .
  show ?case
  proof (cases "length tids - k < 32")
    case True
    then show ?thesis using p by (auto simp: Let_def)
  next
    case False
    then have l: "length ?page = 32" "?page \<noteq> []" by auto
    have "(length tids - (k + 32)) div 32 < fuel"
      using Suc.prems(2) False by (simp add: div_if [of "length tids - k"])
    then have "titles_loop fuel N w (word_of_nat (k + 32)) (acc @ map (title_json N w) ?page) =
        Some ((acc @ map (title_json N w) ?page) @ map (title_json N w) (drop (k + 32) tids))"
      using False by (intro Suc.IH) auto
    moreover have "drop k tids = ?page @ drop (k + 32) tids"
      by (metis add.commute append_take_drop_id drop_drop)
    then have "map (title_json N w) (drop k tids) =
        map (title_json N w) ?page @ map (title_json N w) (drop (k + 32) tids)" by (metis map_append)
    moreover have "(word_of_nat k + word_of_nat 32 :: i32) = word_of_nat (k + 32)" by simp
    ultimately show ?thesis using p l by (simp only: titles_loop.simps option.case Let_def if_False) simp
  qed
qed simp

text \<open>
  C40. The title list is complete and the paging ends. Where the record service answers for every
  offset with the next 32 of its titles, the reply lists all of them, each once and in the service's
  order, whatever their number, and a multiple of the page size in particular; one more round than
  there are full pages is enough.
\<close>

theorem titles_complete:
  assumes "\<And>k. k \<le> length tids \<Longrightarrow> ns_records N (word_of_nat k) w = Some (take 32 (drop k tids))"
    and "length tids div 32 < fuel"
  shows "Titles fuel N req w = Some (success [(''titles'', JArr (map (title_json N w) tids))], w)"
  using titles_loop_pages [of tids N w 0 fuel "[]"] assms by (simp add: Titles_def)

definition shelf :: "u64 list \<Rightarrow> unit ns_api" where
  "shelf tids =
     \<lparr>ns_records = (\<lambda>off _. Some (take 32 (drop (unat off) tids))), ns_control = (\<lambda>_ _. None), nacp_size = 0x4000,
      pm_app = (\<lambda>_. None), pm_program = (\<lambda>_ _. None), pm_launch = (\<lambda>_ _ w. (Some 81, w)),
      pm_terminate = (\<lambda>_ w. (True, w)), ns_delete = (\<lambda>_ w. (True, w))\<rparr>"

theorem titles_complete_witness:
  "Titles 2 (shelf [7, 8]) (save_request []) () =
     Some (success [(''titles'', JArr [title_json (shelf [7, 8]) () 7, title_json (shelf [7, 8]) () 8])], ())"
proof -
  have "unat (word_of_nat k :: i32) = k" if "k \<le> length [7 :: u64, 8]" for k
    using that by (simp add: unsigned_of_nat take_bit_nat_eq_self)
  then have "ns_records (shelf [7, 8]) (word_of_nat k) () = Some (take 32 (drop k [7, 8]))"
    if "k \<le> length [7 :: u64, 8]" for k using that by (simp add: shelf_def)
  from titles_complete [OF this, of 2 "save_request []"] show ?thesis by simp
qed

text \<open>
  The guard against launching the hbloader takeover title compares text. The identifier as the agent
  prints it is refused without \<^verbatim>\<open>force\<close> and nothing is launched; the same number in capital letters
  passes, and the storages are asked to launch exactly that title.
\<close>

theorem launch_guard_is_text:
  assumes "\<not> as_bool False (arg req ''force'')"
  shows "(arg req ''tid'' = JStr ''0142b048fd620000'' \<longrightarrow> Launch N req w = (Fail ''use_album_applet'' use_album, w)) \<and>
    (arg req ''tid'' = JStr ''0142B048FD620000'' \<longrightarrow>
       snd (Launch N req w) = snd (launch_loop N 0x0142b048fd620000 kStorages w))"
proof (intro conjI impI)
  assume "arg req ''tid'' = JStr ''0142b048fd620000''"
  then show "Launch N req w = (Fail ''use_album_applet'' use_album, w)"
    using assms by (simp add: Launch_def as_string_def)
next
  assume t: "arg req ''tid'' = JStr ''0142B048FD620000''"
  have "hex_arg req ''tid'' = 0x0142b048fd620000"
    by (simp add: hex_arg_def t as_string_def strtoull16_def is_space_def read_sign_def skip_0x_def strtoull_digits_def
        digit_in_def digit_val_def)
  then show "snd (Launch N req w) = snd (launch_loop N 0x0142b048fd620000 kStorages w)"
    using t by (simp add: Launch_def as_string_def Let_def split: prod.split option.split)
qed

definition tray :: "u64 list ns_api" where
  "tray =
     \<lparr>ns_records = (\<lambda>_ _. None), ns_control = (\<lambda>_ _. None), nacp_size = 0x4000,
      pm_app = (\<lambda>_. None), pm_program = (\<lambda>_ _. None), pm_launch = (\<lambda>_ t w. (Some 81, w @ [t])),
      pm_terminate = (\<lambda>_ w. (True, w)), ns_delete = (\<lambda>_ w. (True, w))\<rparr>"

theorem launch_guard_is_text_witness:
  "Launch tray (save_request [(''tid'', JStr ''0142b048fd620000'')]) [] = (Fail ''use_album_applet'' use_album, []) \<and>
   snd (Launch tray (save_request [(''tid'', JStr ''0142B048FD620000'')]) []) = [0x0142b048fd620000]"
proof -
  let ?q = "\<lambda>t. save_request [(''tid'', JStr t)]"
  have q: "arg (?q t) ''tid'' = JStr t" "\<not> as_bool False (arg (?q t) ''force'')" for t
    by (simp_all add: save_request_def json_fields_def as_bool_def)
  have "Launch tray (?q ''0142b048fd620000'') [] = (Fail ''use_album_applet'' use_album, [])"
    using launch_guard_is_text [OF q(2), of "''0142b048fd620000''" tray "[]"] q(1) by blast
  moreover have "snd (Launch tray (?q ''0142B048FD620000'') []) = snd (launch_loop tray 0x0142b048fd620000 kStorages [])"
    using launch_guard_is_text [OF q(2), of "''0142B048FD620000''" tray "[]"] q(1) by blast
  ultimately show ?thesis by (simp add: tray_def kStorages_def)
qed

section \<open>The album\<close>

lemma ucast_byte_back: "ucast (ucast (b :: byte) :: i64) = b" "ucast (ucast (y :: u16) :: i64) = y"
  by (rule bit_word_eqI; simp add: bit_simps)+

text \<open>
  A listed file can be fetched. The fields \<^verbatim>\<open>album_list\<close> gives for a file, sent back unchanged to
  \<^verbatim>\<open>album_download\<close>, rebuild exactly that file's identifier, given its content type; but the list
  calls that field \<^verbatim>\<open>content\<close>, by name, and a request with the listed fields alone asks for the
  screenshot of the same moment.
\<close>

theorem album_roundtrip:
  assumes "\<And>k. k \<noteq> ''content_type'' \<Longrightarrow> arg req k = idx (album_json L (n, i)) k"
  shows "(arg req ''content_type'' = JInt (ucast (ai_content i)) \<longrightarrow> download_id L req = i) \<and>
    (arg req ''content_type'' = JNull \<longrightarrow> download_id L req = i\<lparr>ai_content := content_screenshot L\<rparr>)"
proof -
  have f: "arg req ''application_id'' = JStr (fmt_016lx (application_id i))"
    "arg req ''storage'' = JInt (ucast (ai_storage i))" "arg req ''year'' = JInt (ucast (ad_year (ai_date i)))"
    "arg req ''month'' = JInt (ucast (ad_month (ai_date i)))" "arg req ''day'' = JInt (ucast (ad_day (ai_date i)))"
    "arg req ''hour'' = JInt (ucast (ad_hour (ai_date i)))" "arg req ''minute'' = JInt (ucast (ad_minute (ai_date i)))"
    "arg req ''second'' = JInt (ucast (ad_second (ai_date i)))" "arg req ''id'' = JInt (ucast (ad_id (ai_date i)))"
    using assms by (simp_all add: album_json_def idx_json_fields Let_def)
  have "hex_arg req ''application_id'' = application_id i"
    by (simp add: hex_arg_def f as_string_def strtoull16_fmt)
  then have "download_id L req =
      i\<lparr>ai_content := ucast (as_int (ucast (content_screenshot L)) (arg req ''content_type''))\<rparr>"
    by (simp add: download_id_def f as_int_def ucast_byte_back)
  then show ?thesis by (simp add: as_int_def ucast_byte_back)
qed

definition no_album :: "unit album_api" where
  "no_album =
     \<lparr>album_count = (\<lambda>_ _. None), album_files = (\<lambda>_ _ _. None), album_load = (\<lambda>_ _ _. None), storage_sd = 1,
      content_screenshot = 0, content_movie = 1, content_extra_screenshot = 2, content_extra_movie = 3\<rparr>"

definition a_movie :: album_id where
  "a_movie =
     \<lparr>application_id = 0xAB, ai_date = \<lparr>ad_year = 2024, ad_month = 5, ad_day = 6, ad_hour = 7, ad_minute = 8,
        ad_second = 9, ad_id = 0\<rparr>, ai_storage = 1, ai_content = 1\<rparr>"

theorem album_roundtrip_witness:
  "download_id no_album \<lparr>req_msg = album_json no_album (5, a_movie), req_payload = [], req_cfg = default_config\<rparr> \<noteq> a_movie"
proof -
  let ?q = "\<lparr>req_msg = album_json no_album (5, a_movie), req_payload = [], req_cfg = default_config\<rparr>"
  have "arg ?q ''content_type'' = JNull" by (simp add: album_json_def idx_json_fields Let_def)
  then have "download_id no_album ?q = a_movie\<lparr>ai_content := content_screenshot no_album\<rparr>"
    using album_roundtrip [of ?q no_album 5 a_movie] by simp
  then show ?thesis by (simp add: a_movie_def no_album_def)
qed

section \<open>The buses\<close>

text \<open>Documented behaviour of the bus services: opening takes a session, closing gives it back, the rest keeps it.\<close>

definition counts_sessions :: "'w bus_api \<Rightarrow> ('w \<Rightarrow> nat) \<Rightarrow> bool" where
  "counts_sessions B held \<longleftrightarrow>
     (\<forall>d w. held (snd (i2c_open B d w)) = (if fst (i2c_open B d w) = None then held w else held w + 1)) \<and>
     (\<forall>d w. held (snd (gpio_open B d w)) = (if fst (gpio_open B d w) = None then held w else held w + 1)) \<and>
     (\<forall>h bs w. held (snd (i2c_send B h bs w)) = held w) \<and> (\<forall>h n w. held (snd (i2c_receive B h n w)) = held w) \<and>
     (\<forall>h w. held (i2c_close B h w) = held w - 1) \<and> (\<forall>h w. held (gpio_close B h w) = held w - 1)"

lemma sessions_closed:
  assumes "counts_sessions B held"
  shows "held (snd (I2cRead B req w)) = held w" "held (snd (I2cWrite B req w)) = held w"
    "held (snd (GpioRead B req w)) = held w"
proof -
  have o: "held (snd (i2c_open B d w)) = (if fst (i2c_open B d w) = None then held w else held w + 1)"
    "held (snd (gpio_open B d w)) = (if fst (gpio_open B d w) = None then held w else held w + 1)" for d w
    using assms unfolding counts_sessions_def by blast+
  have t: "held (snd (i2c_send B h bs w)) = held w" "held (snd (i2c_receive B h n w)) = held w"
    "held (i2c_close B h w) = held w - 1" "held (gpio_close B h w) = held w - 1" for h bs n w
    using assms unfolding counts_sessions_def by blast+
  show "held (snd (I2cRead B req w)) = held w"
    by (simp add: I2cRead_def Let_def case_prod_unfold o t split: option.split)
  show "held (snd (I2cWrite B req w)) = held w"
    by (simp add: I2cWrite_def Let_def case_prod_unfold o t split: option.split)
  show "held (snd (GpioRead B req w)) = held w"
    by (simp add: GpioRead_def Let_def case_prod_unfold o t split: option.split)
qed

text \<open>
  The hardware buses are used only with permission and never held. Without \<^verbatim>\<open>allow_hardware\<close> no
  bus command makes a single call; with it, every session a command opens is closed again on every
  path, also where the transfer fails, so the services cannot run out of sessions.
\<close>

theorem buses_released:
  assumes "counts_sessions B held" "h \<in> {I2cRead B, I2cWrite B, GpioRead B}"
  shows "held (snd (h req w)) = held w \<and>
    (\<not> allow_hardware (req_cfg req) \<longrightarrow> snd (h req w) = w \<and> \<not> fst (fst (h req w)))"
proof -
  have "snd (h req w) = w \<and> \<not> fst (fst (h req w))" if "\<not> allow_hardware (req_cfg req)"
    using that assms(2) by (auto simp: I2cRead_def I2cWrite_def GpioRead_def Fail_def)
  then show ?thesis using assms(2) sessions_closed [OF assms(1)] by auto
qed

definition failing_bus :: "nat bus_api" where
  "failing_bus =
     \<lparr>i2c_open = (\<lambda>d n. (Some 1, n + 1)), i2c_send = (\<lambda>_ _ n. (False, n)), i2c_receive = (\<lambda>_ _ n. (None, n)),
      i2c_close = (\<lambda>_ n. n - 1), gpio_open = (\<lambda>d n. (Some 1, n + 1)), gpio_value = (\<lambda>_ _. None),
      gpio_close = (\<lambda>_ n. n - 1), dev_tmp451 = 1, pad_vol_up = 25, gpio_high = 1\<rparr>"

theorem buses_released_witness:
  "snd (I2cWrite failing_bus \<lparr>req_msg = JNull, req_payload = [1], req_cfg = default_config\<lparr>allow_hardware := True\<rparr>\<rparr> 4) = 4"
proof -
  have "counts_sessions failing_bus (\<lambda>n. n)" by (auto simp: counts_sessions_def failing_bus_def)
  from buses_released [OF this, of "I2cWrite failing_bus"] show ?thesis by blast
qed


end
