(* ===== verification/Agent.thy ===== *)
theory Agent
  imports ServerRun GuardsLaws CopyTree DebugSession VpadLaws LogFile SystemLaws DeviceLaws
begin

text \<open>
  The agent as a whole: one state with the console and what every handler file keeps in its static
  variables, the handler behind each name of the command table with the services it uses, and what
  holds of all of them together.
\<close>

section \<open>The state of the process\<close>

text \<open>
  The static variables of each handler file, beside the one console they all act on. A part that
  carries a world of its own is loaded with the console and kept without regard to its old world.
\<close>

record 'w agent =
  console :: 'w
  a_mounted :: bool
  a_pad :: "'w vpad"
  a_power :: "'w power"
  a_debug :: "'w debugger"
  a_hunt :: "'w hunt"
  a_cht :: "'w cht"
  a_guards :: "'w guards"

text \<open>The services the handlers call.\<close>

record ('w, 'c) services =
  fuel :: nat
  sv_fs :: "'w fsapi"
  sv_sha :: "'c sha256_api"
  sv_save :: "'w save_api"
  nx_saves :: nx_save
  sv_card :: "'w card"
  sv_cheat :: "'w cheat_api"
  nx_mems :: nx_mem
  sv_dbg :: "'w dbg_api"
  nx_dbgs :: nx_debug
  sv_hid :: "'w hid_api"
  sv_power :: "'w power_api"
  sv_info :: "'w info_api"
  sv_sys :: "'w sys_api"
  sv_ns :: "'w ns_api"
  sv_bus :: "'w bus_api"
  sv_album :: "'w album_api"
  sv_capture :: "layer_stack \<Rightarrow> nat \<Rightarrow> 'w \<Rightarrow> byte list option \<times> 'w"
  sv_cht :: "'w cht_service"

text \<open>The static variables as they are initialised.\<close>

definition agent_start :: "'w \<Rightarrow> 'w agent" where
  "agent_start w =
     \<lparr>console = w, a_mounted = False,
      a_pad = \<lparr>pworld = w, g_attached = False, g_session = 0, g_handle = 0,
        g_state = \<lparr>pad_buttons = 0, pad_lx = 0, pad_ly = 0, pad_rx = 0, pad_ry = 0, battery_level = 0, pad_flags = 0\<rparr>\<rparr>,
      a_power = \<lparr>powerd = w, g_pending_action = Do_reboot, power_started = False\<rparr>,
      a_debug = \<lparr>dworld = w, g_debug = None, g_pid = 0\<rparr>, a_hunt = hunt_start w,
      a_cht = \<lparr>chtd = w, g_cht_open = False\<rparr>, a_guards = \<lparr>gworld = w, g_boot_count = 0\<rparr>\<rparr>"

section \<open>Running a handler on its part\<close>

definition run_maybe ::
  "('a \<Rightarrow> 's) \<Rightarrow> ('s \<Rightarrow> 'a \<Rightarrow> 'a) \<Rightarrow> ('q \<Rightarrow> 's \<Rightarrow> ('r \<times> 's) option) \<Rightarrow> 'q \<Rightarrow> 'a \<Rightarrow> ('r \<times> 'a) option" where
  "run_maybe load keep h req a = map_option (\<lambda>(r, s). (r, keep s a)) (h req (load a))"

definition run_in ::
  "('a \<Rightarrow> 's) \<Rightarrow> ('s \<Rightarrow> 'a \<Rightarrow> 'a) \<Rightarrow> ('q \<Rightarrow> 's \<Rightarrow> 'r \<times> 's) \<Rightarrow> 'q \<Rightarrow> 'a \<Rightarrow> ('r \<times> 'a) option" where
  "run_in load keep h = run_maybe load keep (\<lambda>req s. Some (h req s))"

definition load_store :: "'w agent \<Rightarrow> 'w store" where
  "load_store a = \<lparr>disk = console a, save_mounted = a_mounted a\<rparr>"
definition keep_store :: "'w store \<Rightarrow> 'w agent \<Rightarrow> 'w agent" where
  "keep_store s a = a\<lparr>console := disk s, a_mounted := save_mounted s\<rparr>"

definition load_pad :: "'w agent \<Rightarrow> 'w vpad" where "load_pad a = (a_pad a)\<lparr>pworld := console a\<rparr>"
definition keep_pad :: "'w vpad \<Rightarrow> 'w agent \<Rightarrow> 'w agent" where
  "keep_pad s a = a\<lparr>console := pworld s, a_pad := s\<rparr>"

definition load_power :: "'w agent \<Rightarrow> 'w power" where "load_power a = (a_power a)\<lparr>powerd := console a\<rparr>"
definition keep_power :: "'w power \<Rightarrow> 'w agent \<Rightarrow> 'w agent" where
  "keep_power s a = a\<lparr>console := powerd s, a_power := s\<rparr>"

definition load_debug :: "'w agent \<Rightarrow> 'w debugger" where "load_debug a = (a_debug a)\<lparr>dworld := console a\<rparr>"
definition keep_debug :: "'w debugger \<Rightarrow> 'w agent \<Rightarrow> 'w agent" where
  "keep_debug s a = a\<lparr>console := dworld s, a_debug := s\<rparr>"

definition load_hunt :: "'w agent \<Rightarrow> 'w hunt" where "load_hunt a = (a_hunt a)\<lparr>hworld := console a\<rparr>"
definition keep_hunt :: "'w hunt \<Rightarrow> 'w agent \<Rightarrow> 'w agent" where
  "keep_hunt s a = a\<lparr>console := hworld s, a_hunt := s\<rparr>"

definition load_cht :: "'w agent \<Rightarrow> 'w cht" where "load_cht a = (a_cht a)\<lparr>chtd := console a\<rparr>"
definition keep_cht :: "'w cht \<Rightarrow> 'w agent \<Rightarrow> 'w agent" where
  "keep_cht s a = a\<lparr>console := chtd s, a_cht := s\<rparr>"

definition load_guards :: "'w agent \<Rightarrow> 'w guards" where "load_guards a = (a_guards a)\<lparr>gworld := console a\<rparr>"
definition keep_guards :: "'w guards \<Rightarrow> 'w agent \<Rightarrow> 'w agent" where
  "keep_guards s a = a\<lparr>console := gworld s, a_guards := s\<rparr>"

definition keep_console :: "'w \<Rightarrow> 'w agent \<Rightarrow> 'w agent" where "keep_console w a = a\<lparr>console := w\<rparr>"

abbreviation "in_store \<equiv> run_in load_store keep_store"
abbreviation "in_store_maybe \<equiv> run_maybe load_store keep_store"
abbreviation "in_pad \<equiv> run_in load_pad keep_pad"
abbreviation "in_power \<equiv> run_in load_power keep_power"
abbreviation "in_debug \<equiv> run_in load_debug keep_debug"
abbreviation "in_debug_maybe \<equiv> run_maybe load_debug keep_debug"
abbreviation "in_hunt \<equiv> run_in load_hunt keep_hunt"
abbreviation "in_hunt_maybe \<equiv> run_maybe load_hunt keep_hunt"
abbreviation "in_cht \<equiv> run_in load_cht keep_cht"
abbreviation "in_guards \<equiv> run_in load_guards keep_guards"
abbreviation "on_console \<equiv> run_in console keep_console"
abbreviation "on_console_maybe \<equiv> run_maybe console keep_console"

section \<open>The handlers by name\<close>

text \<open>In the order of the command table. \<open>None\<close> is a handler that has not returned within the fuel.\<close>

definition handler_table ::
  "('w, 'c) services \<Rightarrow> (string \<times> (request \<Rightarrow> 'w agent \<Rightarrow> ((bool \<times> reply) \<times> 'w agent) option)) list" where
  "handler_table E =
     [(''AgentInfo'', in_power (AgentInfo (sv_power E))),
      (''Screenshot'', on_console (Screenshot (sv_capture E))),
      (''SysInfo'', in_store (SysInfo (sv_info E))),
      (''ProcessList'', in_store (ProcessList (sv_info E))),
      (''CrashReports'', in_store (CrashReports (sv_fs E))),
      (''ReadLog'', in_store (ReadLog (sv_fs E))),
      (''Titles'', on_console_maybe (Titles (fuel E) (sv_ns E))),
      (''TitleIcon'', on_console (TitleIcon (sv_ns E))),
      (''RunningApp'', on_console (RunningApp (sv_ns E))),
      (''ConsoleInfo'', on_console (ConsoleInfo (sv_sys E))),
      (''NetInfo'', on_console (NetInfo (sv_sys E))),
      (''FatalReports'', in_store (FatalReports (sv_fs E))),
      (''PreflightCheck'', in_guards (PreflightCheck (sv_card E))),
      (''JournalRead'', in_guards (JournalRead (sv_card E))),
      (''WatchdogStatus'', in_guards WatchdogStatus),
      (''Controllers'', on_console (Controllers (sv_sys E))),
      (''ReadInput'', in_pad (ReadInput (sv_hid E))),
      (''WaitEvent'', in_pad (WaitEvent (sv_hid E))),
      (''RecordInput'', in_pad (RecordInput (sv_hid E))),
      (''GetClocks'', on_console (GetClocks (sv_sys E))),
      (''GetBrightness'', on_console (GetBrightness (sv_sys E))),
      (''GetVolume'', on_console (GetVolume (sv_sys E))),
      (''GetTime'', on_console (GetTime (sv_sys E))),
      (''GetSleep'', on_console (GetSleep (sv_sys E))),
      (''SettingsGet'', on_console (SettingsGet (sv_sys E))),
      (''FsList'', in_store (FsList (sv_fs E))),
      (''FsRead'', in_store (FsRead (sv_fs E))),
      (''FsStat'', in_store (FsStat (sv_fs E))),
      (''FsMounts'', in_store FsMounts),
      (''FsHash'', in_store (FsHash (sv_fs E) (sv_sha E))),
      (''FsFreeSpace'', in_store (FsFreeSpace (sv_fs E))),
      (''FsFind'', in_store (FsFind (sv_fs E))),
      (''FsGrep'', in_store (FsGrep (sv_fs E))),
      (''SaveList'', in_store (SaveList (sv_save E) (nx_saves E))),
      (''SaveMount'', in_store (SaveMount (sv_save E) (nx_saves E))),
      (''SaveUnmount'', in_store (SaveUnmount (sv_save E))),
      (''NandRead'', in_store (NandRead (sv_save E) (nx_saves E))),
      (''AlbumList'', on_console (AlbumList (sv_album E))),
      (''AlbumDownload'', on_console (AlbumDownload (sv_album E))),
      (''I2cRead'', on_console (I2cRead (sv_bus E))),
      (''GpioRead'', on_console (GpioRead (sv_bus E))),
      (''CheatStatus'', in_cht (CheatStatus (sv_cht E))),
      (''CheatList'', in_cht (CheatList (sv_cht E))),
      (''CheatMeta'', in_hunt (CheatMeta (sv_cheat E))),
      (''CheatMappings'', in_hunt (CheatMappings (sv_cheat E) (nx_mems E))),
      (''CheatReadMem'', in_hunt (CheatReadMem (sv_cheat E))),
      (''SearchBegin'', in_hunt_maybe (SearchBegin (fuel E) (sv_cheat E) (nx_mems E))),
      (''SearchNext'', in_hunt (SearchNext (sv_cheat E))),
      (''SearchResults'', in_hunt SearchResults),
      (''SearchReset'', in_hunt SearchReset),
      (''Input'', in_pad (Input (sv_hid E))),
      (''Touch'', in_pad (Touch (sv_hid E))),
      (''TypeText'', in_pad (TypeText (sv_hid E))),
      (''Launch'', on_console (Launch (sv_ns E))),
      (''Terminate'', on_console (Terminate (sv_ns E))),
      (''Reboot'', in_power (Reboot (sv_power E))),
      (''Shutdown'', in_power (Shutdown (sv_power E))),
      (''AgentRestart'', in_power (AgentRestart (sv_power E))),
      (''SetBrightness'', in_power (SetBrightness (sv_power E))),
      (''SetAutoBrightness'', on_console (SetAutoBrightness (sv_sys E))),
      (''SetVolume'', on_console (SetVolume (sv_sys E))),
      (''SetSleep'', in_power (SetSleep (sv_power E))),
      (''SetTime'', on_console (SetTime (sv_sys E))),
      (''SetWireless'', on_console (SetWireless (sv_sys E))),
      (''FsWrite'', in_store (FsWrite (sv_fs E))),
      (''FsDelete'', in_store (FsDelete (sv_fs E))),
      (''FsMkdir'', in_store (FsMkdir (sv_fs E))),
      (''FsRename'', in_store (FsRename (sv_fs E))),
      (''FsCopy'', in_store (FsCopy (sv_fs E))),
      (''BackupSave'', in_store_maybe (BackupSave (fuel E) (sv_fs E) (sv_save E))),
      (''DebugAttach'', in_debug_maybe (DebugAttach (fuel E) (sv_dbg E) (nx_dbgs E))),
      (''DebugDetach'', in_debug (DebugDetach (sv_dbg E))),
      (''DebugContinue'', in_debug (DebugContinue (sv_dbg E))),
      (''DebugBreak'', in_debug (DebugBreak (sv_dbg E))),
      (''DebugPollEvents'', in_debug_maybe (DebugPollEvents (fuel E) (sv_dbg E) (nx_dbgs E))),
      (''DebugReadMem'', in_debug (DebugReadMem (sv_dbg E))),
      (''DebugMemMap'', in_debug (DebugMemMap (sv_dbg E) (nx_dbgs E) (nx_mems E))),
      (''DebugThreads'', in_debug (DebugThreads (sv_dbg E))),
      (''DebugRegisters'', in_debug (DebugRegisters (sv_dbg E))),
      (''DebugSearch'', in_debug (DebugSearch (sv_dbg E) (nx_dbgs E) (nx_mems E))),
      (''DebugModules'', in_debug (DebugModules (sv_dbg E))),
      (''DebugBacktrace'', in_debug (DebugBacktrace (sv_dbg E))),
      (''CheatToggle'', in_cht (CheatToggle (sv_cht E))),
      (''DebugSetWatchpoint'', in_debug (DebugSetWatchpoint (sv_dbg E))),
      (''DebugSetBreakpoint'', in_debug (DebugSetBreakpoint (sv_dbg E))),
      (''DebugClearBreakpoint'', in_debug (DebugClearBreakpoint (sv_dbg E))),
      (''RestoreSave'', in_store_maybe (RestoreSave (fuel E) (sv_fs E) (sv_save E))),
      (''Uninstall'', on_console (Uninstall (sv_ns E))),
      (''RebootToPayload'', in_power (RebootToPayload (sv_power E))),
      (''SetClocks'', in_power (SetClocks (sv_power E))),
      (''DebugWriteMem'', in_debug (DebugWriteMem (sv_dbg E))),
      (''DebugWriteRegisters'', in_debug (DebugWriteRegisters (sv_dbg E))),
      (''DebugSetHwBpRaw'', in_debug (DebugSetHwBpRaw (sv_dbg E))),
      (''CheatWriteMem'', in_hunt (CheatWriteMem (sv_cheat E))),
      (''FreezeAddress'', in_cht (FreezeAddress (sv_cht E))),
      (''UnfreezeAddress'', in_cht (UnfreezeAddress (sv_cht E))),
      (''I2cWrite'', on_console (I2cWrite (sv_bus E)))]"

definition agent_handler ::
  "('w, 'c) services \<Rightarrow> string \<Rightarrow> request \<Rightarrow> 'w agent \<Rightarrow> ((bool \<times> reply) \<times> 'w agent) option" where
  "agent_handler E f req a = (case map_of (handler_table E) f of None \<Rightarrow> None | Some h \<Rightarrow> h req a)"

lemma handler_names: "map fst (handler_table E) = map (fn \<circ> snd) command_table"
  by (simp add: handler_table_def command_table_def)

lemma handler_names_distinct: "distinct (map fst (handler_table E))"
  by (simp add: handler_table_def)

end
