(* ===== verification/AgentLaws.thy ===== *)
theory AgentLaws
  imports Agent
begin

text \<open>
  What holds of the agent as a whole: every command of the table has its handler and every reply the
  dispatcher's form; a handler changes only its own file's variables; and the invariants of the parts
  survive any sequence of commands of all of them.
\<close>

section \<open>A part of the state\<close>

text \<open>What running a handler on a part relies on: what is kept is what is loaded next.\<close>

locale agent_part =
  fixes load :: "'a \<Rightarrow> 's"
    and keep :: "'s \<Rightarrow> 'a \<Rightarrow> 'a"
  assumes load_keep: "load (keep s a) = s"
begin

lemma run_maybe_inv:
  assumes "run_maybe load keep h req a = Some (r, a')"
    and "\<And>s r s'. h req s = Some (r, s') \<Longrightarrow> I s \<Longrightarrow> I s'" "I (load a)"
  shows "I (load a')"
  using assms by (auto simp: run_maybe_def load_keep)

lemma run_in_inv:
  assumes "run_in load keep h req a = Some (r, a')" "\<And>s. I s \<Longrightarrow> I (snd (h req s))" "I (load a)"
  shows "I (load a')"
proof (rule run_maybe_inv [of "\<lambda>req s. Some (h req s)" req a r a' I])
  show "run_maybe load keep (\<lambda>req s. Some (h req s)) req a = Some (r, a')"
    using assms(1) by (simp add: run_in_def)
  show "I s'" if "Some (h req s) = Some (r, s')" "I s" for s r s'
    using assms(2) [of s] that by simp
qed (rule assms(3))

end

interpretation store_part: agent_part load_store keep_store
  by unfold_locales (simp add: load_store_def keep_store_def)
interpretation pad_part: agent_part load_pad keep_pad
  by unfold_locales (simp add: load_pad_def keep_pad_def)
interpretation power_part: agent_part load_power keep_power
  by unfold_locales (simp add: load_power_def keep_power_def)
interpretation debug_part: agent_part load_debug keep_debug
  by unfold_locales (simp add: load_debug_def keep_debug_def)
interpretation hunt_part: agent_part load_hunt keep_hunt
  by unfold_locales (simp add: load_hunt_def keep_hunt_def)
interpretation cht_part: agent_part load_cht keep_cht
  by unfold_locales (simp add: load_cht_def keep_cht_def)
interpretation guards_part: agent_part load_guards keep_guards
  by unfold_locales (simp add: load_guards_def keep_guards_def)
interpretation console_part: agent_part console keep_console
  by unfold_locales (simp add: keep_console_def)

section \<open>The handler contract\<close>

definition returns_ok :: "((bool \<times> reply) \<times> 'a) option \<Rightarrow> bool" where
  "returns_ok x \<longleftrightarrow> (case x of None \<Rightarrow> True | Some y \<Rightarrow> keeps_contract (fst y))"

definition keeps :: "(request \<Rightarrow> 'a \<Rightarrow> ((bool \<times> reply) \<times> 'a) option) \<Rightarrow> bool" where
  "keeps h \<longleftrightarrow> (\<forall>req a. returns_ok (h req a))"

text \<open>The contract of a handler that may not return, branch by branch.\<close>

lemma returns_branches:
  "returns_ok None"
  "keeps_contract r \<Longrightarrow> returns_ok (Some (r, s))"
  "(c \<Longrightarrow> returns_ok x) \<Longrightarrow> (\<not> c \<Longrightarrow> returns_ok y) \<Longrightarrow> returns_ok (if c then x else y)"
  "(v = None \<Longrightarrow> returns_ok x) \<Longrightarrow> (\<And>z. v = Some z \<Longrightarrow> returns_ok (f z)) \<Longrightarrow>
     returns_ok (case v of None \<Rightarrow> x | Some z \<Rightarrow> f z)"
  "(\<And>u z. p = (u, z) \<Longrightarrow> returns_ok (g u z)) \<Longrightarrow> returns_ok (case p of (u, z) \<Rightarrow> g u z)"
  "(\<And>l. t = Inl l \<Longrightarrow> returns_ok (i l)) \<Longrightarrow> (\<And>m. t = Inr m \<Longrightarrow> returns_ok (j m)) \<Longrightarrow>
     returns_ok (case t of Inl l \<Rightarrow> i l | Inr m \<Rightarrow> j m)"
  "(\<And>x. keeps_contract (fst (k x))) \<Longrightarrow> returns_ok (map_option k v)"
  by (auto simp: returns_ok_def split: option.split prod.split sum.split)

lemma keeps_in: "command_handler h \<Longrightarrow> keeps (run_in load keep h)"
  by (simp add: keeps_def returns_ok_def run_in_def run_maybe_def command_handler.contract case_prod_unfold)

lemma keeps_maybe:
  assumes "keeps h"
  shows "keeps (run_maybe load keep h)"
proof -
  have "returns_ok (run_maybe load keep h req a)" for req a
    using assms [unfolded keeps_def, rule_format, of req "load a"]
    by (cases "h req (load a)") (simp_all add: returns_ok_def run_maybe_def case_prod_unfold)
  then show ?thesis by (simp add: keeps_def)
qed

lemma keeps_total: "(\<And>req w. keeps_contract (fst (h req w))) \<Longrightarrow> keeps (run_in load keep h)"
  by (rule keeps_in) unfold_locales

text \<open>
  Documented behaviour of the services that fill a buffer of the handler: no more than its size, and
  an icon no larger than the control data's icon field.
\<close>

definition fills_buffers :: "('w, 'c) services \<Rightarrow> bool" where
  "fills_buffers E \<longleftrightarrow>
     (\<forall>tid w c. ns_control (sv_ns E) tid w = Some c \<longrightarrow> length (cd_icon c) \<le> 0x20000) \<and>
     (\<forall>l n w bs. fst (sv_capture E l n w) = Some bs \<longrightarrow> length bs \<le> n) \<and>
     (\<forall>i n w bs. album_load (sv_album E) i n w = Some bs \<longrightarrow> length bs \<le> n) \<and>
     (\<forall>h n w bs. fst (i2c_receive (sv_bus E) h n w) = Some bs \<longrightarrow> length bs \<le> n)"

lemma icon_contract: "fills_buffers E \<Longrightarrow> keeps_contract (fst (TitleIcon (sv_ns E) req w))"
proof -
  assume "fills_buffers E"
  then have "length (take n (cd_icon c)) \<le> kMaxBinary" if "ns_control (sv_ns E) t w = Some c" for t c n
    using that unfolding fills_buffers_def kMaxBinary_def by fastforce
  then show ?thesis by (auto simp: TitleIcon_def Let_def split: option.split)
qed

lemma capture_loop_fills:
  "(\<And>l n w bs. fst (capture l n w) = Some bs \<Longrightarrow> length bs \<le> n) \<Longrightarrow>
   fst (capture_loop capture ls w) = Some bs \<Longrightarrow> length bs \<le> 512 * 1024"
proof (induction ls arbitrary: w)
  case (Cons l ls)
  obtain r v where c: "capture l (512 * 1024) w = (r, v)" by fastforce
  show ?case
  proof (cases "r = None \<or> r = Some []")
    case True
    then have "capture_loop capture (l # ls) w = capture_loop capture ls v" using c by auto
    then show ?thesis using Cons by simp
  next
    case False
    then obtain b bs' where "r = Some (b # bs')" by (cases r; cases "the r") auto
    then have "bs = b # bs'" "fst (capture l (512 * 1024) w) = Some bs" using Cons.prems(2) c by auto
    then show ?thesis using Cons.prems(1) by blast
  qed
qed simp

lemma screenshot_contract: "fills_buffers E \<Longrightarrow> keeps_contract (fst (Screenshot (sv_capture E) req w))"
proof -
  assume "fills_buffers E"
  then have "\<And>l n w bs. fst (sv_capture E l n w) = Some bs \<Longrightarrow> length bs \<le> n"
    unfolding fills_buffers_def by blast
  from capture_loop_fills [OF this]
  have "length bs \<le> kMaxBinary" if "fst (capture_loop (sv_capture E) kStacks w) = Some bs" for bs
    using that unfolding kMaxBinary_def by fastforce
  then show ?thesis by (auto simp: Screenshot_def split: prod.split option.split)
qed

lemma download_contract: "fills_buffers E \<Longrightarrow> keeps_contract (fst (AlbumDownload (sv_album E) req w))"
proof -
  assume "fills_buffers E"
  then have "length bs \<le> kMaxBinary" if "album_load (sv_album E) i (2 ^ 20) w = Some bs" for i bs
    using that unfolding fills_buffers_def kMaxBinary_def by fastforce
  then show ?thesis by (auto simp: AlbumDownload_def Let_def split: option.split)
qed

lemma i2c_read_contract: "fills_buffers E \<Longrightarrow> keeps_contract (fst (I2cRead (sv_bus E) req w))"
proof -
  assume f: "fills_buffers E"
  define n where "n = (let len = as_int 1 (arg req ''len'') in unat (if len \<le>s 0 \<or> 256 <s len then 1 else len))"
  have "n \<le> 256" by (auto simp: n_def Let_def word_sless_alt word_sle_eq not_less unat_of_sint)
  have r: "length bs \<le> kMaxBinary" if "fst (i2c_receive (sv_bus E) h n w) = Some bs" for h w bs
  proof -
    have "length bs \<le> n" using f that unfolding fills_buffers_def by blast
    then show ?thesis using \<open>n \<le> 256\<close> by (simp add: kMaxBinary_def)
  qed
  show ?thesis
    unfolding I2cRead_def Let_def case_prod_unfold n_def [unfolded Let_def, symmetric]
    by (auto simp: r split: option.split)
qed

lemma maybe_contracts:
  "keeps (Titles k N)" "keeps (BackupSave k A V)" "keeps (RestoreSave k A V)"
  "keeps (DebugAttach k B D)" "keeps (DebugPollEvents k B D)" "keeps (SearchBegin k C K)"
proof -
  show "keeps (Titles k N)"
    unfolding keeps_def Titles_def by (intro allI returns_branches) simp
  show "keeps (BackupSave k A V)" "keeps (RestoreSave k A V)"
    unfolding keeps_def BackupSave_def RestoreSave_def Let_def by (intro allI returns_branches; simp)+
  show "keeps (DebugAttach k B D)" "keeps (DebugPollEvents k B D)"
    unfolding keeps_def DebugAttach_def DebugPollEvents_def Let_def by (intro allI returns_branches; simp)+
  show "keeps (SearchBegin k C K)"
    unfolding keeps_def SearchBegin_def Let_def
    by (intro allI returns_branches) (simp_all add: begin_reply_flags EnsureCheatProcess_error search_regions_error)
qed

lemmas handler_contracts =
    agent_info.command_handler_axioms sys_info.command_handler_axioms
    process_list.command_handler_axioms crash_reports.command_handler_axioms
    read_log.command_handler_axioms running_app.command_handler_axioms
    console_info.command_handler_axioms net_info.command_handler_axioms
    fatal_reports.command_handler_axioms preflight.command_handler_axioms journal.command_handler_axioms
    watchdog.command_handler_axioms controllers.command_handler_axioms
    read_handler.command_handler_axioms wait_handler.command_handler_axioms
    record_handler.command_handler_axioms get_clocks.command_handler_axioms
    get_brightness.command_handler_axioms get_volume.command_handler_axioms
    get_time.command_handler_axioms get_sleep.command_handler_axioms settings_get.command_handler_axioms
    fs_list.command_handler_axioms fs_read.command_handler_axioms fs_stat.command_handler_axioms
    fs_mounts.command_handler_axioms fs_hash.command_handler_axioms fs_freespace.command_handler_axioms
    fs_find.command_handler_axioms fs_grep.command_handler_axioms save_list.command_handler_axioms
    save_mount.command_handler_axioms save_unmount.command_handler_axioms
    nand_read.command_handler_axioms album_list.command_handler_axioms gpio_read.command_handler_axioms
    cheat_status.command_handler_axioms cheat_list.command_handler_axioms
    cheat_meta.command_handler_axioms cheat_mappings.command_handler_axioms
    cheat_read.command_handler_axioms search_next.command_handler_axioms
    search_results.command_handler_axioms search_reset.command_handler_axioms
    input_handler.command_handler_axioms touch_handler.command_handler_axioms
    type_handler.command_handler_axioms launch.command_handler_axioms terminate.command_handler_axioms
    reboot.command_handler_axioms shutdown.command_handler_axioms agent_restart.command_handler_axioms
    set_brightness.command_handler_axioms set_auto_brightness.command_handler_axioms
    set_volume.command_handler_axioms set_sleep_plan.command_handler_axioms
    set_time.command_handler_axioms set_wireless.command_handler_axioms fs_write.command_handler_axioms
    fs_delete.command_handler_axioms fs_mkdir.command_handler_axioms fs_rename.command_handler_axioms
    fs_copy.command_handler_axioms debug_detach.command_handler_axioms
    debug_continue.command_handler_axioms debug_break.command_handler_axioms
    debug_read.command_handler_axioms debug_map.command_handler_axioms
    debug_threads.command_handler_axioms debug_registers.command_handler_axioms
    debug_search.command_handler_axioms debug_modules.command_handler_axioms
    debug_backtrace.command_handler_axioms cheat_toggle.command_handler_axioms
    debug_watchpoint.command_handler_axioms debug_breakpoint.command_handler_axioms
    debug_clear.command_handler_axioms uninstall.command_handler_axioms
    reboot_payload.command_handler_axioms set_clocks.command_handler_axioms
    debug_write.command_handler_axioms debug_write_regs.command_handler_axioms
    debug_raw.command_handler_axioms cheat_write.command_handler_axioms
    freeze_address.command_handler_axioms unfreeze_address.command_handler_axioms
    i2c_write.command_handler_axioms

lemma table_keeps:
  assumes "fills_buffers E"
  shows "list_all (\<lambda>(f, h). keeps h) (handler_table E)"
  unfolding handler_table_def list.pred_inject prod.case
  by (intro conjI TrueI list.pred_inject(1); (rule keeps_in, rule handler_contracts | rule keeps_maybe, rule maybe_contracts |
      rule keeps_total, rule icon_contract screenshot_contract download_contract i2c_read_contract, rule assms))

text \<open>
  C21. Every command is answered in the protocol's form, by the whole agent. For each name the
  dispatcher knows there is exactly one handler, and whenever it returns, in whatever state and on
  whatever request, the frame sent carries the request's id, announces its trailer with its exact
  length if and only if there is one, keeps within the frame limit, and on failure holds a structured
  error and no trailer.
\<close>

theorem every_command_answered:
  assumes "fills_buffers E" "map_of Dispatch k = Some c"
  shows "(\<exists>!h. (fn c, h) \<in> set (handler_table E)) \<and>
    (\<forall>req a r a'. agent_handler E (fn c) req a = Some (r, a') \<longrightarrow>
       idx (finish_reply i (snd r)) ''id'' = JInt i \<and>
       bin_agrees (finish_reply i (snd r)) (reply_out (snd r)) \<and> length (reply_out (snd r)) \<le> kMaxBinary \<and>
       (\<not> fst r \<longrightarrow> has (reply_json (snd r)) ''error'' \<and> reply_out (snd r) = []))"
proof (intro conjI allI impI)
  have "fn c \<in> set (map (fn \<circ> snd) command_table)"
    using assms(2) Dispatch_lookup map_of_SomeD [of command_table k c] by force
  then have "fn c \<in> set (map fst (handler_table E))" by (simp only: handler_names)
  then obtain h where h: "(fn c, h) \<in> set (handler_table E)" by auto
  have "h' = h" if "(fn c, h') \<in> set (handler_table E)" for h'
    using eq_key_imp_eq_value [OF handler_names_distinct that h] .
  then show "\<exists>!h. (fn c, h) \<in> set (handler_table E)" using h by blast
next
  fix req a r a'
  assume r: "agent_handler E (fn c) req a = Some (r, a')"
  then obtain h where h: "map_of (handler_table E) (fn c) = Some h" "h req a = Some (r, a')"
    by (auto simp: agent_handler_def split: option.splits)
  then have "keeps h" using table_keeps [OF assms(1)] map_of_SomeD [OF h(1)] by (auto simp: list_all_iff)
  then have k: "keeps_contract r"
    using h(2) unfolding keeps_def returns_ok_def by (metis fst_conv option.simps(5))
  then have ok: "reply_ok (snd r)" by (simp add: keeps_contract_def)
  show "idx (finish_reply i (snd r)) ''id'' = JInt i" "bin_agrees (finish_reply i (snd r)) (reply_out (snd r))"
    by (rule finish_reply_frame [OF ok])+
  show "length (reply_out (snd r)) \<le> kMaxBinary" using ok by (simp add: reply_ok_def)
  show "has (reply_json (snd r)) ''error''" "reply_out (snd r) = []" if "\<not> fst r"
    using k that by (simp_all add: keeps_contract_def)
qed

section \<open>Separate parts\<close>

text \<open>The commands of each handler file that has static variables.\<close>

definition store_commands :: "string list" where
  "store_commands =
     [''SysInfo'', ''ProcessList'', ''CrashReports'', ''ReadLog'', ''FatalReports'', ''FsList'',
      ''FsRead'', ''FsStat'', ''FsMounts'', ''FsHash'', ''FsFreeSpace'', ''FsFind'', ''FsGrep'',
      ''SaveList'', ''SaveMount'', ''SaveUnmount'', ''NandRead'', ''FsWrite'', ''FsDelete'',
      ''FsMkdir'', ''FsRename'', ''FsCopy'', ''BackupSave'', ''RestoreSave'']"

definition pad_commands :: "string list" where
  "pad_commands =
     [''ReadInput'', ''WaitEvent'', ''RecordInput'', ''Input'', ''Touch'', ''TypeText'']"

definition power_names :: "string list" where
  "power_names =
     [''AgentInfo'', ''Reboot'', ''Shutdown'', ''AgentRestart'', ''SetBrightness'', ''SetSleep'',
      ''RebootToPayload'', ''SetClocks'']"

definition debug_commands :: "string list" where
  "debug_commands =
     [''DebugAttach'', ''DebugDetach'', ''DebugContinue'', ''DebugBreak'', ''DebugPollEvents'',
      ''DebugReadMem'', ''DebugMemMap'', ''DebugThreads'', ''DebugRegisters'', ''DebugSearch'',
      ''DebugModules'', ''DebugBacktrace'', ''DebugSetWatchpoint'', ''DebugSetBreakpoint'',
      ''DebugClearBreakpoint'', ''DebugWriteMem'', ''DebugWriteRegisters'', ''DebugSetHwBpRaw'']"

definition hunt_commands :: "string list" where
  "hunt_commands =
     [''CheatMeta'', ''CheatMappings'', ''CheatReadMem'', ''SearchBegin'', ''SearchNext'',
      ''SearchResults'', ''SearchReset'', ''CheatWriteMem'']"

definition cht_commands :: "string list" where
  "cht_commands =
     [''CheatStatus'', ''CheatList'', ''CheatToggle'', ''FreezeAddress'', ''UnfreezeAddress'']"

definition guard_commands :: "string list" where
  "guard_commands =
     [''PreflightCheck'', ''JournalRead'', ''WatchdogStatus'']"

definition isolated :: "string \<Rightarrow> (request \<Rightarrow> 'w agent \<Rightarrow> ((bool \<times> reply) \<times> 'w agent) option) \<Rightarrow> bool" where
  "isolated f h \<longleftrightarrow>
     (\<forall>req a r a'. h req a = Some (r, a') \<longrightarrow>
        (f \<notin> set store_commands \<longrightarrow> a_mounted a' = a_mounted a) \<and> (f \<notin> set pad_commands \<longrightarrow> a_pad a' = a_pad a) \<and>
        (f \<notin> set power_names \<longrightarrow> a_power a' = a_power a) \<and> (f \<notin> set debug_commands \<longrightarrow> a_debug a' = a_debug a) \<and>
        (f \<notin> set hunt_commands \<longrightarrow> a_hunt a' = a_hunt a) \<and> (f \<notin> set cht_commands \<longrightarrow> a_cht a' = a_cht a) \<and>
        (f \<notin> set guard_commands \<longrightarrow> a_guards a' = a_guards a))"

lemma isolated_parts:
  "f \<in> set store_commands \<Longrightarrow> isolated f (run_maybe l0 keep_store h)"
  "f \<in> set pad_commands \<Longrightarrow> isolated f (run_maybe l1 keep_pad h')"
  "f \<in> set power_names \<Longrightarrow> isolated f (run_maybe l2 keep_power i)"
  "f \<in> set debug_commands \<Longrightarrow> isolated f (run_maybe l3 keep_debug i')"
  "f \<in> set hunt_commands \<Longrightarrow> isolated f (run_maybe l4 keep_hunt j)"
  "f \<in> set cht_commands \<Longrightarrow> isolated f (run_maybe l5 keep_cht j')"
  "f \<in> set guard_commands \<Longrightarrow> isolated f (run_maybe l6 keep_guards k)"
  "isolated f (run_maybe l7 keep_console k')"
  by (auto simp: isolated_def run_maybe_def keep_store_def keep_pad_def keep_power_def keep_debug_def keep_hunt_def
      keep_cht_def keep_guards_def keep_console_def)

lemma table_isolated: "list_all (\<lambda>(f, h). isolated f h) (handler_table E)"
  unfolding handler_table_def list.pred_inject prod.case run_in_def
  by (intro conjI TrueI list.pred_inject(1) isolated_parts;
      simp add: store_commands_def pad_commands_def power_names_def debug_commands_def hunt_commands_def
        cht_commands_def guard_commands_def)

section \<open>Invariants over any history\<close>

fun agent_run :: "('w, 'c) services \<Rightarrow> (string \<times> request) list \<Rightarrow> 'w agent \<Rightarrow> 'w agent option" where
  "agent_run E [] a = Some a"
| "agent_run E ((f, req) # rs) a =
     (case agent_handler E f req a of None \<Rightarrow> None | Some (_, a) \<Rightarrow> agent_run E rs a)"

definition preserves :: "('a \<Rightarrow> bool) \<Rightarrow> (request \<Rightarrow> 'a \<Rightarrow> ((bool \<times> reply) \<times> 'a) option) \<Rightarrow> bool" where
  "preserves J h \<longleftrightarrow> (\<forall>req a x. h req a = Some x \<longrightarrow> J a \<longrightarrow> J (snd x))"

lemma preserves_other: "(\<And>s a. J (keep s a) = J a) \<Longrightarrow> preserves J (run_maybe load keep h)"
  by (auto simp: preserves_def run_maybe_def)

lemma agent_run_preserves:
  assumes "list_all (\<lambda>(f, h). preserves J h) (handler_table E)"
  shows "agent_run E rs a = Some a' \<Longrightarrow> J a \<Longrightarrow> J a'"
proof (induction rs arbitrary: a)
  case (Cons r rs)
  obtain f req where r: "r = (f, req)" by (cases r)
  then obtain y b h where h: "map_of (handler_table E) f = Some h" "h req a = Some (y, b)" "agent_run E rs b = Some a'"
    using Cons.prems(1) by (auto simp: agent_handler_def split: option.splits)
  then have "preserves J h" using assms map_of_SomeD [OF h(1)] by (auto simp: list_all_iff)
  then have "J b" using h(2) Cons.prems(2) unfolding preserves_def by (metis snd_conv)
  then show ?case using Cons.IH h(3) by blast
qed simp

text \<open>Each part's own handlers keep its invariant; the others do not touch it.\<close>

lemma preserves_in: "(\<And>req s. I s \<Longrightarrow> I (snd (h req s))) \<Longrightarrow> (\<And>s a. J (keep s a) = I s) \<Longrightarrow> (\<And>a. J a = I (load a)) \<Longrightarrow>
  preserves J (run_in load keep h)"
  by (auto simp: preserves_def run_in_def run_maybe_def case_prod_unfold)

lemma preserves_maybe: "(\<And>req s x. h req s = Some x \<Longrightarrow> I s \<Longrightarrow> I (snd x)) \<Longrightarrow> (\<And>s a. J (keep s a) = I s) \<Longrightarrow>
  (\<And>a. J a = I (load a)) \<Longrightarrow> preserves J (run_maybe load keep h)"
  unfolding preserves_def run_maybe_def by (auto simp: case_prod_unfold)

lemmas keep_defs =
  keep_store_def keep_pad_def keep_power_def keep_debug_def keep_hunt_def keep_cht_def keep_guards_def keep_console_def

lemma table_hunt_ok: "list_all (\<lambda>(f, h). preserves (\<lambda>a. hunt_ok (a_hunt a)) h) (handler_table E)"
proof -
  have own: "preserves (\<lambda>a. hunt_ok (a_hunt a)) (in_hunt h)" if "\<And>req s. hunt_ok s \<Longrightarrow> hunt_ok (snd (h req s))" for h
    using that by (rule preserves_in) (simp_all add: keep_hunt_def load_hunt_def hunt_ok_world)
  have begins: "preserves (\<lambda>a. hunt_ok (a_hunt a)) (in_hunt_maybe (SearchBegin k C K))" for k C K
    by (rule preserves_maybe [of _ hunt_ok])
      (auto simp: keep_hunt_def load_hunt_def hunt_ok_world dest: SearchBegin_keeps_hunt_ok)
  show ?thesis
    unfolding handler_table_def list.pred_inject prod.case
    by (intro conjI TrueI list.pred_inject(1);
        (rule begins | rule own, erule handlers_keep_hunt_ok | (unfold run_in_def)?, rule preserves_other, simp add: keep_defs))
qed

definition committed :: "PowerAction \<Rightarrow> 'w power \<Rightarrow> bool" where
  "committed p s \<longleftrightarrow> power_started s \<and> g_pending_action s = p"

lemma power_kept:
  assumes "committed p s"
  shows "committed p (snd (Reboot P req s))" "committed p (snd (Shutdown P req s))"
    "committed p (snd (RebootToPayload P req s))" "committed p (snd (AgentRestart P req s))"
    "committed p (snd (SetBrightness P req s))" "committed p (snd (SetClocks P req s))"
    "committed p (snd (SetSleep P req s))" "committed p (snd (AgentInfo P req s))"
  using assms
  by (simp_all add: committed_def Reboot_def Shutdown_def RebootToPayload_def AgentRestart_def power_handler_def
      SchedulePowerAction_def SetBrightness_def SetClocks_def SetSleep_def AgentInfo_def Let_def
      split: prod.split bool.split option.split)

lemma table_committed: "list_all (\<lambda>(f, h). preserves (\<lambda>a. committed p (a_power a)) h) (handler_table E)"
proof -
  have own: "preserves (\<lambda>a. committed p (a_power a)) (in_power h)" if "\<And>req s. committed p s \<Longrightarrow> committed p (snd (h req s))" for h
    using that by (rule preserves_in) (simp_all add: keep_power_def load_power_def committed_def)
  show ?thesis
    unfolding handler_table_def list.pred_inject prod.case
    by (intro conjI TrueI list.pred_inject(1);
        (rule own, erule power_kept | (unfold run_in_def)?, rule preserves_other, simp add: keep_defs))
qed

lemma cht_kept:
  assumes "g_cht_open s"
  shows "g_cht_open (snd (CheatStatus C req s))" "g_cht_open (snd (CheatList C req s))"
    "g_cht_open (snd (CheatToggle C req s))" "g_cht_open (snd (FreezeAddress C req s))"
    "g_cht_open (snd (UnfreezeAddress C req s))"
  using assms
  by (simp_all add: OpenCht_def CheatStatus_def CheatList_def CheatToggle_def FreezeAddress_def UnfreezeAddress_def
      cht_do_def Let_def split: prod.split option.split)

lemma table_open: "list_all (\<lambda>(f, h). preserves (\<lambda>a. g_cht_open (a_cht a)) h) (handler_table E)"
proof -
  have own: "preserves (\<lambda>a. g_cht_open (a_cht a)) (in_cht h)" if "\<And>req s. g_cht_open s \<Longrightarrow> g_cht_open (snd (h req s))" for h
    using that by (rule preserves_in) (simp_all add: keep_cht_def load_cht_def)
  show ?thesis
    unfolding handler_table_def list.pred_inject prod.case
    by (intro conjI TrueI list.pred_inject(1);
        (rule own, erule cht_kept | (unfold run_in_def)?, rule preserves_other, simp add: keep_defs))
qed

text \<open>
  The parts do not disturb each other. Every handler changes, beside the console, only the static
  variables of its own file; so over any history of commands of all parts, as far as they return, the
  candidate table keeps its bounds and width, a power transition once committed stays the one that
  will happen, and the cheat service's session, once open, is not opened again.
\<close>

theorem parts_isolated:
  assumes "agent_run E rs a = Some a'" "hunt_ok (a_hunt a)"
  shows "(\<forall>f h. (f, h) \<in> set (handler_table E) \<longrightarrow> isolated f h) \<and> hunt_ok (a_hunt a') \<and>
    (power_started (a_power a) \<longrightarrow>
       power_started (a_power a') \<and> g_pending_action (a_power a') = g_pending_action (a_power a)) \<and>
    (g_cht_open (a_cht a) \<longrightarrow> g_cht_open (a_cht a'))"
  using table_isolated [of E] agent_run_preserves [OF table_hunt_ok assms]
    agent_run_preserves [OF table_committed assms(1), of "g_pending_action (a_power a)"]
    agent_run_preserves [OF table_open assms(1)]
  by (auto simp: list_all_iff committed_def)

section \<open>A console that answers\<close>

text \<open>Any services, with the four that fill a buffer replaced by ones that give nothing.\<close>

definition idle_bus :: "unit bus_api" where
  "idle_bus =
     \<lparr>i2c_open = (\<lambda>_ w. (None, w)), i2c_send = (\<lambda>_ _ w. (False, w)), i2c_receive = (\<lambda>_ _ w. (None, w)),
      i2c_close = (\<lambda>_ w. w), gpio_open = (\<lambda>_ w. (None, w)), gpio_value = (\<lambda>_ _. None), gpio_close = (\<lambda>_ w. w),
      dev_tmp451 = 1, pad_vol_up = 25, gpio_high = 1\<rparr>"

definition calm :: "(unit, unit) services \<Rightarrow> (unit, unit) services" where
  "calm E = E\<lparr>sv_ns := shelf [7], sv_capture := (\<lambda>_ _ w. (None, w)), sv_album := no_album, sv_bus := idle_bus\<rparr>"

lemma calm_fills: "fills_buffers (calm E)"
  by (simp add: fills_buffers_def calm_def shelf_def no_album_def idle_bus_def)

lemma calm_running: "\<exists>r a'. agent_handler (calm E) ''RunningApp'' req a = Some (r, a')"
  by (simp add: agent_handler_def handler_table_def run_in_def run_maybe_def case_prod_unfold)

lemma running_app_row: "map_of Dispatch ''running_app'' = Some \<lparr>fn = ''RunningApp'', ctier = Observe, mutating = False\<rparr>"
  by (simp add: Dispatch_lookup command_table_def)

theorem every_command_answered_witness:
  "\<forall>E a. \<exists>r a'. agent_handler (calm E) ''RunningApp'' (save_request []) a = Some (r, a') \<and>
     idx (finish_reply 7 (snd r)) ''id'' = JInt 7"
proof (intro allI)
  fix E a
  obtain r a' where r: "agent_handler (calm E) ''RunningApp'' (save_request []) a = Some (r, a')"
    using calm_running by blast
  show "\<exists>r a'. agent_handler (calm E) ''RunningApp'' (save_request []) a = Some (r, a') \<and>
     idx (finish_reply 7 (snd r)) ''id'' = JInt 7"
  proof -
    have "agent_handler (calm E) (fn \<lparr>fn = ''RunningApp'', ctier = Observe, mutating = False\<rparr>) (save_request []) a = Some (r, a')"
      using r by simp
    with every_command_answered [OF calm_fills running_app_row, of E 7]
    have "idx (finish_reply 7 (snd r)) ''id'' = JInt 7" by blast
    with r show ?thesis by blast
  qed
qed

theorem parts_isolated_witness:
  "\<forall>E. \<exists>a'. agent_run (calm E) [(''RunningApp'', save_request []), (''RunningApp'', save_request [])] (agent_start ()) = Some a' \<and>
     hunt_ok (a_hunt a')"
proof
  fix E
  obtain r a where 1: "agent_handler (calm E) ''RunningApp'' (save_request []) (agent_start ()) = Some (r, a)"
    using calm_running by blast
  obtain r' a' where 2: "agent_handler (calm E) ''RunningApp'' (save_request []) a = Some (r', a')"
    using calm_running by blast
  have run: "agent_run (calm E) [(''RunningApp'', save_request []), (''RunningApp'', save_request [])] (agent_start ()) = Some a'"
    using 1 2 by simp
  have "hunt_ok (a_hunt (agent_start ()))" by (simp add: agent_start_def hunt_ok_start)
  from parts_isolated [OF run this] run
  show "\<exists>a'. agent_run (calm E) [(''RunningApp'', save_request []), (''RunningApp'', save_request [])] (agent_start ()) = Some a' \<and>
     hunt_ok (a_hunt a')" by blast
qed

end
