(* ===== verification/Connection.thy ===== *)
theory Connection
  imports AgentLaws
begin

text \<open>
  The server of \<^verbatim>\<open>server.cpp\<close> run on the agent itself: the platform whose handlers, journal,
  watchdog and virtual controller are the modelled ones, and what one connection can do to the
  agent's state.
\<close>

section \<open>The platform\<close>

text \<open>
  What is left to the console: random numbers, the MAC, the firmware version. The world is \<open>None\<close>
  once a handler has not returned; nothing is observed of what the server would do after that.
\<close>

record 'w outside =
  o_random :: "nat \<Rightarrow> 'w \<Rightarrow> byte list \<times> 'w"
  o_hmac :: "string \<Rightarrow> string \<Rightarrow> byte list"
  o_firmware :: "'w \<Rightarrow> byte \<times> byte \<times> byte"

definition run_on_agent ::
  "('w, 'c) services \<Rightarrow> string \<Rightarrow> request \<Rightarrow> 'w agent option \<Rightarrow> (bool \<times> reply) \<times> 'w agent option" where
  "run_on_agent E f req w =
     (case w of None \<Rightarrow> ((False, new_reply), None)
      | Some a \<Rightarrow> (case agent_handler E f req a of None \<Rightarrow> ((False, new_reply), None) | Some (r, a) \<Rightarrow> (r, Some a)))"

definition journal_on_agent :: "('w, 'c) services \<Rightarrow> string \<Rightarrow> bool \<Rightarrow> 'w agent \<Rightarrow> 'w agent" where
  "journal_on_agent E cmd ok a =
     a\<lparr>console := JournalAppend (sv_card E) (c_str cmd) (if ok then ''ok'' else ''FAILED'') (console a)\<rparr>"

definition agent_platform :: "('w, 'c) services \<Rightarrow> 'w outside \<Rightarrow> 'w agent option platform" where
  "agent_platform E X =
     \<lparr>run_handler = run_on_agent E,
      journal_append = (\<lambda>cmd ok. map_option (journal_on_agent E cmd ok)),
      watchdog_on_connect = map_option (\<lambda>a. keep_guards (WatchdogOnConnect (sv_card E) (load_guards a)) a),
      vpad_release = map_option (\<lambda>a. keep_pad (Release (sv_hid E) (load_pad a)) a),
      random_get = (\<lambda>n w. case w of None \<Rightarrow> (replicate n 0, None)
        | Some a \<Rightarrow> (let (bs, c) = o_random X n (console a) in (bs, Some (a\<lparr>console := c\<rparr>)))),
      hmac_sha256 = o_hmac X,
      fw_version = (\<lambda>w. case w of None \<Rightarrow> (0, 0, 0) | Some a \<Rightarrow> o_firmware X (console a))\<rparr>"

section \<open>What one command touches\<close>

definition power_fns :: "string list" where
  "power_fns = [''Reboot'', ''Shutdown'', ''AgentRestart'', ''RebootToPayload'']"

definition session_fns :: "string list" where "session_fns = [''DebugAttach'', ''DebugDetach'']"

definition waiting_fns :: "string list" where
  "waiting_fns =
     [''Titles'', ''SearchBegin'', ''BackupSave'', ''RestoreSave'', ''DebugAttach'', ''DebugPollEvents'']"

definition touches :: "string \<Rightarrow> (request \<Rightarrow> 'w agent \<Rightarrow> ((bool \<times> reply) \<times> 'w agent) option) \<Rightarrow> bool" where
  "touches f h \<longleftrightarrow>
     (\<forall>req a. case h req a of
        None \<Rightarrow> f \<in> set waiting_fns
      | Some (r, a') \<Rightarrow>
          (power_started (a_power a') \<longrightarrow> power_started (a_power a) \<or> fst r \<and> f \<in> set power_fns) \<and>
          (g_debug (a_debug a') = g_debug (a_debug a) \<or> f \<in> set session_fns) \<and>
          (g_debug (a_debug a') \<in> {g_debug (a_debug a), None} \<or> f = ''DebugAttach'') \<and>
          g_boot_count (a_guards a') = g_boot_count (a_guards a))"

lemma touches_in:
  assumes "\<And>req a. power_started (a_power (keep (snd (h req (load a))) a)) \<longrightarrow>
      power_started (a_power a) \<or> fst (fst (h req (load a))) \<and> f \<in> set power_fns"
    and "\<And>req a. g_debug (a_debug (keep (snd (h req (load a))) a)) = g_debug (a_debug a) \<or> f \<in> set session_fns"
    and "\<And>req a. g_debug (a_debug (keep (snd (h req (load a))) a)) \<in> {g_debug (a_debug a), None} \<or> f = ''DebugAttach''"
    and "\<And>req a. g_boot_count (a_guards (keep (snd (h req (load a))) a)) = g_boot_count (a_guards a)"
  shows "touches f (run_in load keep h)"
  using assms by (simp add: touches_def run_in_def run_maybe_def split_beta)

text \<open>Handlers of the parts that hold none of the three.\<close>

lemma touches_plain:
  "touches f (in_store h1)" "touches f (in_pad h2)" "touches f (in_hunt h3)" "touches f (in_cht h4)"
  "touches f (on_console h5)"
  by (rule touches_in; simp add: keep_defs)+

lemma touches_waiting:
  assumes "f \<in> set waiting_fns"
  shows "touches f (in_store_maybe h1)" "touches f (in_hunt_maybe h2)" "touches f (on_console_maybe h3)"
    "f = ''DebugAttach'' \<Longrightarrow> touches f (in_debug_maybe h4)"
  using assms by (auto simp: touches_def run_maybe_def keep_defs session_fns_def split: option.split)

lemma power_steps:
  "power_started (snd (power_handler P act m n s)) \<Longrightarrow> power_started s \<or> fst (fst (power_handler P act m n s))"
  by (auto simp: power_handler_def SchedulePowerAction_def Let_def split: if_splits prod.splits bool.splits)

lemma power_still:
  "power_started (snd (AgentInfo P req s)) = power_started s"
  "power_started (snd (SetBrightness P req s)) = power_started s"
  "power_started (snd (SetClocks P req s)) = power_started s"
  "power_started (snd (SetSleep P req s)) = power_started s"
  by (simp_all add: AgentInfo_def SetBrightness_def SetClocks_def SetSleep_def Let_def
      split: prod.split bool.split option.split)

lemma touches_power:
  "f \<in> set power_fns \<Longrightarrow> touches f (in_power (\<lambda>req. power_handler P act m n))"
  "(\<And>req s. power_started (snd (h req s)) = power_started s) \<Longrightarrow> touches f (in_power h)"
  by (rule touches_in; auto simp: keep_power_def load_power_def dest: power_steps)+

lemma Attached_debug: "(\<And>h. g_debug (snd (k h)) = g_debug s) \<Longrightarrow> g_debug (snd (Attached s k)) = g_debug s"
  by (simp add: Attached_def split: option.split)

lemma debug_still:
  "g_debug (snd (DebugContinue B req s)) = g_debug s" "g_debug (snd (DebugBreak B req s)) = g_debug s"
  "g_debug (snd (DebugWriteMem B req s)) = g_debug s" "g_debug (snd (DebugWriteRegisters B req s)) = g_debug s"
  "g_debug (snd (DebugSetHwBpRaw B req s)) = g_debug s" "g_debug (snd (DebugSetWatchpoint B req s)) = g_debug s"
  "g_debug (snd (DebugSetBreakpoint B req s)) = g_debug s" "g_debug (snd (DebugClearBreakpoint B req s)) = g_debug s"
  unfolding DebugContinue_def DebugBreak_def DebugWriteMem_def DebugWriteRegisters_def DebugSetHwBpRaw_def
    DebugSetWatchpoint_def DebugSetBreakpoint_def DebugClearBreakpoint_def
  by (rule Attached_debug, simp add: Let_def split_beta split: option.split)+

lemma touches_debug:
  "(\<And>req s. g_debug (snd (h req s)) = g_debug s) \<Longrightarrow> touches f (in_debug h)"
  "touches ''DebugDetach'' (in_debug (DebugDetach B))"
  by (rule touches_in; simp add: keep_debug_def load_debug_def DebugDetach_def session_fns_def split: option.split)+

lemma touches_poll: "touches ''DebugPollEvents'' (in_debug_maybe (DebugPollEvents k B D))"
  unfolding touches_def run_maybe_def
  by (auto simp: keep_debug_def load_debug_def DebugPollEvents_def waiting_fns_def split: option.splits)

lemma touches_guards:
  "touches f (in_guards (PreflightCheck C))" "touches f (in_guards (JournalRead C))" "touches f (in_guards WatchdogStatus)"
  by (rule touches_in; simp add: keep_guards_def load_guards_def PreflightCheck_def JournalRead_def WatchdogStatus_def
      Let_def split: option.split)+

lemma looking_still:
  "g_debug (snd (DebugReadMem B req s)) = g_debug s" "g_debug (snd (DebugMemMap B D K req s)) = g_debug s"
  "g_debug (snd (DebugThreads B req s)) = g_debug s" "g_debug (snd (DebugRegisters B req s)) = g_debug s"
  "g_debug (snd (DebugSearch B D K req s)) = g_debug s" "g_debug (snd (DebugModules B req s)) = g_debug s"
  "g_debug (snd (DebugBacktrace B req s)) = g_debug s"
  by (simp_all add: looks_only)

lemma transitions: "Reboot P = (\<lambda>req. power_handler P Do_reboot ''could not schedule reboot'' ''rebooting in ~500ms'')"
  "Shutdown P = (\<lambda>req. power_handler P Do_shutdown ''could not schedule shutdown'' ''powering off in ~500ms'')"
  "RebootToPayload P = (\<lambda>req. power_handler P Do_reboot ''could not schedule reboot''
     ''plain reboot (bpc:ams payload reboot not wired up yet)'')"
  "AgentRestart P = (\<lambda>req. power_handler P Do_reboot ''could not schedule reboot'' ''rebooting to reload the agent'')"
  by (simp_all add: fun_eq_iff Reboot_def Shutdown_def RebootToPayload_def AgentRestart_def)

lemma table_touches: "list_all (\<lambda>(f, h). touches f h) (handler_table E)"
  unfolding handler_table_def list.pred_inject prod.case transitions
  by (intro conjI TrueI list.pred_inject(1);
      (rule touches_plain | rule touches_guards | rule touches_poll |
       rule touches_power(2), rule power_still | rule touches_debug(1), rule debug_still looking_still | rule touches_debug(2) |
       rule touches_waiting touches_power(1), (simp add: waiting_fns_def session_fns_def power_fns_def)+))

section \<open>Along a connection\<close>

definition ran_fn :: "call list \<Rightarrow> string \<Rightarrow> bool \<Rightarrow> bool" where
  "ran_fn cs f ok \<longleftrightarrow> (\<exists>cmd c. Ran cmd ok \<in> set cs \<and> (cmd, c) \<in> set command_table \<and> fn c = f)"

lemma ran_fn_append: "ran_fn cs f ok \<Longrightarrow> ran_fn (cs @ ds) f ok"
  by (auto simp: ran_fn_def)

text \<open>What the trace of a connection says of the state it leaves.\<close>

fun accounts :: "'w agent \<Rightarrow> call list \<Rightarrow> 'w agent option \<Rightarrow> bool" where
  "accounts a0 cs None = (\<exists>f\<in>set waiting_fns. \<exists>ok. ran_fn cs f ok)"
| "accounts a0 cs (Some a) =
     ((power_started (a_power a) \<longrightarrow> power_started (a_power a0) \<or> (\<exists>f\<in>set power_fns. ran_fn cs f True)) \<and>
      (g_debug (a_debug a) = g_debug (a_debug a0) \<or> (\<exists>f\<in>set session_fns. \<exists>ok. ran_fn cs f ok)) \<and>
      (g_debug (a_debug a) \<in> {g_debug (a_debug a0), None} \<or> (\<exists>ok. ran_fn cs ''DebugAttach'' ok)) \<and>
      g_boot_count (a_guards a) = g_boot_count (a_guards a0))"

lemma touchesD:
  "touches f h \<Longrightarrow> h req a = None \<Longrightarrow> f \<in> set waiting_fns"
  "touches f h \<Longrightarrow> h req a = Some (r, a') \<Longrightarrow>
     (power_started (a_power a') \<longrightarrow> power_started (a_power a) \<or> fst r \<and> f \<in> set power_fns) \<and>
     (g_debug (a_debug a') = g_debug (a_debug a) \<or> f \<in> set session_fns) \<and>
     (g_debug (a_debug a') \<in> {g_debug (a_debug a), None} \<or> f = ''DebugAttach'') \<and>
     g_boot_count (a_guards a') = g_boot_count (a_guards a)"
  unfolding touches_def by (drule spec [of _ req], drule spec [of _ a], simp)+

lemma accounts_append: "accounts a0 cs w \<Longrightarrow> accounts a0 (cs @ ds) w"
  by (cases w) (auto intro: ran_fn_append)

lemma accounts_step:
  assumes "accounts a0 cs w" "run_on_agent E (fn c) req w = ((ok, rep), w')" "(cmd, c) \<in> set command_table"
  shows "accounts a0 (cs @ Ran cmd ok # ds) w'"
proof (cases w)
  case None
  then have "w' = None" using assms(2) by (simp add: run_on_agent_def)
  then show ?thesis using assms(1) None by (auto intro: ran_fn_append)
next
  case (Some a)
  have ran: "ran_fn (cs @ Ran cmd ok # ds) (fn c) ok" using assms(3) by (auto simp: ran_fn_def)
  have "fn c \<in> set (map fst (handler_table E))" unfolding handler_names set_map o_def
    by (rule image_eqI [OF _ assms(3)]) simp
  then obtain h where h: "map_of (handler_table E) (fn c) = Some h"
    using map_of_eq_None_iff by fastforce
  then have t: "touches (fn c) h" using table_touches map_of_SomeD [OF h] by (auto simp: list_all_iff)
  have x: "accounts a0 (cs @ Ran cmd ok # ds) w" using assms(1) by (rule accounts_append)
  show ?thesis
  proof (cases "h req a")
    case None
    then have "w' = None" "fn c \<in> set waiting_fns"
      using Some h assms(2) touchesD(1) [OF t None] by (simp_all add: run_on_agent_def agent_handler_def)
    then show ?thesis using ran by auto
  next
    case r: (Some y)
    then obtain rp b where y: "y = (rp, b)" by (cases y)
    then have "w' = Some b" "rp = (ok, rep)" using Some h assms(2) r by (simp_all add: run_on_agent_def agent_handler_def)
    then show ?thesis
      using x Some ran touchesD(2) [OF t r [unfolded y]] by auto
  qed
qed

lemma execute_accounts:
  assumes "accounts a0 (calls s) (world s)"
  shows "accounts a0 (calls (snd (execute (agent_platform E X) cfg msg p s))) (world (snd (execute (agent_platform E X) cfg msg p s)))"
proof (cases rule: execute_cases [where P = "agent_platform E X" and cfg = cfg and msg = msg and p = p and s = s])
  case (ran c ok reply w)
  let ?cmd = "the_command msg"
  have "run_on_agent E (fn c) \<lparr>req_msg = msg, req_payload = p, req_cfg = cfg\<rparr> (world s) = ((ok, reply), w)"
    using ran(4) by (simp add: agent_platform_def)
  from accounts_step [OF assms this ran(2)]
  have w: "accounts a0 (calls s @ Ran ?cmd ok # ds) w" for ds .
  moreover have "accounts a0 cs (map_option (journal_on_agent E cmd b) v) = accounts a0 cs v" for cs cmd b v
    by (cases v) (simp_all add: journal_on_agent_def)
  ultimately show ?thesis using ran(5) by (simp add: agent_platform_def)
qed (use assms in simp_all)

lemma serve_loop_accounts:
  "accounts a0 (calls s) (world s) \<Longrightarrow>
   accounts a0 (calls (serve_loop (agent_platform E X) cfg idle s)) (world (serve_loop (agent_platform E X) cfg idle s))"
  by (rule serve_loop_invariant [where I = "\<lambda>s. accounts a0 (calls s) (world s)"]) (simp_all add: execute_accounts)

section \<open>The whole connection\<close>

definition transition_commands :: "string set" where
  "transition_commands = {''reboot'', ''shutdown'', ''agent.restart'', ''reboot_to_payload''}"

definition session_commands :: "string set" where "session_commands = {''debug.attach'', ''debug.detach''}"

definition waiting_commands :: "string set" where
  "waiting_commands =
     {''titles'', ''search.begin'', ''save.backup'', ''save.restore'', ''debug.attach'', ''debug.poll_events''}"

lemma fn_command:
  assumes "(cmd, c) \<in> set command_table"
  shows "fn c \<in> set power_fns \<Longrightarrow> cmd \<in> transition_commands \<and> is_mutating cmd"
    and "fn c \<in> set session_fns \<Longrightarrow> cmd \<in> session_commands"
    and "fn c \<in> set waiting_fns \<Longrightarrow> cmd \<in> waiting_commands"
    and "fn c = ''DebugAttach'' \<Longrightarrow> cmd = ''debug.attach''"
proof -
  have "list_all (\<lambda>(cmd, c). (fn c \<in> set power_fns \<longrightarrow> cmd \<in> transition_commands \<and> mutating c) \<and>
      (fn c \<in> set session_fns \<longrightarrow> cmd \<in> session_commands) \<and> (fn c \<in> set waiting_fns \<longrightarrow> cmd \<in> waiting_commands) \<and>
      (fn c = ''DebugAttach'' \<longrightarrow> cmd = ''debug.attach'')) command_table"
    by (simp add: command_table_def power_fns_def session_fns_def waiting_fns_def
        transition_commands_def session_commands_def waiting_commands_def)
  then show "fn c \<in> set power_fns \<Longrightarrow> cmd \<in> transition_commands \<and> is_mutating cmd"
    "fn c \<in> set session_fns \<Longrightarrow> cmd \<in> session_commands" "fn c \<in> set waiting_fns \<Longrightarrow> cmd \<in> waiting_commands"
    "fn c = ''DebugAttach'' \<Longrightarrow> cmd = ''debug.attach''"
    using assms by (auto simp: list_all_iff is_mutating_def)
qed

lemma ran_command:
  "(\<exists>f\<in>set power_fns. ran_fn cs f ok) \<Longrightarrow> \<exists>cmd\<in>transition_commands. Ran cmd ok \<in> set cs \<and> is_mutating cmd"
  "(\<exists>f\<in>set session_fns. \<exists>ok. ran_fn cs f ok) \<Longrightarrow> \<exists>cmd\<in>session_commands. \<exists>ok. Ran cmd ok \<in> set cs"
  "(\<exists>f\<in>set waiting_fns. \<exists>ok. ran_fn cs f ok) \<Longrightarrow> \<exists>cmd\<in>waiting_commands. \<exists>ok. Ran cmd ok \<in> set cs"
  "ran_fn cs ''DebugAttach'' ok \<Longrightarrow> Ran ''debug.attach'' ok \<in> set cs"
  unfolding ran_fn_def using fn_command by blast+

lemma journaled_run: "well_journaled cs \<Longrightarrow> Ran cmd ok \<in> set cs \<Longrightarrow> is_mutating cmd \<Longrightarrow> Journaled cmd ok \<in> set cs"
  by (induction cs rule: well_journaled.induct) auto

text \<open>Authentication on the agent touches nothing but the random generator and the watchdog.\<close>

lemma Authenticate_world:
  assumes "Authenticate P cfg s = (True, t)"
  shows "\<exists>w\<in>{world s, snd (random_get P 32 (world s))}. world t = watchdog_on_connect P w"
proof -
  obtain f s1 where f: "on_conn ReadFrame (recv_timeout_to kIoTimeoutSec s) = (f, s1)"
    by (cases "on_conn ReadFrame (recv_timeout_to kIoTimeoutSec s)")
  note s1 = on_conn_same(1) [OF f, simplified]
  obtain msg p where m: "f = FrameOk msg p"
    using assms f by (cases f) (auto simp: Authenticate_def Let_def)
  obtain v s2 where v: "auth_verdict P cfg msg s1 = (v, s2)" by (cases "auth_verdict P cfg msg s1")
  show ?thesis
    using assms f m v s1 auth_verdict_same [OF v]
    by (auto simp: Authenticate_def Let_def called_def dest!: on_conn_same(1)
        split: option.splits prod.splits if_splits)
qed

lemma Authenticate_agent:
  assumes "Authenticate (agent_platform E X) cfg s = (r, t)" "world s = Some a"
  shows "\<exists>c g. world t = Some (a\<lparr>console := c, a_guards := g\<rparr>) \<and> (if r then g_boot_count g = 0 else g = a_guards a)"
proof -
  let ?P = "agent_platform E X"
  have "\<exists>c. w = Some (a\<lparr>console := c\<rparr>)" if w: "w \<in> {world s, snd (random_get ?P 32 (world s))}" for w
  proof (cases "w = world s")
    case True
    then have "w = Some (a\<lparr>console := console a\<rparr>)" using assms(2) by simp
    then show ?thesis ..
  next
    case False
    then have "w = Some (a\<lparr>console := snd (o_random X 32 (console a))\<rparr>)"
      using w assms(2) by (simp add: agent_platform_def split_beta)
    then show ?thesis by (rule exI)
  qed
  note same = this
  show ?thesis
  proof (cases r)
    case True
    have "Authenticate ?P cfg s = (True, t)" using assms(1) True by simp
    from Authenticate_world [OF this] obtain w where
      w: "w \<in> {world s, snd (random_get ?P 32 (world s))}" "world t = watchdog_on_connect ?P w" ..
    obtain c where c: "w = Some (a\<lparr>console := c\<rparr>)" using same [OF w(1)] ..
    define g where "g = WatchdogOnConnect (sv_card E) (load_guards (a\<lparr>console := c\<rparr>))"
    have "world t = Some (a\<lparr>console := gworld g, a_guards := g\<rparr>)"
      unfolding w(2) c by (simp add: agent_platform_def keep_guards_def g_def)
    moreover have "g_boot_count g = 0" by (simp add: g_def WatchdogOnConnect_def)
    ultimately show ?thesis unfolding if_P [OF True] by (intro exI conjI)
  next
    case False
    then have "world t \<in> {world s, snd (random_get ?P 32 (world s))}"
      using Authenticate_outcome [OF assms(1)] by simp
    from same [OF this] obtain c where "world t = Some (a\<lparr>console := c\<rparr>)" ..
    then have "world t = Some (a\<lparr>console := c, a_guards := a_guards a\<rparr>)" by simp
    then show ?thesis unfolding if_not_P [OF False] by - (intro exI, rule conjI, assumption, rule refl)
  qed
qed

text \<open>
  What a connection leaves behind, on the agent itself. Whatever a peer sends: if the connection
  has got stuck in a handler, it ran one of the six that wait for a service. Otherwise a power
  transition is under way only if it was before, or a power command the configuration permits ran,
  succeeded and was journaled; the debugger's session is another one only if a permitted attach or
  detach ran, so that disconnecting does not end it, and a new one only if an attach ran; an accepted client leaves no virtual controller
  and breaks the count of boots without a client, and a refused one leaves every variable of the
  agent as it was.
\<close>

theorem connection_leaves:
  assumes "t = ServeConnection (agent_platform E X) cfg s" "calls s = []" "world s = Some a"
  shows "case world t of
      None \<Rightarrow> \<exists>cmd\<in>waiting_commands. \<exists>ok. Ran cmd ok \<in> set (calls t) \<and> permitted cfg cmd
    | Some b \<Rightarrow>
        (power_started (a_power b) \<longrightarrow> power_started (a_power a) \<or>
           (\<exists>cmd\<in>transition_commands. Ran cmd True \<in> set (calls t) \<and> Journaled cmd True \<in> set (calls t) \<and> permitted cfg cmd)) \<and>
        (g_debug (a_debug b) = g_debug (a_debug a) \<or>
           (\<exists>cmd\<in>session_commands. \<exists>ok. Ran cmd ok \<in> set (calls t) \<and> permitted cfg cmd)) \<and>
        (g_debug (a_debug b) \<in> {g_debug (a_debug a), None} \<or>
           (\<exists>ok. Ran ''debug.attach'' ok \<in> set (calls t) \<and> permitted cfg ''debug.attach'')) \<and>
        (if fst (Authenticate (agent_platform E X) cfg s)
         then \<not> g_attached (a_pad b) \<and> g_boot_count (a_guards b) = 0
         else \<exists>c. b = a\<lparr>console := c\<rparr>)"
proof -
  let ?P = "agent_platform E X"
  obtain r u where u: "Authenticate ?P cfg s = (r, u)" by fastforce
  obtain c g where g: "world u = Some (a\<lparr>console := c, a_guards := g\<rparr>)" "if r then g_boot_count g = 0 else g = a_guards a"
    using Authenticate_agent [OF u assms(3)] by blast
  define a0 where "a0 = a\<lparr>console := c, a_guards := g\<rparr>"
  have same: "power_started (a_power a0) = power_started (a_power a)" "g_debug (a_debug a0) = g_debug (a_debug a)"
    "a_guards a0 = g" by (simp_all add: a0_def)
  show ?thesis
  proof (cases r)
    case False
    then have t: "t = u" using assms(1) u by (simp add: ServeConnection_def)
    have "a0 = a\<lparr>console := c\<rparr>" using g(2) False by (simp add: a0_def)
    moreover have "world u = Some a0" using g(1) by (simp add: a0_def)
    ultimately show ?thesis using t u False same(1,2) by auto
  next
    case True
    let ?v = "serve_loop ?P cfg 0 u"
    have "accounts a0 (calls u) (world u)" using g(1) by (simp add: a0_def [symmetric])
    then have acc: "accounts a0 (calls ?v) (world ?v)" by (rule serve_loop_accounts)
    have t: "world t = vpad_release ?P (world ?v)" "calls t = calls ?v @ [VpadReleased]"
      using assms(1) u True by (simp_all add: ServeConnection_def called_def)
    have safe: "only_permitted cfg (calls t)" "well_journaled (calls t)"
      using connection_safe [OF assms(2)] assms(1) by simp_all
    show ?thesis
    proof (cases "world ?v")
      case None
      then have "\<exists>cmd\<in>waiting_commands. \<exists>ok. Ran cmd ok \<in> set (calls ?v)"
        using acc ran_command(3) by simp
      then have "\<exists>cmd\<in>waiting_commands. \<exists>ok. Ran cmd ok \<in> set (calls t) \<and> permitted cfg cmd"
        using safe(1) t(2) by (auto simp: only_permitted_def)
      then show ?thesis using t(1) None by (simp add: agent_platform_def)
    next
      case (Some b)
      define b' where "b' = keep_pad (Release (sv_hid E) (load_pad b)) b"
      have w: "world t = Some b'" using t(1) Some by (simp add: agent_platform_def b'_def)
      have b': "a_power b' = a_power b" "a_debug b' = a_debug b" "a_guards b' = a_guards b" "\<not> g_attached (a_pad b')"
        by (simp_all add: b'_def keep_pad_def Release_def Let_def)
      have acc: "accounts a0 (calls ?v) (Some b)" using acc Some by simp
      have p: "\<exists>cmd\<in>transition_commands. Ran cmd True \<in> set (calls t) \<and> Journaled cmd True \<in> set (calls t) \<and> permitted cfg cmd"
        if "power_started (a_power b')" "\<not> power_started (a_power a)"
      proof -
        have "\<exists>f\<in>set power_fns. ran_fn (calls ?v) f True" using that acc b'(1) same(1) by simp
        from ran_command(1) [OF this] obtain cmd where
          c: "cmd \<in> transition_commands" "Ran cmd True \<in> set (calls t)" "is_mutating cmd" using t(2) by auto
        then show ?thesis
          using journaled_run [OF safe(2) c(2,3)] safe(1) by (auto simp: only_permitted_def)
      qed
      have d: "\<exists>cmd\<in>session_commands. \<exists>ok. Ran cmd ok \<in> set (calls t) \<and> permitted cfg cmd"
        if "g_debug (a_debug b') \<noteq> g_debug (a_debug a)"
      proof -
        have "\<exists>f\<in>set session_fns. \<exists>ok. ran_fn (calls ?v) f ok" using that acc b'(2) same(2) by simp
        from ran_command(2) [OF this] show ?thesis using safe(1) t(2) by (auto simp: only_permitted_def)
      qed
      have e: "\<exists>ok. Ran ''debug.attach'' ok \<in> set (calls t) \<and> permitted cfg ''debug.attach''"
        if new: "g_debug (a_debug b') \<notin> {g_debug (a_debug a), None}"
      proof -
        have "g_debug (a_debug b) \<in> {g_debug (a_debug a), None} \<or> (\<exists>ok. ran_fn (calls ?v) ''DebugAttach'' ok)"
          using acc same(2) by simp
        then obtain ok where "ran_fn (calls ?v) ''DebugAttach'' ok" using new b'(2) by auto
        from ran_command(4) [OF this] show ?thesis using safe(1) t(2) by (auto simp: only_permitted_def)
      qed
      have "g_boot_count (a_guards b') = 0" using acc b'(3) same(3) g(2) True by simp
      then show ?thesis using w p d e b'(4) u True by auto
    qed
  qed
qed

text \<open>A peer whose first read fails is refused, and the agent's variables stay.\<close>

definition broken_peer :: "'w agent \<Rightarrow> 'w agent option server" where
  "broken_peer a =
     \<lparr>sconn = \<lparr>rx = [RxErr], tx = [], sent = [], rcv_timeout = 30\<rparr>, world = Some a, calls = []\<rparr>"

lemma broken_peer_refused:
  "\<exists>u. Authenticate P cfg (broken_peer a) = (False, u) \<and> world u = Some a"
  by (simp add: Authenticate_def broken_peer_def on_conn_def recv_timeout_to_def SetRecvTimeout_def ReadFrame_def
      ReadExactEx.simps [of 4 "[]" "[RxErr]"] Let_def)

theorem connection_leaves_witness:
  "\<forall>(E :: (unit, unit) services) X cfg. \<exists>c b. world (ServeConnection (agent_platform E X) cfg (broken_peer (agent_start ()))) = Some b \<and>
     b = (agent_start ())\<lparr>console := c\<rparr>"
proof (intro allI)
  fix E :: "(unit, unit) services" and X :: "unit outside" and cfg
  let ?P = "agent_platform E X" and ?s = "broken_peer (agent_start ())"
  obtain u where u: "Authenticate ?P cfg ?s = (False, u)" "world u = Some (agent_start ())"
    using broken_peer_refused by blast
  have w: "world (ServeConnection ?P cfg ?s) = Some (agent_start ())" using u by (simp add: ServeConnection_def)
  have "calls ?s = []" "world ?s = Some (agent_start ())" by (simp_all add: broken_peer_def)
  from connection_leaves [OF refl this, of E X cfg] w u(1)
  show "\<exists>c b. world (ServeConnection ?P cfg ?s) = Some b \<and> b = (agent_start ())\<lparr>console := c\<rparr>" by auto
qed

end
