(* ===== verification/Listener.thy ===== *)
theory Listener
  imports Connection
begin

text \<open>
  The sockets of \<^verbatim>\<open>Server::Run\<close>: opening the listener, accepting, configuring and closing
  connections, as steps over descriptors, refining the accept loop of \<open>ServerRun\<close>; and what holds of
  the whole process, from boot over any number of connections.
\<close>

section \<open>Sockets\<close>

datatype sock_option =
    SO_REUSEADDR nat
  | SO_SNDTIMEO nat
  | SO_RCVTIMEO nat
  | SO_KEEPALIVE nat
  | TCP_KEEPIDLE nat
  | TCP_KEEPINTVL nat
  | TCP_KEEPCNT nat
  | TCP_NODELAY nat

text \<open>A failed call gives \<open>None\<close> or \<open>False\<close>; \<open>keepidle_defined\<close> is the \<^verbatim>\<open>#ifdef\<close>.\<close>

record 'n sock_api =
  keepidle_defined :: bool
  sk_socket :: "'n \<Rightarrow> nat option \<times> 'n"
  sk_setopt :: "nat \<Rightarrow> sock_option \<Rightarrow> 'n \<Rightarrow> 'n"
  sk_bind :: "nat \<Rightarrow> u16 \<Rightarrow> 'n \<Rightarrow> bool \<times> 'n"
  sk_listen :: "nat \<Rightarrow> nat \<Rightarrow> 'n \<Rightarrow> bool \<times> 'n"
  sk_accept :: "nat \<Rightarrow> 'n \<Rightarrow> nat option \<times> 'n"
  sk_close :: "nat \<Rightarrow> 'n \<Rightarrow> 'n"
  sk_sleep :: "nat \<Rightarrow> 'n \<Rightarrow> 'n"

definition OpenListener :: "'n sock_api \<Rightarrow> u16 \<Rightarrow> 'n \<Rightarrow> nat option \<times> 'n" where
  "OpenListener K port n =
     (case sk_socket K n of
        (None, n) \<Rightarrow> (None, n)
      | (Some fd, n) \<Rightarrow>
          (case sk_bind K fd port (sk_setopt K fd (SO_REUSEADDR 1) n) of
             (False, n) \<Rightarrow> (None, sk_close K fd n)
           | (True, n) \<Rightarrow>
               (case sk_listen K fd 4 n of
                  (False, n) \<Rightarrow> (None, sk_close K fd n)
                | (True, n) \<Rightarrow> (Some fd, n))))"

definition conn_options :: "'n sock_api \<Rightarrow> sock_option list" where
  "conn_options K =
     [SO_SNDTIMEO kIoTimeoutSec, SO_RCVTIMEO kIdleTimeoutSec, SO_KEEPALIVE 1] @
     (if keepidle_defined K then [TCP_KEEPIDLE 10, TCP_KEEPINTVL 5, TCP_KEEPCNT 4] else []) @ [TCP_NODELAY 1]"

definition configure_fd :: "'n sock_api \<Rightarrow> nat \<Rightarrow> 'n \<Rightarrow> 'n" where
  "configure_fd K fd n = fold (sk_setopt K fd) (conn_options K) n"

section \<open>The loop over descriptors\<close>

record ('w, 'n) net_state =
  net :: 'n
  listen_fd :: "nat option"
  consecutive_errors :: nat
  nflags :: flags
  nworld :: 'w
  nhistory :: "call list list"

text \<open>The inner loop after \<^verbatim>\<open>accept\<close> has failed: tear down, wait asleep, or count the error.\<close>

definition accept_error :: "'n sock_api \<Rightarrow> nat \<Rightarrow> ('w, 'n) net_state \<Rightarrow> ('w, 'n) net_state" where
  "accept_error K lfd s =
     (let teardown = (\<lambda>s. s\<lparr>net := sk_close K lfd (net s), listen_fd := None, consecutive_errors := 0\<rparr>);
          (woke, f) = TakeWokeFlag (nflags s);
          s = s\<lparr>nflags := f\<rparr>
      in if woke then teardown s
         else if IsAsleep f then s\<lparr>net := sk_sleep K 200000000 (net s)\<rparr>
         else let s = s\<lparr>consecutive_errors := consecutive_errors s + 1\<rparr>
              in if consecutive_errors s \<ge> 20 then teardown s
                 else s\<lparr>net := sk_sleep K 100000000 (net s)\<rparr>)"

text \<open>A connection whose peer sends and takes as \<open>c\<close> says, from configuration to \<^verbatim>\<open>close\<close>.\<close>

definition serve_fd ::
  "'w platform \<Rightarrow> agent_config \<Rightarrow> 'n sock_api \<Rightarrow> nat \<Rightarrow> conn \<Rightarrow> ('w, 'n) net_state \<Rightarrow> ('w, 'n) net_state" where
  "serve_fd P cfg K fd c s =
     (let r = serve_accepted P cfg c (nworld s)
      in s\<lparr>net := sk_close K fd (configure_fd K fd (net s)), consecutive_errors := 0,
           nworld := world r, nhistory := nhistory s @ [calls r]\<rparr>)"

inductive net_step ::
  "'w platform \<Rightarrow> agent_config \<Rightarrow> 'n sock_api \<Rightarrow> u16 \<Rightarrow> ('w, 'n) net_state \<Rightarrow> ('w, 'n) net_state \<Rightarrow> bool"
  for P cfg K port where
  retry: "listen_fd s = None \<Longrightarrow> OpenListener K port (net s) = (None, n) \<Longrightarrow>
    net_step P cfg K port s (s\<lparr>net := sk_sleep K 1000000000 n\<rparr>)"
| listen: "listen_fd s = None \<Longrightarrow> OpenListener K port (net s) = (Some fd, n) \<Longrightarrow>
    net_step P cfg K port s (s\<lparr>net := n, listen_fd := Some fd, consecutive_errors := 0\<rparr>)"
| error: "listen_fd s = Some lfd \<Longrightarrow> sk_accept K lfd (net s) = (None, n) \<Longrightarrow>
    net_step P cfg K port s (accept_error K lfd (s\<lparr>net := n\<rparr>))"
| serve: "listen_fd s = Some lfd \<Longrightarrow> sk_accept K lfd (net s) = (Some fd, n) \<Longrightarrow>
    net_step P cfg K port s (serve_fd P cfg K fd c (s\<lparr>net := n\<rparr>))"
| power: "net_step P cfg K port s (s\<lparr>nflags := note_request q (nflags s)\<rparr>)"

inductive_cases net_stepE: "net_step P cfg K port s s'"

definition net_start :: "'w \<Rightarrow> 'n \<Rightarrow> ('w, 'n) net_state" where
  "net_start w n =
     \<lparr>net = n, listen_fd = None, consecutive_errors = 0, nflags = \<lparr>g_asleep = False, g_woke = False\<rparr>,
      nworld = w, nhistory = []\<rparr>"

inductive net_reach ::
  "'w platform \<Rightarrow> agent_config \<Rightarrow> 'n sock_api \<Rightarrow> u16 \<Rightarrow> ('w, 'n) net_state \<Rightarrow> ('w, 'n) net_state \<Rightarrow> bool"
  for P cfg K port s0 where
  at_start: "net_reach P cfg K port s0 s0"
| after: "net_reach P cfg K port s0 s \<Longrightarrow> net_step P cfg K port s s' \<Longrightarrow> net_reach P cfg K port s0 s'"

section \<open>Refinement of the accept loop\<close>

definition abs_net :: "('w, 'n) net_state \<Rightarrow> 'w run_state" where
  "abs_net s =
     \<lparr>phase = (if listen_fd s = None then Opening else Accepting (consecutive_errors s)), flags = nflags s,
      rworld = nworld s, history = nhistory s\<rparr>"

lemma abs_net_sel [simp]:
  "phase (abs_net s) = (if listen_fd s = None then Opening else Accepting (consecutive_errors s))"
  "flags (abs_net s) = nflags s" "rworld (abs_net s) = nworld s" "history (abs_net s) = nhistory s"
  by (simp_all add: abs_net_def)

lemma abs_accept_error:
  "listen_fd s = Some lfd \<Longrightarrow> abs_net (accept_error K lfd s) = accept_failed (consecutive_errors s) (abs_net s)"
  by (simp add: accept_error_def accept_failed_def TakeWokeFlag_def kMaxAcceptErrors_def abs_net_def Let_def)

lemma net_step_refines: "net_step P cfg K port s s' \<Longrightarrow> \<exists>l. run_step P cfg (abs_net s) l (abs_net s')"
proof (induction rule: net_step.induct)
  case (retry s n)
  then show ?case using run_step.listen_fails [of "abs_net s" P cfg] by (auto simp: abs_net_def)
next
  case (listen s fd n)
  then show ?case using run_step.listen_ok [of "abs_net s" P cfg] by (auto simp: abs_net_def)
next
  case (error s lfd n)
  then show ?case
    using run_step.accept_fails [of "abs_net s" "consecutive_errors s" P cfg]
      abs_accept_error [of "s\<lparr>net := n\<rparr>" lfd K]
    by (auto simp: abs_net_def)
next
  case (serve s lfd fd n c)
  then show ?case
    using run_step.accept_ok [of "abs_net s" "consecutive_errors s" "serve_accepted P cfg c (nworld s)" P cfg c]
    by (auto simp: abs_net_def serve_fd_def Let_def)
next
  case (power s q)
  then show ?case using run_step.psc [of P cfg "abs_net s" q] by (auto simp: abs_net_def)
qed

lemma runs_snoc: "runs P cfg s ls s' \<Longrightarrow> run_step P cfg s' l s'' \<Longrightarrow> runs P cfg s (ls @ [l]) s''"
  by (induction rule: runs.induct) (auto intro: runs.intros)

lemma net_reach_runs:
  "net_reach P cfg K port s0 s \<Longrightarrow> \<exists>ls. runs P cfg (abs_net s0) ls (abs_net s)"
proof (induction rule: net_reach.induct)
  case at_start
  then show ?case by (meson runs.stop)
next
  case (after s s')
  then show ?case using net_step_refines runs_snoc by meson
qed

section \<open>Descriptors\<close>

text \<open>
  Documented of sockets, \<open>opens\<close> being the descriptors the process holds: creating and accepting give
  a new one or none, closing gives it back, no other call opens or closes any.
\<close>

definition sock_laws :: "'n sock_api \<Rightarrow> ('n \<Rightarrow> nat set) \<Rightarrow> bool" where
  "sock_laws K opens \<longleftrightarrow>
     (\<forall>n. opens (snd (sk_socket K n)) = set_option (fst (sk_socket K n)) \<union> opens n \<and>
          set_option (fst (sk_socket K n)) \<inter> opens n = {}) \<and>
     (\<forall>l n. opens (snd (sk_accept K l n)) = set_option (fst (sk_accept K l n)) \<union> opens n \<and>
          set_option (fst (sk_accept K l n)) \<inter> opens n = {}) \<and>
     (\<forall>fd n. opens (sk_close K fd n) = opens n - {fd}) \<and>
     (\<forall>fd v n. opens (sk_setopt K fd v n) = opens n) \<and>
     (\<forall>fd p n. opens (snd (sk_bind K fd p n)) = opens n) \<and>
     (\<forall>fd k n. opens (snd (sk_listen K fd k n)) = opens n) \<and>
     (\<forall>t n. opens (sk_sleep K t n) = opens n)"

lemma sock_lawsD:
  assumes "sock_laws K opens"
  shows "sk_socket K n = (r, n') \<Longrightarrow> opens n' = set_option r \<union> opens n \<and> set_option r \<inter> opens n = {}"
    and "sk_accept K l n = (r, n') \<Longrightarrow> opens n' = set_option r \<union> opens n \<and> set_option r \<inter> opens n = {}"
    and "opens (sk_close K fd n) = opens n - {fd}"
    and "opens (sk_setopt K fd v n) = opens n"
    and "sk_bind K fd p n = (b, n') \<Longrightarrow> opens n' = opens n"
    and "sk_listen K fd k n = (b, n') \<Longrightarrow> opens n' = opens n"
    and "opens (sk_sleep K t n) = opens n"
  using assms unfolding sock_laws_def by (metis fst_conv snd_conv)+

lemma OpenListener_opens:
  assumes L: "sock_laws K opens" and "OpenListener K port n = (r, n')"
  shows "opens n' = set_option r \<union> opens n"
  using assms(2)
  by (auto simp: OpenListener_def sock_lawsD(3,4) [OF L] split: prod.splits option.splits bool.splits
      dest!: sock_lawsD(1,5,6) [OF L])

lemma configure_opens: "sock_laws K opens \<Longrightarrow> opens (configure_fd K fd n) = opens n"
proof -
  assume L: "sock_laws K opens"
  have "opens (fold (sk_setopt K fd) os n) = opens n" for os
    by (induction os arbitrary: n) (simp_all add: sock_lawsD(4) [OF L])
  then show ?thesis by (simp add: configure_fd_def)
qed

definition fds_ok :: "('n \<Rightarrow> nat set) \<Rightarrow> ('w, 'n) net_state \<Rightarrow> bool" where
  "fds_ok opens s \<longleftrightarrow> opens (net s) = set_option (listen_fd s)"

lemma net_step_fds:
  assumes L: "sock_laws K opens"
  shows "net_step P cfg K port s s' \<Longrightarrow> fds_ok opens s \<Longrightarrow> fds_ok opens s'"
proof (induction rule: net_step.induct)
  case (retry s n)
  then show ?case using OpenListener_opens [OF L retry(2)] by (simp add: fds_ok_def sock_lawsD(7) [OF L])
next
  case (listen s fd n)
  then show ?case using OpenListener_opens [OF L listen(2)] by (simp add: fds_ok_def)
next
  case (error s lfd n)
  then show ?case using sock_lawsD(2) [OF L error(2)]
    by (auto simp: fds_ok_def accept_error_def Let_def sock_lawsD(3,7) [OF L] split: prod.split)
next
  case (serve s lfd fd n c)
  then show ?case using sock_lawsD(2) [OF L serve(2)]
    by (auto simp: fds_ok_def serve_fd_def Let_def sock_lawsD(3) [OF L] configure_opens [OF L])
qed (simp add: fds_ok_def)

lemma net_reach_fds:
  "net_reach P cfg K port s0 s \<Longrightarrow> sock_laws K opens \<Longrightarrow> fds_ok opens s0 \<Longrightarrow> fds_ok opens s"
  by (induction rule: net_reach.induct) (auto intro: net_step_fds)

text \<open>
  C7. The accept loop over sockets refines the loop over phases and leaks no descriptor. Every step of
  the loop, from opening the listener with each of its three failures to serving and closing a
  connection, is a step of \<^verbatim>\<open>Server::Run\<close> as modelled over phases; and whenever the loop comes round,
  the process holds exactly the listening descriptor, or none while it has to be reopened.
\<close>

theorem sockets_refine:
  assumes "sock_laws K opens" "opens n = {}" "net_reach P cfg K port (net_start w n) s"
  shows "(\<exists>ls. runs P cfg (boot_state w) ls (abs_net s)) \<and> opens (net s) = set_option (listen_fd s) \<and>
    (\<forall>s'. net_step P cfg K port s s' \<longrightarrow> (\<exists>l. run_step P cfg (abs_net s) l (abs_net s'))) \<and>
    (listen_fd s \<noteq> None \<longrightarrow> consecutive_errors s < kMaxAcceptErrors)"
proof -
  have b: "abs_net (net_start w n) = boot_state w" by (simp add: abs_net_def net_start_def boot_state_def)
  then obtain ls where r: "runs P cfg (boot_state w) ls (abs_net s)" using net_reach_runs [OF assms(3)] by auto
  then have "run_inv cfg (abs_net s)" by (rule runs_inv) (simp add: run_inv_def boot_state_def)
  moreover have "fds_ok opens s"
    using net_reach_fds [OF assms(3,1)] assms(2) by (simp add: fds_ok_def net_start_def)
  ultimately show ?thesis using r net_step_refines by (auto simp: run_inv_def fds_ok_def)
qed

text \<open>A network whose world is the list of the descriptors in use; the next one is larger than all.\<close>

definition numbering :: "nat list sock_api" where
  "numbering =
     \<lparr>keepidle_defined = True,
      sk_socket = (\<lambda>fds. (Some (Suc (sum_list fds)), Suc (sum_list fds) # fds)), sk_setopt = (\<lambda>_ _ n. n),
      sk_bind = (\<lambda>_ _ n. (True, n)), sk_listen = (\<lambda>_ _ n. (True, n)), sk_accept = (\<lambda>_ n. (None, n)),
      sk_close = removeAll, sk_sleep = (\<lambda>_ n. n)\<rparr>"

lemma numbering_laws: "sock_laws numbering set"
  using member_le_sum_list by (auto simp: sock_laws_def numbering_def dest: Suc_le_lessD)

theorem sockets_refine_witness:
  "\<exists>s. net_reach idle_platform default_config numbering 6060 (net_start () []) s \<and> listen_fd s = Some 1 \<and>
     set (net s) = {1}"
proof -
  let ?s = "(net_start () [])\<lparr>net := [1], listen_fd := Some 1, consecutive_errors := 0\<rparr>"
  have "OpenListener numbering 6060 (net (net_start () [])) = (Some 1, [1])"
    by (simp add: OpenListener_def numbering_def net_start_def)
  then have "net_step idle_platform default_config numbering 6060 (net_start () []) ?s"
    by (intro net_step.listen) (simp add: net_start_def)
  then have r: "net_reach idle_platform default_config numbering 6060 (net_start () []) ?s"
    by (rule net_reach.after [OF net_reach.at_start])
  show ?thesis using sockets_refine [OF numbering_laws _ r] r by auto
qed

end
