(* ===== verification/Boot.thy ===== *)
theory Boot
  imports AgentLaws
begin

text \<open>
  Program entry (\<^verbatim>\<open>main.cpp\<close>): the heap budget with its static assertions, the services opened before
  \<^verbatim>\<open>main\<close> and closed after it, and what \<^verbatim>\<open>main\<close> does before the accept loop takes over: loading the
  configuration, counting the boot, registering for sleep notifications and scheduling the lock
  screen's unlock.
\<close>

section \<open>The heap budget\<close>

definition INNER_HEAP_SIZE :: nat where "INNER_HEAP_SIZE = 4 * 1024 * 1024"

definition kMemSearchBudget :: nat where "kMemSearchBudget = 32768 * 16"

definition kWorstCaseHeap :: nat where
  "kWorstCaseHeap = 2 ^ 20 + 2 ^ 20 + 512 * 2 ^ 10 + 128 * 2 ^ 10 + kMemSearchBudget"

text \<open>The two \<^verbatim>\<open>static_assert\<close>s.\<close>

lemma static_asserts:
  "kWorstCaseHeap < INNER_HEAP_SIZE - 512 * 2 ^ 10" "INNER_HEAP_SIZE \<le> 4 * 1024 * 1024"
  by (simp_all add: kWorstCaseHeap_def INNER_HEAP_SIZE_def kMemSearchBudget_def)

text \<open>
  The memory the agent keeps fits its heap. After any history of commands the candidate table the
  searches hold (16 bytes each), the largest reply trailer any handler can return and the largest
  request payload the frame reader accepts add up to less than the budget main.cpp asserts, and so
  stay below the 4 MiB heap with the asserted margin.
\<close>

theorem held_memory_fits:
  assumes "fills_buffers E" "agent_run E rs (agent_start w) = Some a" "agent_handler E f req a = Some (r, a')"
    and "length (req_payload req) \<le> kMaxBinary"
  shows "length (candidates (a_hunt a')) * 16 + length (reply_out (snd r)) + length (req_payload req) \<le> kWorstCaseHeap \<and>
    kWorstCaseHeap + 512 * 2 ^ 10 < INNER_HEAP_SIZE"
proof -
  have "agent_run E (rs @ [(f, req)]) (agent_start w) = Some a'"
  proof -
    have "agent_run E (rs @ [(f, req)]) b = Some a'" if "agent_run E rs b = Some a" for b
      using that assms(3) by (induction rs arbitrary: b) (auto split: option.splits)
    then show ?thesis using assms(2) .
  qed
  then have "hunt_ok (a_hunt a')"
    by (rule agent_run_preserves [OF table_hunt_ok]) (simp add: agent_start_def hunt_ok_start)
  then have t: "length (candidates (a_hunt a')) * 16 \<le> kMemSearchBudget"
    by (simp add: hunt_ok_def cands_ok_def kMaxCandidates_def kMemSearchBudget_def)
  obtain h where h: "(f, h) \<in> set (handler_table E)" "h req a = Some (r, a')"
    using assms(3) by (auto simp: agent_handler_def split: option.splits dest: map_of_SomeD)
  then have "keeps h" using table_keeps [OF assms(1)] by (auto simp: list_all_iff)
  then have "keeps_contract r"
    using h(2) unfolding keeps_def returns_ok_def by (metis fst_conv option.simps(5))
  then have "length (reply_out (snd r)) \<le> 2 ^ 20"
    by (simp add: keeps_contract_def reply_ok_def kMaxBinary_def)
  then show ?thesis
    using t assms(4) by (simp add: kWorstCaseHeap_def INNER_HEAP_SIZE_def kMemSearchBudget_def kMaxBinary_def)
qed

theorem held_memory_fits_witness:
  "\<forall>E. \<exists>r a'. agent_handler (calm E) ''RunningApp'' (save_request []) (agent_start ()) = Some (r, a') \<and>
     length (reply_out (snd r)) \<le> kWorstCaseHeap"
proof
  fix E
  obtain r a' where r: "agent_handler (calm E) ''RunningApp'' (save_request []) (agent_start ()) = Some (r, a')"
    using calm_running by blast
  have "agent_run (calm E) [] (agent_start ()) = Some (agent_start ())" by simp
  from held_memory_fits [OF calm_fills this r] r
  show "\<exists>r a'. agent_handler (calm E) ''RunningApp'' (save_request []) (agent_start ()) = Some (r, a') \<and>
     length (reply_out (snd r)) \<le> kWorstCaseHeap"
    by (force simp: save_request_def)
qed

section \<open>Services\<close>

text \<open>
  The console's services by the prefix of their libnx functions, each opened and closed by name, the
  firmware version the settings give, and the calls that only register or mount something.
\<close>

record 'w start_api =
  svc_start :: "string \<Rightarrow> 'w \<Rightarrow> bool \<times> 'w"
  svc_stop :: "string \<Rightarrow> 'w \<Rightarrow> 'w"
  start_firmware :: "'w \<Rightarrow> firmware option"
  hosversion_set :: "firmware \<Rightarrow> 'w \<Rightarrow> 'w"
  mount_sdmc :: "'w \<Rightarrow> 'w"
  unmount_all :: "'w \<Rightarrow> 'w"
  supported_styles :: "'w \<Rightarrow> 'w"
  supported_pads :: "string list \<Rightarrow> 'w \<Rightarrow> 'w"

definition optional_services :: "string list" where
  "optional_services =
     [''socket'', ''capssc'', ''psm'', ''ts'', ''nifm'', ''ns'', ''pmshell'', ''pmdmnt'', ''pminfo'',
      ''hiddbg'', ''bpc'', ''lbl'', ''pcv'', ''clkrst'', ''audctl'', ''time'', ''set'', ''capsa'', ''i2c'',
      ''gpio'', ''hid'']"

definition kIds :: "string list" where
  "kIds = [''No1'', ''No2'', ''No3'', ''No4'', ''No5'', ''No6'', ''No7'', ''No8'', ''Handheld'']"

definition start_all :: "'w start_api \<Rightarrow> string list \<Rightarrow> 'w \<Rightarrow> 'w" where
  "start_all A ns w = fold (\<lambda>n w. snd (svc_start A n w)) ns w"

text \<open>\<open>None\<close> is \<^verbatim>\<open>fatalThrow\<close>.\<close>

definition appInit :: "'w start_api \<Rightarrow> 'w \<Rightarrow> 'w option" where
  "appInit A w =
     (let (ok, w) = svc_start A ''sm'' w
      in if \<not> ok then None
         else let (ok, w) = svc_start A ''setsys'' w;
                  w = (if \<not> ok then w
                       else case start_firmware A w of None \<Rightarrow> w | Some f \<Rightarrow> hosversion_set A f w);
                  (ok, w) = svc_start A ''fs'' w
              in if \<not> ok then None
                 else Some (supported_pads A kIds (supported_styles A (start_all A optional_services (mount_sdmc A w)))))"

definition closing_order :: "string list" where
  "closing_order =
     [''clkrst'', ''hid'', ''gpio'', ''i2c'', ''capsa'', ''set'', ''time'', ''audctl'', ''pcv'', ''lbl'',
      ''bpc'', ''hiddbg'', ''pminfo'', ''pmdmnt'', ''pmshell'', ''ns'', ''nifm'', ''ts'', ''psm'', ''capssc'',
      ''socket'']"

definition appExit :: "'w start_api \<Rightarrow> psc \<times> 'w \<Rightarrow> psc \<times> 'w" where
  "appExit A s =
     (Exit (fst s),
      svc_stop A ''setsys'' (svc_stop A ''fs'' (unmount_all A (fold (svc_stop A) closing_order (snd s)))))"

text \<open>Documented of libnx services: opening counts a session unless it fails, closing takes one back.\<close>

definition counted :: "'w start_api \<Rightarrow> ('w \<Rightarrow> string \<Rightarrow> nat) \<Rightarrow> bool" where
  "counted A opens \<longleftrightarrow>
     (\<forall>n w. opens (snd (svc_start A n w)) = (if fst (svc_start A n w) then (opens w)(n := Suc (opens w n)) else opens w)) \<and>
     (\<forall>n w. opens (svc_stop A n w) = (opens w)(n := opens w n - 1)) \<and>
     (\<forall>f w. opens (hosversion_set A f w) = opens w) \<and> (\<forall>w. opens (mount_sdmc A w) = opens w) \<and>
     (\<forall>w. opens (unmount_all A w) = opens w) \<and> (\<forall>ks w. opens (supported_pads A ks w) = opens w) \<and>
     (\<forall>w. opens (supported_styles A w) = opens w)"

lemma countedD:
  assumes "counted A opens"
  shows "opens (snd (svc_start A n w)) m = opens w m + (if fst (svc_start A n w) \<and> m = n then 1 else 0)"
    and "opens (svc_stop A n w) m = opens w m - (if m = n then 1 else 0)"
    and "opens (hosversion_set A f w) = opens w" "opens (mount_sdmc A w) = opens w"
    and "opens (unmount_all A w) = opens w" "opens (supported_pads A ks w) = opens w"
    and "opens (supported_styles A w) = opens w"
  using assms unfolding counted_def by simp_all

lemma start_all_counts:
  assumes "counted A opens"
  shows "opens (start_all A ns w) m \<le> opens w m + count_list ns m"
proof (induction ns arbitrary: w)
  case (Cons n ns)
  then show ?case
    using le_trans [OF Cons.IH [of "snd (svc_start A n w)"]] by (simp add: start_all_def countedD(1) [OF assms])
qed (simp add: start_all_def)

lemma start_all_grows:
  assumes "counted A opens"
  shows "opens w m \<le> opens (start_all A ns w) m"
proof (induction ns arbitrary: w)
  case (Cons n ns)
  have "opens w m \<le> opens (snd (svc_start A n w)) m" by (simp add: countedD(1) [OF assms])
  then show ?case using Cons.IH [of "snd (svc_start A n w)"] by (simp add: start_all_def)
qed (simp add: start_all_def)

lemma stop_all_counts:
  "counted A opens \<Longrightarrow> opens (fold (svc_stop A) ns w) m = opens w m - count_list ns m"
  by (induction ns arbitrary: w) (simp_all add: countedD(2))

lemma count_list_distinct: "distinct xs \<Longrightarrow> count_list xs m = (if m \<in> set xs then 1 else 0)"
  by (induction xs) auto

lemma same_services: "count_list optional_services m = count_list closing_order m"
proof -
  have d: "distinct optional_services" "distinct closing_order"
    by (simp_all add: optional_services_def closing_order_def)
  have "set optional_services \<subseteq> set closing_order" "set closing_order \<subseteq> set optional_services"
    by (simp_all add: optional_services_def closing_order_def)
  then have "set optional_services = set closing_order" by (rule subset_antisym)
  then show ?thesis by (simp add: count_list_distinct [OF d(1)] count_list_distinct [OF d(2)])
qed

text \<open>
  What the start-up opens the exit closes: whichever services fail, only the service manager and the
  file system are fatal, and after the exit no session is left but the service manager's, which stays
  open on purpose, and no power-state registration.
\<close>

theorem services_released:
  assumes "counted A opens" "\<forall>n. opens w n = 0" "appInit A w = Some w'"
  shows "opens (snd (appExit A (p, w'))) n = (if n = ''sm'' then 1 else 0) \<and> \<not> registered (fst (appExit A (p, w')))"
proof
  note count = countedD [OF assms(1)]
  define v where "v = snd (svc_start A ''setsys'' (snd (svc_start A ''sm'' w)))"
  define u where "u = (if fst (svc_start A ''setsys'' (snd (svc_start A ''sm'' w)))
    then case start_firmware A v of None \<Rightarrow> v | Some f \<Rightarrow> hosversion_set A f v else v)"
  have init: "appInit A w =
     (if \<not> fst (svc_start A ''sm'' w) \<or> \<not> fst (svc_start A ''fs'' u) then None
      else Some (supported_pads A kIds (supported_styles A (start_all A optional_services (mount_sdmc A (snd (svc_start A ''fs'' u)))))))"
    unfolding appInit_def Let_def split_beta u_def v_def by simp
  then have ok: "fst (svc_start A ''sm'' w)"
    and w': "w' = supported_pads A kIds (supported_styles A (start_all A optional_services (mount_sdmc A (snd (svc_start A ''fs'' u)))))"
    using assms(3) by (simp_all split: if_splits)
  have u: "opens u = opens v" by (simp add: u_def count split: option.split)
  have v: "opens v n = (if n = ''sm'' then 1 else 0) + opens v ''setsys'' * (if n = ''setsys'' then 1 else 0)"
    "opens v ''setsys'' \<le> 1"
    using ok assms(2) by (simp_all add: v_def count)
  define f where "f = opens (snd (svc_start A ''fs'' u)) n"
  have f: "f \<le> opens v n + (if n = ''fs'' then 1 else 0)" "opens v n \<le> f"
    by (simp_all add: f_def count u)
  have up: "opens w' n \<le> f + count_list closing_order n"
    using start_all_counts [OF assms(1), of optional_services "mount_sdmc A (snd (svc_start A ''fs'' u))" n]
    by (simp add: w' count f_def same_services)
  have low: "f \<le> opens w' n"
    using start_all_grows [OF assms(1), of "mount_sdmc A (snd (svc_start A ''fs'' u))" n optional_services]
    by (simp add: w' count f_def)
  have e: "opens (snd (appExit A (p, w'))) n =
      opens w' n - count_list closing_order n - (if n = ''fs'' then 1 else 0) - (if n = ''setsys'' then 1 else 0)"
    by (simp add: appExit_def count stop_all_counts [OF assms(1)])
  have sm: "count_list closing_order ''sm'' = 0" "count_list closing_order ''fs'' = 0"
      "count_list closing_order ''setsys'' = 0" by (simp_all add: closing_order_def)
  consider "n = ''sm''" | "n = ''fs''" | "n = ''setsys''" | "n \<noteq> ''sm''" "n \<noteq> ''fs''" "n \<noteq> ''setsys''" by blast
  then show "opens (snd (appExit A (p, w'))) n = (if n = ''sm'' then 1 else 0)"
    using e up low f v sm by cases simp_all
  show "\<not> registered (fst (appExit A (p, w')))" by (simp add: appExit_def Exit_def)
qed

text \<open>A console on which every service but some answers.\<close>

definition counting_services :: "string list \<Rightarrow> (string \<Rightarrow> nat) start_api" where
  "counting_services missing =
     \<lparr>svc_start = (\<lambda>n w. if n \<in> set missing then (False, w) else (True, w(n := Suc (w n)))),
      svc_stop = (\<lambda>n w. w(n := w n - 1)), start_firmware = (\<lambda>_. None), hosversion_set = (\<lambda>_ w. w),
      mount_sdmc = id, unmount_all = id, supported_styles = id, supported_pads = (\<lambda>_ w. w)\<rparr>"

lemma counting_services_counted: "counted (counting_services ms) id"
  by (simp add: counted_def counting_services_def)

theorem services_released_witness:
  "\<exists>w'. appInit (counting_services [''i2c'']) (\<lambda>_. 0) = Some w' \<and>
     snd (appExit (counting_services [''i2c'']) (no_psc, w')) ''ns'' = 0"
proof -
  have "\<exists>w'. appInit (counting_services [''i2c'']) (\<lambda>_. 0) = Some w'"
    by (simp add: appInit_def counting_services_def)
  then obtain w' where w': "appInit (counting_services [''i2c'']) (\<lambda>_. 0) = Some w'" ..
  with services_released [OF counting_services_counted _ w', of no_psc "''ns''"] show ?thesis by simp
qed

section \<open>Start-up\<close>

text \<open>What \<^verbatim>\<open>main\<close> sets up before it runs the server.\<close>

record 'w booted =
  b_cfg :: agent_config
  b_written :: "string option"
  b_guards :: "'w guards"
  b_psc :: psc
  b_unlock :: unlocker

definition boot ::
  "string option \<Rightarrow> byte list \<Rightarrow> bool \<Rightarrow> string option \<Rightarrow> string option \<Rightarrow> 'w card \<Rightarrow> psc_results \<Rightarrow> thread_call \<Rightarrow>
   'w \<Rightarrow> 'w booted" where
  "boot ini rnd writable emu1 emu2 C results threads w =
     (let (cfg, written) = LoadConfig ini rnd writable emu1 emu2
      in \<lparr>b_cfg = cfg, b_written = written,
          b_guards = WatchdogOnBoot C \<lparr>gworld = w, g_boot_count = 0\<rparr>,
          b_psc = snd (Init cfg results no_psc),
          b_unlock = ScheduleUnlock cfg threads \<lparr>g_started = False, g_keep_awake_ns = 0\<rparr>\<rparr>)"

lemma enable_psc_source: "enable_psc (read_config s) \<Longrightarrow> says s ''enable_psc'' is_true"
proof -
  assume e: "enable_psc (read_config s)"
  have "enable_psc (apply_line c l) = enable_psc c \<or>
     (\<exists>v. key_value ''#;'' l = Some (''enable_psc'', v) \<and> enable_psc (apply_line c l) = is_true v)" for c l
    by (auto simp: apply_line_def apply_setting_def Let_def split: option.splits)
  moreover have "\<not> enable_psc default_config" by (simp add: default_config_def)
  ultimately show ?thesis
    using foldl_source [of enable_psc apply_line "key_value ''#;''" "''enable_psc''" is_true default_config "fgets_lines 510 s"] e
    unfolding read_config_def says_def by metis
qed

lemma loaded_from_file:
  assumes "cfg = fst (LoadConfig ini rnd wr a b)"
  shows "cfg_tier cfg \<noteq> Observe \<Longrightarrow>
      \<exists>s. ini = Some s \<and> (says s ''tier'' (\<lambda>v. v = ''control'') \<or> says s ''tier'' (\<lambda>v. v = ''invasive''))"
    and "enable_psc cfg \<Longrightarrow> \<exists>s. ini = Some s \<and> says s ''enable_psc'' is_true"
proof -
  have f: "ini = None \<Longrightarrow> cfg_tier cfg = Observe \<and> \<not> enable_psc cfg"
    "ini = Some s \<Longrightarrow> cfg_tier cfg = cfg_tier (read_config s) \<and> enable_psc cfg = enable_psc (read_config s)" for s
    using assms by (auto simp: LoadConfig_def default_config_def Let_def)
  show "\<exists>s. ini = Some s \<and> (says s ''tier'' (\<lambda>v. v = ''control'') \<or> says s ''tier'' (\<lambda>v. v = ''invasive''))"
    if t: "cfg_tier cfg \<noteq> Observe"
  proof -
    obtain s where s: "ini = Some s" using t f(1) by (cases ini) auto
    then have "says s ''tier'' (\<lambda>v. ParseTier v = cfg_tier cfg)" using read_config_source(1) [of s] t f(2) by auto
    moreover have "cfg_tier cfg = Control \<or> cfg_tier cfg = Invasive" using t by (cases "cfg_tier cfg") auto
    ultimately show ?thesis using s by (auto simp: ParseTier_iff)
  qed
  show "\<exists>s. ini = Some s \<and> says s ''enable_psc'' is_true" if e: "enable_psc cfg"
  proof -
    obtain s where s: "ini = Some s" using e f(1) by (cases ini) auto
    then show ?thesis using enable_psc_source [of s] e f(2) by auto
  qed
qed

text \<open>
  Booting is passive unless the owner says otherwise. Whatever the configuration file holds, or if
  there is none, the thread that presses buttons is started only where a line of the file grants the
  control or invasive tier, and the agent registers with the sleep service only where a line enables
  it; a registration that fails half-way leaves nothing registered.
\<close>

theorem boot_passive:
  assumes "s = boot ini rnd writable emu1 emu2 C results threads w"
  shows "(g_started (b_unlock s) \<longrightarrow> (\<exists>f. ini = Some f \<and>
      (says f ''tier'' (\<lambda>v. v = ''control'') \<or> says f ''tier'' (\<lambda>v. v = ''invasive'')))) \<and>
    (registered (b_psc s) \<longrightarrow> (\<exists>f. ini = Some f \<and> says f ''enable_psc'' is_true)) \<and> psc_safe (b_psc s)"
proof -
  let ?cfg = "fst (LoadConfig ini rnd writable emu1 emu2)"
  have s: "b_unlock s = ScheduleUnlock ?cfg threads \<lparr>g_started = False, g_keep_awake_ns = 0\<rparr>"
    "b_psc s = snd (Init ?cfg results no_psc)"
    using assms by (simp_all add: boot_def split: prod.split)
  have "cfg_tier ?cfg \<noteq> Observe" if "g_started (b_unlock s)"
    using that by (auto simp: s ScheduleUnlock_def Let_def split: if_splits)
  moreover have "enable_psc ?cfg" if "registered (b_psc s)"
    using that by (auto simp: s Init_def no_psc_def split: if_splits)
  moreover have "psc_safe (b_psc s)"
    by (auto simp: s Init_def no_psc_def psc_safe_def Let_def)
  ultimately show ?thesis using loaded_from_file [OF refl] by blast
qed

theorem boot_passive_witness:
  "\<forall>C. \<not> g_started (b_unlock (boot None [1] True None None C
     \<lparr>initialize_ok = True, get_module_ok = True, thread_create_ok = True, thread_start_ok = True\<rparr> Running ()))"
  using boot_passive [OF refl, of None "[1]" True None None _ _ Running "()"] by blast

end
