(* ===== verification/Process.thy ===== *)
theory Process
  imports Listener Boot
begin

text \<open>
  The whole process: \<^verbatim>\<open>main\<close> boots the agent with the configuration it has read and runs the accept
  loop over sockets, with the modelled handlers behind the server. What the configuration file, the
  traces of the connections and the agent's state have to do with each other in every state reached.
\<close>

section \<open>The search table along a connection\<close>

abbreviation hunt_kept :: "'w agent option \<Rightarrow> bool" where
  "hunt_kept w \<equiv> pred_option (\<lambda>a. hunt_ok (a_hunt a)) w"

lemma run_on_agent_hunt:
  assumes "hunt_kept w" "run_on_agent E f req w = (r, w')"
  shows "hunt_kept w'"
proof (cases w)
  case None
  then show ?thesis using assms by (auto simp: run_on_agent_def)
next
  case (Some a)
  show ?thesis
  proof (cases "agent_handler E f req a")
    case None
    then show ?thesis using assms Some by (auto simp: run_on_agent_def)
  next
    case r: (Some y)
    obtain q b where y: "y = (q, b)" by (cases y)
    then have "agent_run E [(f, req)] a = Some b" using r by simp
    from agent_run_preserves [OF table_hunt_ok this] have "hunt_ok (a_hunt b)" using assms(1) Some by simp
    then show ?thesis using assms(2) Some r y by (auto simp: run_on_agent_def)
  qed
qed

lemma hunt_kept_map: "(\<And>a. a_hunt (g a) = a_hunt a) \<Longrightarrow> hunt_kept (map_option g w) = hunt_kept w"
  by (cases w) simp_all

lemma execute_hunt:
  assumes "hunt_kept (world s)"
  shows "hunt_kept (world (snd (execute (agent_platform E X) cfg msg p s)))"
proof (cases rule: execute_cases [where P = "agent_platform E X" and cfg = cfg and msg = msg and p = p and s = s])
  case (ran c ok reply w)
  have "run_on_agent E (fn c) \<lparr>req_msg = msg, req_payload = p, req_cfg = cfg\<rparr> (world s) = ((ok, reply), w)"
    using ran(4) by (simp add: agent_platform_def)
  then have "hunt_kept w" by (rule run_on_agent_hunt [OF assms])
  then show ?thesis using ran(5) by (simp add: agent_platform_def hunt_kept_map journal_on_agent_def)
qed (use assms in simp_all)

lemma connection_hunt:
  assumes "world s = Some a" "hunt_ok (a_hunt a)"
  shows "hunt_kept (world (ServeConnection (agent_platform E X) cfg s))"
proof -
  let ?P = "agent_platform E X"
  obtain r u where u: "Authenticate ?P cfg s = (r, u)" by fastforce
  obtain c g where "world u = Some (a\<lparr>console := c, a_guards := g\<rparr>)"
    using Authenticate_agent [OF u assms(1)] by blast
  then have h: "hunt_kept (world u)" using assms(2) by simp
  then have "hunt_kept (world (serve_loop ?P cfg 0 u))"
    by (intro serve_loop_invariant [where I = "\<lambda>s. hunt_kept (world s)"]) (simp_all add: execute_hunt)
  moreover have "hunt_kept (vpad_release ?P w) = hunt_kept w" for w
    by (simp add: agent_platform_def hunt_kept_map keep_pad_def)
  ultimately show ?thesis using u h by (simp add: ServeConnection_def called_def split: bool.split)
qed

section \<open>The state owed to the history\<close>

fun owed :: "agent_config \<Rightarrow> call list list \<Rightarrow> 'w agent option \<Rightarrow> bool" where
  "owed cfg H None = (\<exists>cs\<in>set H. \<exists>cmd\<in>waiting_commands. \<exists>ok. Ran cmd ok \<in> set cs \<and> permitted cfg cmd)"
| "owed cfg H (Some b) =
     (\<not> g_attached (a_pad b) \<and> hunt_ok (a_hunt b) \<and>
      (power_started (a_power b) \<longrightarrow>
         (\<exists>cs\<in>set H. \<exists>cmd\<in>transition_commands. Ran cmd True \<in> set cs \<and> Journaled cmd True \<in> set cs \<and> permitted cfg cmd)) \<and>
      (g_debug (a_debug b) \<noteq> None \<longrightarrow>
         (\<exists>cs\<in>set H. \<exists>ok. Ran ''debug.attach'' ok \<in> set cs \<and> permitted cfg ''debug.attach'')))"

lemma owed_more: "owed cfg H w \<Longrightarrow> owed cfg (H @ [cs]) w"
  by (cases w) auto

text \<open>A process stuck in a handler stays so.\<close>

lemma execute_stuck:
  assumes "world s = None"
  shows "world (snd (execute (agent_platform E X) cfg msg p s)) = None"
proof (cases rule: execute_cases [where P = "agent_platform E X" and cfg = cfg and msg = msg and p = p and s = s])
  case (ran c ok reply w)
  then have "w = None" using assms by (simp add: agent_platform_def run_on_agent_def)
  then show ?thesis using ran(5) by (simp add: agent_platform_def)
qed (use assms in simp_all)

lemma served_stuck:
  assumes "world s = None"
  shows "world (ServeConnection (agent_platform E X) cfg s) = None"
proof -
  let ?P = "agent_platform E X"
  obtain r u where u: "Authenticate ?P cfg s = (r, u)" by fastforce
  have n: "w = None" if "w \<in> {world s, snd (random_get ?P 32 (world s))}" for w
    using that assms by (auto simp: agent_platform_def)
  have w: "world u = None"
  proof (cases r)
    case True
    then have "Authenticate ?P cfg s = (True, u)" using u by simp
    from Authenticate_world [OF this] show ?thesis using n by (auto simp: agent_platform_def)
  next
    case False
    then show ?thesis using Authenticate_outcome [OF u] n by simp
  qed
  then have "world (serve_loop ?P cfg 0 u) = None"
    by (intro serve_loop_invariant [where I = "\<lambda>s. world s = None"]) (simp_all add: execute_stuck)
  moreover have "vpad_release ?P None = None" by (simp add: agent_platform_def)
  ultimately show ?thesis using u w by (simp add: ServeConnection_def called_def split: bool.split)
qed

lemma served_owed:
  assumes "owed cfg H w" "r = serve_accepted (agent_platform E X) cfg c w"
  shows "owed cfg (H @ [calls r]) (world r)"
proof (cases w)
  case None
  then have "world r = None" using assms(2) by (simp add: serve_accepted_def served_stuck)
  then show ?thesis using owed_more [OF assms(1)] None by simp
next
  case (Some a)
  define s where "s = \<lparr>sconn = ConfigureConnSocket c, world = Some a, calls = []\<rparr>"
  have r: "r = ServeConnection (agent_platform E X) cfg s" using assms(2) Some by (simp add: serve_accepted_def s_def)
  have ws: "calls s = []" "world s = Some a" by (simp_all add: s_def)
  note left = connection_leaves [OF r ws]
  show ?thesis
  proof (cases "world r")
    case None
    then show ?thesis using left by auto
  next
    case b: (Some b)
    have "hunt_ok (a_hunt b)" using connection_hunt [OF ws(2), of E X cfg] assms(1) Some b r by simp
    moreover have "\<not> g_attached (a_pad b)"
      using left b assms(1) Some by (auto split: if_splits)
    moreover have "\<exists>cs\<in>set (H @ [calls r]). \<exists>cmd\<in>transition_commands. Ran cmd True \<in> set cs \<and> Journaled cmd True \<in> set cs \<and> permitted cfg cmd"
      if "power_started (a_power b)"
      using that left b assms(1) Some by auto
    moreover have "\<exists>cs\<in>set (H @ [calls r]). \<exists>ok. Ran ''debug.attach'' ok \<in> set cs \<and> permitted cfg ''debug.attach''"
      if "g_debug (a_debug b) \<noteq> None"
      using that left b assms(1) Some by auto
    ultimately show ?thesis using b by simp
  qed
qed

lemma net_step_owed:
  "net_step (agent_platform E X) cfg K port s s' \<Longrightarrow> owed cfg (nhistory s) (nworld s) \<Longrightarrow> owed cfg (nhistory s') (nworld s')"
proof (induction rule: net_step.induct)
  case (error s lfd n)
  then show ?case by (simp add: accept_error_def Let_def split: prod.split)
next
  case (serve s lfd fd n c)
  then show ?case using served_owed [OF serve(3) refl] by (simp add: serve_fd_def Let_def)
qed simp_all

lemma net_reach_owed:
  "net_reach (agent_platform E X) cfg K port s0 s \<Longrightarrow> owed cfg (nhistory s0) (nworld s0) \<Longrightarrow> owed cfg (nhistory s) (nworld s)"
  by (induction rule: net_reach.induct) (auto intro: net_step_owed)

section \<open>From the configuration file to the console\<close>

text \<open>The owner's grant: a line of the file that sets the tier to control or invasive.\<close>

definition granted :: "string option \<Rightarrow> bool" where
  "granted ini \<longleftrightarrow>
     (\<exists>f. ini = Some f \<and> (says f ''tier'' (\<lambda>v. v = ''control'') \<or> says f ''tier'' (\<lambda>v. v = ''invasive'')))"

definition booted_agent :: "'w booted \<Rightarrow> 'w agent" where
  "booted_agent s = keep_guards (b_guards s) (agent_start (gworld (b_guards s)))"

lemma needs_control:
  assumes "permitted cfg cmd" "cmd \<in> transition_commands \<or> cmd = ''debug.attach''"
  shows "cfg_tier cfg \<noteq> Observe"
proof -
  obtain c where c: "(cmd, c) \<in> set command_table" "ctier c \<le> cfg_tier cfg"
    using assms(1) by (auto simp: permitted_def)
  have "list_all (\<lambda>(cmd, c). cmd \<in> transition_commands \<or> cmd = ''debug.attach'' \<longrightarrow> ctier c \<noteq> Observe) command_table"
    by (simp add: command_table_def transition_commands_def)
  then have "ctier c \<noteq> Observe" using c(1) assms(2) by (auto simp: list_all_iff)
  then show ?thesis using c(2) by (cases "ctier c") (auto simp: less_eq_tier_def)
qed


text \<open>Booting without a configuration file, and opening the listener.\<close>

definition all_ok :: psc_results where
  "all_ok = \<lparr>initialize_ok = True, get_module_ok = True, thread_create_ok = True, thread_start_ok = True\<rparr>"


end
