(* ===== verification/Takeover.thy ===== *)
theory Takeover
  imports Process
begin

text \<open>
  What the tiers do not separate: the configuration file lies on the card that the control tier may
  write, and the control tier may restart the agent.
\<close>

definition config_path :: string where "config_path = ''/config/switch-agentd/config.ini''"

definition takeover_ini :: string where
  "takeover_ini =
     unlines [''tier=invasive'', ''allow_nand_write=true'', ''allow_overclock=true'', ''allow_hardware=true'', ''token=secret'']"

lemma takeover_read:
  "(let c = read_config takeover_ini
    in (cfg_tier c, allow_nand_write c, allow_overclock c, allow_hardware c, cfg_token c)) =
   (Invasive, True, True, True, ''secret'')"
  by code_simp

lemma takeover_loaded:
  "let c = fst (LoadConfig (Some takeover_ini) rnd writable emu1 emu2)
   in cfg_tier c = Invasive \<and> allow_nand_write c \<and> allow_overclock c \<and> allow_hardware c"
  using takeover_read by (simp add: LoadConfig_def Let_def)

lemma config_device: "ResolveSdPath config_path = Some ''sdmc:/config/switch-agentd/config.ini''"
  by code_simp

text \<open>
  C38. The control tier contains the invasive one. Where the card keeps what is written to it, a client of
  the control tier whose upload of five lines to the configuration's path is acknowledged, and who may
  then restart the agent, meets after the restart an agent that permits every command of the table, those
  behind the three sub-gates included.
\<close>

theorem control_escalates:
  assumes "stores_files A" "cfg_tier cfg = Control"
    and "upload A cfg config_path 0 [bytes_of takeover_ini] s = Some s'"
    and "ini = map_option (string_of_bytes \<circ> fst) (fs_open_read A (disk s') ''sdmc:/config/switch-agentd/config.ini'')"
    and "b = boot ini rnd writable emu1 emu2 C results threads w"
  shows "permitted cfg ''fs.write'' \<and> permitted cfg ''agent.restart'' \<and>
    (\<forall>(cmd, c) \<in> set command_table. permitted (b_cfg b) cmd)"
proof -
  have len: "length (concat [bytes_of takeover_ini]) < 2 ^ 63"
    by (simp add: takeover_ini_def unlines_def)
  have "fs_open_read A (disk s') (c_str ''sdmc:/config/switch-agentd/config.ini'') = Some ([] @ concat [bytes_of takeover_ini], False)"
    by (rule upload_content [OF assms(1) config_device _ _ _ assms(3)]) (use len in simp_all)
  moreover have "string_of_bytes (bytes_of takeover_ini) = takeover_ini" by (rule string_of_bytes_of)
  ultimately have "ini = Some takeover_ini" using assms(4) by (simp add: comp_def)
  then have "b_cfg b = fst (LoadConfig (Some takeover_ini) rnd writable emu1 emu2)"
    using assms(5) by (simp add: boot_def split: prod.split)
  then have c: "cfg_tier (b_cfg b) = Invasive" "sub_gate (b_cfg b) cmd" for cmd
    using takeover_loaded [of rnd writable emu1 emu2] by (simp_all add: Let_def sub_gate_def)
  have "permitted (b_cfg b) cmd" if "(cmd, c) \<in> set command_table" for cmd c
    using c that unfolding permitted_def by (cases "ctier c") (auto simp: less_eq_tier_def)
  moreover have "permitted cfg ''fs.write'' \<and> permitted cfg ''agent.restart''"
    using assms(2) by (simp add: permitted_def sub_gate_def command_table_def less_eq_tier_def)
  ultimately show ?thesis by auto
qed

text \<open>On a card in memory.\<close>

lemma ram_upload:
  "\<exists>s'. upload ram_fs cfg config_path 0 [bs] empty_store = Some s'"
proof -
  have "FsWrite ram_fs (write_request cfg config_path 0 bs) empty_store =
      (success [(''written'', JInt (word_of_nat (length bs)))],
       \<lparr>disk = [''sdmc:/config/switch-agentd/config.ini'' \<mapsto> overwrite [] 0 bs], save_mounted = False\<rparr>)"
    by (simp add: FsWrite_def RequireWritableSd_def write_request_def json_fields_def config_device as_string_def
        as_int_def on_disk_def open_for_write_def ram_fs_def empty_store_def seek_pos_def word_sless_alt Let_def)
  then show ?thesis by (simp add: success_def success_out_def json_fields_def)
qed

theorem control_escalates_witness:
  "\<forall>C. \<exists>s' b. upload ram_fs (default_config\<lparr>cfg_tier := Control\<rparr>) config_path 0 [bytes_of takeover_ini] empty_store = Some s' \<and>
     b = boot (map_option (string_of_bytes \<circ> fst) (fs_open_read ram_fs (disk s') ''sdmc:/config/switch-agentd/config.ini''))
       [1] True None None C all_ok Running () \<and> permitted (b_cfg b) ''uninstall''"
proof
  fix C :: "unit card"
  let ?cfg = "default_config\<lparr>cfg_tier := Control\<rparr>"
  obtain s' where up: "upload ram_fs ?cfg config_path 0 [bytes_of takeover_ini] empty_store = Some s'"
    using ram_upload by blast
  define ini where "ini = map_option (string_of_bytes \<circ> fst) (fs_open_read ram_fs (disk s') ''sdmc:/config/switch-agentd/config.ini'')"
  define b where "b = boot ini [1] True None None C all_ok Running ()"
  have "cfg_tier ?cfg = Control" by simp
  from control_escalates [OF ram_fs_stores this up ini_def b_def]
  have "permitted (b_cfg b) ''uninstall''" by (auto simp: command_table_def)
  then show "\<exists>s' b. upload ram_fs ?cfg config_path 0 [bytes_of takeover_ini] empty_store = Some s' \<and>
     b = boot (map_option (string_of_bytes \<circ> fst) (fs_open_read ram_fs (disk s') ''sdmc:/config/switch-agentd/config.ini''))
       [1] True None None C all_ok Running () \<and> permitted (b_cfg b) ''uninstall''"
    using up b_def ini_def by blast
qed

end
